(* ===== verification/Prelude.thy ===== *)
theory Prelude
  imports Complex_Main "HOL-Library.Word" "HOL-Library.Char_ord" "HOL-Library.List_Lexorder"
begin

text \<open>
  What every component of the hub shares: the machine integers, the two clocks the daemon reads,
  the concurrent hash map (\<open>DashMap\<close>) that holds almost all of its state, and the contract of a
  map whose old entries are swept by a background task.

  \<^item> A \<open>String\<close> is the list of its UTF-8 bytes, each byte a \<^typ>\<open>char\<close>; the order of strings is
    Rust's, byte by byte (theories \<open>Char_ord\<close> and \<open>List_Lexorder\<close>).
  \<^item> \<open>std::time::Instant\<close> is a count of nanoseconds, a \<^typ>\<open>nat\<close>; \<open>elapsed\<close> and
    \<open>duration_since\<close> saturate at zero, as \<^typ>\<open>nat\<close> subtraction does.
  \<^item> \<open>chrono::DateTime<Utc>\<close> is an \<^typ>\<open>int\<close> of nanoseconds: the wall clock may be set back.
  \<^item> The clocks are read by the environment, so an operation that calls \<open>now()\<close> takes the value
    it read as an argument.
\<close>

section \<open>Machine integers\<close>

type_synonym u8 = "8 word"
type_synonym u16 = "16 word"
type_synonym u32 = "32 word"
type_synonym u64 = "64 word"

text \<open>The daemon is built with \<open>--release\<close>, so \<open>+=\<close> on an unsigned integer wraps around: word
  addition.\<close>

lemma unat_plus_one_u32: "(x :: u32) < y \<Longrightarrow> unat (x + 1) = unat x + 1"
proof -
  assume "x < y"
  then have "unat x < unat y" by (simp add: word_less_nat_alt)
  moreover have "unat y < 2 ^ 32" using unsigned_less [of y] by simp
  ultimately show ?thesis by (simp add: unat_word_ariths)
qed

lemma unat_of_nat_u32: "n < 2 ^ 32 \<Longrightarrow> unat (of_nat n :: u32) = n"
  by (simp add: unsigned_of_nat take_bit_eq_mod)

lemma less_plus_one_u32: "(x :: u32) < y \<Longrightarrow> x + 1 \<le> y"
  by (metis inc_le)

section \<open>Clocks\<close>

type_synonym instant = nat
type_synonym datetime = int

definition nanos_per_sec :: nat where
  "nanos_per_sec = 1000000000"

text \<open>\<open>TimeDelta::num_seconds\<close> of chrono truncates towards zero.\<close>

definition num_seconds :: "int \<Rightarrow> int" where
  "num_seconds d = (if 0 \<le> d then d div 1000000000 else - ((- d) div 1000000000))"

lemma num_seconds_mono: "a \<le> b \<Longrightarrow> num_seconds a \<le> num_seconds b"
proof -
  assume "a \<le> b"
  moreover have "0 \<le> x \<Longrightarrow> 0 \<le> x div 1000000000" for x :: int
    by (simp add: pos_imp_zdiv_nonneg_iff)
  moreover have "x \<le> y \<Longrightarrow> x div 1000000000 \<le> y div (1000000000 :: int)" for x y :: int
    by (simp add: zdiv_mono1)
  ultimately show ?thesis
    unfolding num_seconds_def
    by (smt (verit))
qed

section \<open>Decimal numbers\<close>

text \<open>How \<open>format!\<close> prints an unsigned integer.\<close>

fun show_nat :: "nat \<Rightarrow> string" where
  "show_nat n = (if n < 10 then [char_of (48 + n)] else show_nat (n div 10) @ [char_of (48 + n mod 10)])"

declare show_nat.simps [simp del]

definition read_digits :: "string \<Rightarrow> nat" where
  "read_digits cs = foldl (\<lambda>a c. 10 * a + (of_char c - 48)) 0 cs"

lemma read_show_nat: "read_digits (show_nat n) = n"
proof (induction n rule: show_nat.induct)
  case (1 n)
  show ?case
  proof (cases "n < 10")
    case True
    then show ?thesis by (simp add: show_nat.simps [of n] read_digits_def)
  next
    case False
    have "read_digits (xs @ [char_of (48 + n mod 10 :: nat)]) = 10 * read_digits xs + n mod 10" for xs
      by (simp add: read_digits_def)
    then show ?thesis using False 1 by (simp add: show_nat.simps [of n])
  qed
qed

lemma show_nat_inject [simp]: "show_nat m = show_nat n \<longleftrightarrow> m = n"
  by (metis read_show_nat)

lemma show_nat_digits: "c \<in> set (show_nat n) \<Longrightarrow> 48 \<le> (of_char c :: nat) \<and> of_char c < (58 :: nat)"
proof (induction n rule: show_nat.induct)
  case (1 n)
  show ?case
  proof (cases "n < 10")
    case True
    with "1.prems" show ?thesis by (simp add: show_nat.simps [of n])
  next
    case False
    have "n mod 10 < 10" by simp
    with False 1 show ?thesis by (auto simp: show_nat.simps [of n])
  qed
qed

text \<open>\<open>str::parse\<close> into an unsigned integer type whose largest value is \<open>hi\<close>: an optional plus sign,
  then digits; a digit that is none is reported before an overflow of the same step.\<close>

datatype parse_int_error = EmptyInt | InvalidDigit | PosOverflow

definition digit_value :: "char \<Rightarrow> nat option" where
  "digit_value c = (let n = of_char c in if 48 \<le> n \<and> n < 58 then Some (n - 48) else None)"

fun parse_digits :: "nat \<Rightarrow> nat \<Rightarrow> string \<Rightarrow> parse_int_error + nat" where
  "parse_digits hi acc [] = Inr acc"
| "parse_digits hi acc (c # cs) =
     (case digit_value c of
        None \<Rightarrow> Inl InvalidDigit
      | Some d \<Rightarrow> if 10 * acc + d \<le> hi then parse_digits hi (10 * acc + d) cs else Inl PosOverflow)"

definition parse_unsigned :: "nat \<Rightarrow> string \<Rightarrow> parse_int_error + nat" where
  "parse_unsigned hi s =
     (case s of
        [] \<Rightarrow> Inl EmptyInt
      | c # cs \<Rightarrow> if c = CHR ''+'' \<and> cs \<noteq> [] then parse_digits hi 0 cs else parse_digits hi 0 s)"

lemma parse_digits_append:
  "parse_digits hi acc (xs @ ys) =
     (case parse_digits hi acc xs of Inl e \<Rightarrow> Inl e | Inr a \<Rightarrow> parse_digits hi a ys)"
  by (induction xs arbitrary: acc) (auto split: option.splits)

lemma digit_value_char [simp]: "d < 10 \<Longrightarrow> digit_value (char_of (48 + d)) = Some d"
  by (simp add: digit_value_def Let_def)

lemma parse_digits_show: "n \<le> hi \<Longrightarrow> parse_digits hi 0 (show_nat n) = Inr n"
proof (induction n rule: show_nat.induct)
  case (1 n)
  show ?case
  proof (cases "n < 10")
    case True
    then show ?thesis using "1.prems" by (simp add: show_nat.simps [of n])
  next
    case False
    then have "n div 10 \<le> hi" using "1.prems" by simp
    then have "parse_digits hi 0 (show_nat (n div 10)) = Inr (n div 10)" using "1.IH" False by simp
    then show ?thesis using False "1.prems"
      by (simp add: show_nat.simps [of n] parse_digits_append)
  qed
qed

lemma show_nat_nonempty [simp]: "show_nat n \<noteq> []"
  by (simp add: show_nat.simps [of n])

lemma parse_show_nat: "n \<le> hi \<Longrightarrow> parse_unsigned hi (show_nat n) = Inr n"
proof -
  assume n: "n \<le> hi"
  obtain c cs where s: "show_nat n = c # cs" by (cases "show_nat n") auto
  then have "48 \<le> (of_char c :: nat)" using show_nat_digits [of c n] by simp
  then have "c \<noteq> CHR ''+''" by auto
  then show ?thesis using parse_digits_show [OF n] by (simp add: parse_unsigned_def s)
qed

section \<open>Strings\<close>

text \<open>\<open>str::starts_with\<close>, \<open>str::strip_prefix\<close> and \<open>str::as_bytes\<close>.\<close>

definition starts_with :: "string \<Rightarrow> string \<Rightarrow> bool" where
  "starts_with s p \<longleftrightarrow> take (length p) s = p"

definition strip_prefix :: "string \<Rightarrow> string \<Rightarrow> string option" where
  "strip_prefix s p = (if starts_with s p then Some (drop (length p) s) else None)"

definition as_bytes :: "string \<Rightarrow> u8 list" where
  "as_bytes s = map of_char s"

text \<open>\<open>str::trim_end_matches('/')\<close> and \<open>str::contains\<close>.\<close>

definition trim_end_slashes :: "string \<Rightarrow> string" where
  "trim_end_slashes s = rev (dropWhile (\<lambda>c. c = CHR ''/'') (rev s))"

text \<open>\<open>slice::join\<close>.\<close>

fun join :: "string \<Rightarrow> string list \<Rightarrow> string" where
  "join sep [] = ''''"
| "join sep [x] = x"
| "join sep (x # y # ys) = x @ sep @ join sep (y # ys)"

fun str_contains :: "string \<Rightarrow> string \<Rightarrow> bool" where
  "str_contains [] p = (p = [])"
| "str_contains (c # s) p = (starts_with (c # s) p \<or> str_contains s p)"

lemma starts_with_iff: "starts_with s p \<longleftrightarrow> (\<exists>t. s = p @ t)"
  unfolding starts_with_def by (metis append_eq_conv_conj append_take_drop_id)

lemma starts_with_append [simp]: "starts_with (p @ t) p"
  by (simp add: starts_with_def)

lemma strip_prefix_some_iff: "strip_prefix s p = Some t \<longleftrightarrow> s = p @ t"
  by (auto simp: strip_prefix_def starts_with_iff)

lemma strip_prefix_none_iff: "strip_prefix s p = None \<longleftrightarrow> \<not> starts_with s p"
  by (simp add: strip_prefix_def)

lemma of_char_u8_inject: "(of_char c :: u8) = of_char d \<longleftrightarrow> c = d"
proof -
  have "unat (of_char e :: u8) = of_char e" for e
  proof -
    have "unat (of_nat (of_char e) :: u8) = of_char e mod 2 ^ 8"
      by (simp add: unsigned_of_nat take_bit_eq_mod)
    then show ?thesis by (simp add: of_nat_of_char)
  qed
  then show ?thesis by (metis of_char_eqI)
qed

lemma as_bytes_inject [simp]: "as_bytes s = as_bytes t \<longleftrightarrow> s = t"
  by (simp add: as_bytes_def inj_map_eq_map inj_def of_char_u8_inject)

lemma length_as_bytes [simp]: "length (as_bytes s) = length s"
  by (simp add: as_bytes_def)

section \<open>The concurrent map\<close>

text \<open>
  A \<open>DashMap\<close> is a partial map. Its iteration order is not specified, so an operation that
  iterates takes the order as an argument, a list of keys that \<open>iterates\<close> the map.
\<close>

type_synonym ('k, 'v) dashmap = "'k \<rightharpoonup> 'v"

definition iterates :: "'k list \<Rightarrow> ('k, 'v) dashmap \<Rightarrow> bool" where
  "iterates ks m \<longleftrightarrow> distinct ks \<and> set ks = dom m"

text \<open>\<open>entry(k).or_insert(v)\<close>, then the value the entry holds.\<close>

definition entry_or :: "('k, 'v) dashmap \<Rightarrow> 'k \<Rightarrow> 'v \<Rightarrow> 'v" where
  "entry_or m k v = (case m k of Some x \<Rightarrow> x | None \<Rightarrow> v)"

text \<open>Keeping the entries that satisfy a predicate: \<open>retain\<close>, and the loops that collect the keys
  to drop and then remove them one by one.\<close>

definition retain :: "('k \<Rightarrow> 'v \<Rightarrow> bool) \<Rightarrow> ('k, 'v) dashmap \<Rightarrow> ('k, 'v) dashmap" where
  "retain P m = (\<lambda>k. case m k of None \<Rightarrow> None | Some v \<Rightarrow> if P k v then Some v else None)"

fun remove_keys :: "'k list \<Rightarrow> ('k, 'v) dashmap \<Rightarrow> ('k, 'v) dashmap" where
  "remove_keys [] m = m"
| "remove_keys (k # ks) m = remove_keys ks (m(k := None))"

text \<open>\<open>iter().filter(..).map(key).collect()\<close> and \<open>iter().map(..).collect()\<close> in an order \<open>ks\<close>.\<close>

definition filter_keys :: "'k list \<Rightarrow> ('k \<Rightarrow> 'v \<Rightarrow> bool) \<Rightarrow> ('k, 'v) dashmap \<Rightarrow> 'k list" where
  "filter_keys ks P m = filter (\<lambda>k. case m k of None \<Rightarrow> False | Some v \<Rightarrow> P k v) ks"

fun collect :: "'k list \<Rightarrow> ('k \<Rightarrow> 'v \<Rightarrow> 'a) \<Rightarrow> ('k, 'v) dashmap \<Rightarrow> 'a list" where
  "collect [] f m = []"
| "collect (k # ks) f m = (case m k of None \<Rightarrow> collect ks f m | Some v \<Rightarrow> f k v # collect ks f m)"

lemma iterates_distinct: "iterates ks m \<Longrightarrow> distinct ks"
  by (simp add: iterates_def)

lemma iterates_set: "iterates ks m \<Longrightarrow> set ks = dom m"
  by (simp add: iterates_def)

lemma iterates_finite: "iterates ks m \<Longrightarrow> finite (dom m)"
  by (metis iterates_def List.finite_set)

lemma iterates_exists: "finite (dom m) \<Longrightarrow> \<exists>ks. iterates ks m"
  by (metis finite_distinct_list iterates_def)

lemma entry_or_some [simp]: "m k = Some x \<Longrightarrow> entry_or m k v = x"
  by (simp add: entry_or_def)

lemma entry_or_none [simp]: "m k = None \<Longrightarrow> entry_or m k v = v"
  by (simp add: entry_or_def)

lemma retain_some_iff [simp]: "retain P m k = Some v \<longleftrightarrow> m k = Some v \<and> P k v"
  by (auto simp: retain_def split: option.splits)

lemma retain_none_iff: "retain P m k = None \<longleftrightarrow> (\<forall>v. m k = Some v \<longrightarrow> \<not> P k v)"
  by (auto simp: retain_def split: option.splits)

lemma dom_retain_subset: "dom (retain P m) \<subseteq> dom m"
  by auto

lemma remove_keys_apply: "remove_keys ks m k = (if k \<in> set ks then None else m k)"
  by (induction ks arbitrary: m) auto

lemma set_filter_keys:
  "iterates ks m \<Longrightarrow> k \<in> set (filter_keys ks P m) \<longleftrightarrow> (\<exists>v. m k = Some v \<and> P k v)"
  by (auto simp: filter_keys_def iterates_def dom_def split: option.splits)

text \<open>Collecting the keys of the stale entries and removing them is keeping the others, whatever
  the iteration order.\<close>

lemma remove_filtered_keys:
  assumes "iterates ks m"
  shows "remove_keys (filter_keys ks P m) m = retain (\<lambda>k v. \<not> P k v) m"
proof
  fix k
  show "remove_keys (filter_keys ks P m) m k = retain (\<lambda>k v. \<not> P k v) m k"
    using set_filter_keys [OF assms, of k P]
    by (cases "m k") (auto simp: remove_keys_apply retain_def)
qed

lemma collect_eq_map:
  "set ks \<subseteq> dom m \<Longrightarrow> collect ks f m = map (\<lambda>k. f k (the (m k))) ks"
  by (induction ks) (auto split: option.splits)

lemma set_collect: "set (collect ks f m) = {f k v | k v. k \<in> set ks \<and> m k = Some v}"
  by (induction ks) (auto split: option.splits)

lemma length_collect: "iterates ks m \<Longrightarrow> length (collect ks f m) = card (dom m)"
  by (simp add: iterates_def collect_eq_map) (metis distinct_card)

section \<open>Maps swept by age\<close>

text \<open>
  Conversations, correlations, agents and offline endpoints are all swept the same way: a
  background task drops the entries that are stale at the time it runs. The contract of such a
  sweep, and what follows from it for every component that has one.
\<close>

locale swept_map =
  fixes sweep :: "datetime \<Rightarrow> 's \<Rightarrow> 's"
    and entries :: "'s \<Rightarrow> ('k, 'v) dashmap"
    and stale :: "datetime \<Rightarrow> 'v \<Rightarrow> bool"
  assumes entries_sweep: "entries (sweep now s) = retain (\<lambda>_ v. \<not> stale now v) (entries s)"
    and stale_mono: "now \<le> now' \<Longrightarrow> stale now v \<Longrightarrow> stale now' v"
begin

lemma kept_iff: "entries (sweep now s) k = Some v \<longleftrightarrow> entries s k = Some v \<and> \<not> stale now v"
  by (simp add: entries_sweep)

lemma sweep_fresh: "\<forall>v \<in> ran (entries (sweep now s)). \<not> stale now v"
  by (auto simp: ran_def kept_iff)

lemma sweep_idem: "entries (sweep now (sweep now s)) = entries (sweep now s)"
  by (rule ext) (auto simp: entries_sweep retain_def split: option.splits)

lemma sweep_absorb:
  "now \<le> now' \<Longrightarrow> entries (sweep now' (sweep now s)) = entries (sweep now' s)"
  by (rule ext) (auto simp: entries_sweep retain_def stale_mono split: option.splits)

lemma sweep_dom: "dom (entries (sweep now s)) \<subseteq> dom (entries s)"
  by (auto simp: kept_iff)

end

section \<open>Keyed machines\<close>

text \<open>
  The circuit breaker, the rate limiter and the message queues are each one map of independent
  machines: an operation names a key, and touches that key's entry only. \<open>run_keyed\<close> runs a
  sequence of operations on the whole component, \<open>run_local\<close> runs the operations of one key on
  that key's machine, \<open>for_key\<close> picks them out of the sequence. The contract of \<open>keyed_machine\<close>
  says that the component is its machines side by side; its consequence, proved once here, is that
  any interleaving looks to each key as if the others were not there.
\<close>

fun run_keyed :: "('g \<Rightarrow> 'k \<Rightarrow> 'e \<Rightarrow> 'g \<times> 'r) \<Rightarrow> 'g \<Rightarrow> ('k \<times> 'e) list \<Rightarrow> 'g \<times> ('k \<times> 'r) list" where
  "run_keyed act g [] = (g, [])"
| "run_keyed act g ((k, e) # evs) =
     (let (g', r) = act g k e; (g'', rs) = run_keyed act g' evs in (g'', (k, r) # rs))"

fun run_local :: "('l \<Rightarrow> 'e \<Rightarrow> 'l \<times> 'r) \<Rightarrow> 'l \<Rightarrow> 'e list \<Rightarrow> 'l \<times> 'r list" where
  "run_local step l [] = (l, [])"
| "run_local step l (e # es) =
     (let (l', r) = step l e; (l'', rs) = run_local step l' es in (l'', r # rs))"

definition for_key :: "'k \<Rightarrow> ('k \<times> 'a) list \<Rightarrow> 'a list" where
  "for_key k xs = map snd (filter (\<lambda>x. fst x = k) xs)"

lemma for_key_nil [simp]: "for_key k [] = []"
  by (simp add: for_key_def)

lemma for_key_cons [simp]:
  "for_key k ((k', x) # xs) = (if k' = k then x # for_key k xs else for_key k xs)"
  by (simp add: for_key_def)

lemma for_key_map_pair [simp]: "for_key k (map (\<lambda>x. (k, f x)) xs) = map f xs"
  by (induction xs) auto

lemma run_local_append:
  "run_local step l (xs @ ys) =
     (let (l', rs) = run_local step l xs; (l'', rs') = run_local step l' ys in (l'', rs @ rs'))"
  by (induction xs arbitrary: l) (auto split: prod.splits)

lemma run_local_length: "length (snd (run_local step l xs)) = length xs"
  by (induction xs arbitrary: l) (auto simp: Let_def split: prod.splits, metis snd_conv)

lemma run_local_invariant:
  assumes "\<And>l e. P l \<Longrightarrow> P (fst (step l e))" and "P l"
  shows "P (fst (run_local step l es))"
  using assms(2)
proof (induction es arbitrary: l)
  case (Cons e es)
  then have "P (fst (run_local step (fst (step l e)) es))" by (simp add: assms(1))
  then show ?case by (simp add: split_beta Let_def)
qed simp

locale keyed_machine =
  fixes act :: "'g \<Rightarrow> 'k \<Rightarrow> 'e \<Rightarrow> 'g \<times> 'r"
    and config :: "'g \<Rightarrow> 'c"
    and entry :: "'g \<Rightarrow> 'k \<Rightarrow> 'l"
    and step :: "'c \<Rightarrow> 'l \<Rightarrow> 'e \<Rightarrow> 'l \<times> 'r"
  assumes config_act: "config (fst (act g k e)) = config g"
    and entry_act: "entry (fst (act g k e)) k = fst (step (config g) (entry g k) e)"
    and result_act: "snd (act g k e) = snd (step (config g) (entry g k) e)"
    and entry_other: "k' \<noteq> k \<Longrightarrow> entry (fst (act g k e)) k' = entry g k'"
begin

lemma run_config: "config (fst (run_keyed act g evs)) = config g"
proof (induction evs arbitrary: g)
  case (Cons x evs)
  obtain k e where "x = (k, e)" by force
  then show ?case using Cons.IH [of "fst (act g k e)"]
    by (simp add: split_beta Let_def config_act)
qed simp

lemma run_project:
  "entry (fst (run_keyed act g evs)) k
     = fst (run_local (step (config g)) (entry g k) (for_key k evs)) \<and>
   for_key k (snd (run_keyed act g evs))
     = snd (run_local (step (config g)) (entry g k) (for_key k evs))"
proof (induction evs arbitrary: g)
  case (Cons x evs)
  obtain k' e where x: "x = (k', e)" by force
  let ?g = "fst (act g k' e)"
  have "entry ?g k = (if k' = k then fst (step (config g) (entry g k) e) else entry g k)"
    by (simp add: entry_act entry_other)
  then show ?case using Cons.IH [of ?g]
    by (cases "k' = k") (simp_all add: x split_beta Let_def config_act result_act)
qed simp

lemma run_unaffected:
  "for_key k evs = [] \<Longrightarrow> entry (fst (run_keyed act g evs)) k = entry g k"
  by (simp add: run_project)

lemma run_same_view:
  "for_key k evs = for_key k evs' \<Longrightarrow>
     for_key k (snd (run_keyed act g evs)) = for_key k (snd (run_keyed act g evs'))"
  by (simp add: run_project)

end

lemma nth_third [simp]: "(x # y # z # zs) ! 2 = z"
  by (simp add: numeral_2_eq_2)

section \<open>Sorting by a key\<close>

lemma insort_key_map: "insort_key f (g x) (map g xs) = map g (insort_key (\<lambda>x. f (g x)) x xs)"
  by (induction xs) auto

lemma sort_key_map: "sort_key f (map g xs) = map g (sort_key (\<lambda>x. f (g x)) xs)"
  by (induction xs) (simp_all add: insort_key_map)

lemma insort_key_cong:
  "(\<And>y. y \<in> set xs \<Longrightarrow> f a \<le> f y \<longleftrightarrow> g a \<le> g y) \<Longrightarrow> insort_key f a xs = insort_key g a xs"
  by (induction xs) auto

lemma sort_key_cong:
  "(\<And>x y. x \<in> set xs \<Longrightarrow> y \<in> set xs \<Longrightarrow> f x \<le> f y \<longleftrightarrow> g x \<le> g y) \<Longrightarrow> sort_key f xs = sort_key g xs"
proof (induction xs)
  case (Cons x xs)
  then have "sort_key f xs = sort_key g xs" by simp
  moreover have "insort_key f x (sort_key g xs) = insort_key g x (sort_key g xs)"
    using Cons.prems by (intro insort_key_cong) auto
  ultimately show ?case by simp
qed simp

section \<open>Results\<close>

text \<open>\<open>anyhow::Result\<close>: \<open>Inl\<close> the error, \<open>Inr\<close> the value.\<close>

type_synonym 'a result = "string + 'a"

fun is_ok :: "'e + 'a \<Rightarrow> bool" where
  "is_ok (Inl e) = False"
| "is_ok (Inr x) = True"

end
