(* ===== verification/Message.thy ===== *)
theory Message
  imports Prelude
begin

text \<open>
  The data the hub moves around: JSON values (\<open>serde_json::Value\<close>), the message envelope and its
  builders, responses, capability manifests and feedback events of \<open>src/message.rs\<close>, and the wire
  operations of \<open>src/net/protocol.rs\<close>. A \<open>Uuid\<close> is a 128-bit word; fresh identifiers and the clock
  come from the environment and are arguments. Floating-point fields that are only carried are
  real numbers.
\<close>

section \<open>JSON\<close>

datatype json_number = NInt int | NFloat real

datatype json =
  JNull
| JBool bool
| JNumber json_number
| JString string
| JArray "json list"
| JObject "(string \<times> json) list"

fun json_get :: "json \<Rightarrow> string \<Rightarrow> json option" where
  "json_get (JObject kvs) k = map_of kvs k"
| "json_get _ k = None"

fun json_as_str :: "json \<Rightarrow> string option" where
  "json_as_str (JString s) = Some s"
| "json_as_str _ = None"

section \<open>Messages\<close>

type_synonym uuid = "128 word"

text \<open>The hyphenated form of a \<open>Uuid\<close>: 32 lower-case hexadecimal digits in groups of 8, 4, 4, 4 and 12.\<close>

definition hex_digit :: "nat \<Rightarrow> char" where
  "hex_digit d = (if d < 10 then char_of (48 + d) else char_of (87 + d))"

fun show_hex :: "nat \<Rightarrow> nat \<Rightarrow> string" where
  "show_hex 0 n = []"
| "show_hex (Suc k) n = show_hex k (n div 16) @ [hex_digit (n mod 16)]"

definition show_uuid :: "uuid \<Rightarrow> string" where
  "show_uuid u =
     (let n = unat u in
        show_hex 8 (n div 2 ^ 96) @ ''-'' @ show_hex 4 (n div 2 ^ 80) @ ''-'' @
        show_hex 4 (n div 2 ^ 64) @ ''-'' @ show_hex 4 (n div 2 ^ 48) @ ''-'' @ show_hex 12 n)"

record quantum_metadata =
  qd_amplitudes :: "string \<rightharpoonup> real"
  qd_collapsed_to :: "string option"
  qd_entangled :: bool
  qd_entanglement_id :: "uuid option"

record message =
  m_id :: uuid
  m_parent_id :: "uuid option"
  m_conversation_id :: uuid
  m_timestamp :: datetime
  m_sender :: string
  m_sender_ns :: string
  m_path :: string
  m_msg_type :: string
  m_data :: json
  m_headers :: "string \<rightharpoonup> string"
  m_quantum :: "quantum_metadata option"

definition message_new :: "uuid \<Rightarrow> uuid \<Rightarrow> datetime \<Rightarrow> string \<Rightarrow> string \<Rightarrow> string \<Rightarrow> message" where
  "message_new new_id new_conversation now sender path msg_type =
     \<lparr>m_id = new_id, m_parent_id = None, m_conversation_id = new_conversation, m_timestamp = now,
      m_sender = sender, m_sender_ns = ''/net/unknown'', m_path = path, m_msg_type = msg_type,
      m_data = JNull, m_headers = Map.empty, m_quantum = None\<rparr>"

definition with_conversation :: "message \<Rightarrow> uuid \<Rightarrow> message" where
  "with_conversation m cid = m\<lparr>m_conversation_id := cid\<rparr>"

definition with_parent :: "message \<Rightarrow> uuid \<Rightarrow> message" where
  "with_parent m pid = m\<lparr>m_parent_id := Some pid\<rparr>"

text \<open>\<open>serde_json::to_value\<close> of the payload is done by the caller; a failure leaves \<open>Null\<close>.\<close>

definition with_data :: "message \<Rightarrow> json option \<Rightarrow> message" where
  "with_data m data = m\<lparr>m_data := (case data of Some j \<Rightarrow> j | None \<Rightarrow> JNull)\<rparr>"

definition with_header :: "message \<Rightarrow> string \<Rightarrow> string \<Rightarrow> message" where
  "with_header m key val = m\<lparr>m_headers := (m_headers m)(key \<mapsto> val)\<rparr>"

definition with_quantum :: "message \<Rightarrow> quantum_metadata \<Rightarrow> message" where
  "with_quantum m q = m\<lparr>m_quantum := Some q\<rparr>"

datatype dispatch_status = Routed | Queued | Dropped | DispatchError

record message_response =
  mr_message_id :: uuid
  mr_status :: dispatch_status
  mr_routed_to :: "string list"
  mr_explanation :: "string option"
  mr_latency_ms :: u64

record capability =
  cap_name :: string
  cap_version :: string
  cap_paths :: "string list"
  cap_metadata :: "string \<rightharpoonup> json"

record capability_manifest =
  man_agent_id :: string
  man_hostname :: string
  man_capabilities :: "capability list"
  man_preferred_namespace :: "string option"

record feedback_event =
  fe_message_id :: uuid
  fe_endpoint_id :: string
  fe_success :: bool
  fe_latency_ms :: u64
  fe_quality_score :: "real option"
  fe_error_kind :: "string option"
  fe_metadata :: "json option"

section \<open>Wire operations\<close>

datatype protocol_op =
  Hello capability_manifest
| Heartbeat
| OpMessage message
| OpResponse message_response
| OpFeedback feedback_event
| FsRead string
| FsWrite string "u8 list"
| FsResult string "u8 list option" "string option"
| Ack uuid
| Nak uuid "string option"
| OpError string string

section \<open>The builders\<close>

text \<open>Each builder sets the field it is named for and leaves the identity of the message alone.\<close>

lemma builders_keep_id [simp]:
  "m_id (with_conversation m c) = m_id m"
  "m_id (with_parent m p) = m_id m"
  "m_id (with_data m d) = m_id m"
  "m_id (with_header m k v) = m_id m"
  "m_id (with_quantum m q) = m_id m"
  by (simp_all add: with_conversation_def with_parent_def with_data_def with_header_def
      with_quantum_def)

lemma with_header_get: "m_headers (with_header m k v) k' = (if k' = k then Some v else m_headers m k')"
  by (simp add: with_header_def)

lemma with_header_commute:
  "k \<noteq> k' \<Longrightarrow> with_header (with_header m k v) k' v' = with_header (with_header m k' v') k v"
  by (simp add: with_header_def fun_upd_twist)

section \<open>Identifiers as text\<close>

lemma hex_digit_inject: "d < 16 \<Longrightarrow> e < 16 \<Longrightarrow> hex_digit d = hex_digit e \<Longrightarrow> d = e"
  unfolding hex_digit_def
  by (drule arg_cong [of _ _ "of_char :: char \<Rightarrow> nat"]) (auto split: if_splits)

lemma show_hex_length [simp]: "length (show_hex k n) = k"
  by (induction k arbitrary: n) auto

lemma show_hex_inject: "show_hex k m = show_hex k n \<Longrightarrow> m mod 16 ^ k = n mod 16 ^ k"
proof (induction k arbitrary: m n)
  case (Suc k)
  have "show_hex k (m div 16) = show_hex k (n div 16)" and "m mod 16 = n mod 16"
    using Suc.prems by (auto intro: hex_digit_inject)
  then have "(m div 16) mod 16 ^ k = (n div 16) mod 16 ^ k" and "m mod 16 = n mod 16"
    using Suc.IH by blast+
  then show ?case by (simp add: mod_mult2_eq)
qed simp

lemma div_mod_step: "m div (b * c) = n div (b * c) \<Longrightarrow> (m div b) mod c = (n div b) mod c \<Longrightarrow> m div b = n div (b :: nat)"
  by (metis div_mult2_eq mod_div_decomp)

lemma show_uuid_inject [simp]: "show_uuid u = show_uuid v \<longleftrightarrow> u = v"
proof
  assume "show_uuid u = show_uuid v"
  then have h: "show_hex 8 (unat u div 2 ^ 96) = show_hex 8 (unat v div 2 ^ 96)"
      "show_hex 4 (unat u div 2 ^ 80) = show_hex 4 (unat v div 2 ^ 80)"
      "show_hex 4 (unat u div 2 ^ 64) = show_hex 4 (unat v div 2 ^ 64)"
      "show_hex 4 (unat u div 2 ^ 48) = show_hex 4 (unat v div 2 ^ 48)"
      "show_hex 12 (unat u) = show_hex 12 (unat v)"
    unfolding show_uuid_def Let_def by (auto simp del: show_hex.simps)
  have bound: "unat (w :: uuid) div 2 ^ 96 < 16 ^ 8" for w
    by (rule less_mult_imp_div_less) (use unsigned_less [of w, where ?'a = nat] in simp)
  have "unat u div 2 ^ 96 = unat v div 2 ^ 96"
    using show_hex_inject [OF h(1)] bound [of u] bound [of v] by simp
  note e = this
  have p: "(2 :: nat) ^ 80 * 16 ^ 4 = 2 ^ 96" "(2 :: nat) ^ 64 * 16 ^ 4 = 2 ^ 80"
    "(2 :: nat) ^ 48 * 16 ^ 4 = 2 ^ 64" "(1 :: nat) * 16 ^ 12 = 2 ^ 48" by simp_all
  note s = div_mod_step [where m = "unat u" and n = "unat v"]
  note e = s [where b = "2 ^ 80" and c = "16 ^ 4", unfolded p, OF e show_hex_inject [OF h(2)]]
  note e = s [where b = "2 ^ 64" and c = "16 ^ 4", unfolded p, OF e show_hex_inject [OF h(3)]]
  note e = s [where b = "2 ^ 48" and c = "16 ^ 4", unfolded p, OF e show_hex_inject [OF h(4)]]
  note e = s [where b = 1 and c = "16 ^ 12", unfolded p div_by_1, OF e show_hex_inject [OF h(5)]]
  then show "u = v" by (rule unsigned_word_eqI)
qed simp

end
