(* ===== verification/Agents.thy ===== *)
theory Agents
  imports Message
begin

text \<open>
  The registry of connected agents, \<open>src/agent.rs\<close>, and the background task of \<open>src/daemon.rs\<close> that
  drops agents whose heartbeat is stale. The sending half of an agent's channel is the identifier
  of the channel; two senders belong to the same channel when the identifiers are equal.
\<close>

section \<open>State and operations\<close>

type_synonym chan_id = nat

record agent =
  ag_id :: string
  ag_uuid :: uuid
  ag_hostname :: string
  ag_namespace :: string
  ag_manifest :: capability_manifest
  ag_connected_at :: datetime
  ag_last_heartbeat :: datetime
  ag_tx :: "chan_id option"

type_synonym agent_registry = "(string, agent) dashmap"

definition agents_new :: agent_registry where
  "agents_new = Map.empty"

definition agents_register :: "agent_registry \<Rightarrow> agent \<Rightarrow> agent_registry" where
  "agents_register reg a = reg(ag_id a \<mapsto> a)"

definition agents_unregister :: "agent_registry \<Rightarrow> string \<Rightarrow> agent_registry \<times> agent option" where
  "agents_unregister reg agent_id = (reg(agent_id := None), reg agent_id)"

definition agents_get :: "agent_registry \<Rightarrow> string \<Rightarrow> agent option" where
  "agents_get reg agent_id = reg agent_id"

definition agents_heartbeat :: "agent_registry \<Rightarrow> datetime \<Rightarrow> string \<Rightarrow> agent_registry" where
  "agents_heartbeat reg now agent_id =
     (case reg agent_id of
        Some a \<Rightarrow> reg(agent_id \<mapsto> a\<lparr>ag_last_heartbeat := now\<rparr>)
      | None \<Rightarrow> reg)"

definition agents_list :: "string list \<Rightarrow> agent_registry \<Rightarrow> agent list" where
  "agents_list ks reg = collect ks (\<lambda>_ a. a) reg"

definition agents_len :: "agent_registry \<Rightarrow> nat" where
  "agents_len reg = card (dom reg)"

definition agents_is_empty :: "agent_registry \<Rightarrow> bool" where
  "agents_is_empty reg \<longleftrightarrow> dom reg = {}"

definition agent_stale :: "int \<Rightarrow> datetime \<Rightarrow> agent \<Rightarrow> bool" where
  "agent_stale threshold_secs now a \<longleftrightarrow> num_seconds (now - ag_last_heartbeat a) > threshold_secs"

definition stale_agents :: "string list \<Rightarrow> datetime \<Rightarrow> int \<Rightarrow> agent_registry \<Rightarrow> string list" where
  "stale_agents ks now threshold_secs reg =
     filter_keys ks (\<lambda>_ a. agent_stale threshold_secs now a) reg"

text \<open>One tick of the cleanup task: collect the stale identifiers, then unregister each.\<close>

fun unregister_all :: "string list \<Rightarrow> agent_registry \<Rightarrow> agent_registry" where
  "unregister_all [] reg = reg"
| "unregister_all (i # ids) reg = unregister_all ids (fst (agents_unregister reg i))"

definition agents_cleanup :: "string list \<Rightarrow> int \<Rightarrow> datetime \<Rightarrow> agent_registry \<Rightarrow> agent_registry" where
  "agents_cleanup ks threshold_secs now reg =
     unregister_all (stale_agents ks now threshold_secs reg) reg"

section \<open>The registry as a map\<close>

lemma unregister_all_eq: "unregister_all ids reg = remove_keys ids reg"
  by (induction ids arbitrary: reg) (auto simp: agents_unregister_def)

lemma agents_cleanup_retain:
  "iterates ks reg \<Longrightarrow>
     agents_cleanup ks thr now reg = retain (\<lambda>_ a. \<not> agent_stale thr now a) reg"
  by (simp add: agents_cleanup_def unregister_all_eq stale_agents_def remove_filtered_keys)

lemma agent_stale_mono: "now \<le> now' \<Longrightarrow> agent_stale thr now a \<Longrightarrow> agent_stale thr now' a"
  unfolding agent_stale_def
  by (meson diff_right_mono num_seconds_mono order_less_le_trans)

definition agents_sweep :: "int \<Rightarrow> datetime \<Rightarrow> agent_registry \<Rightarrow> agent_registry" where
  "agents_sweep thr now reg = retain (\<lambda>_ a. \<not> agent_stale thr now a) reg"

interpretation agents: swept_map "agents_sweep thr" "\<lambda>reg. reg" "agent_stale thr" for thr
  by unfold_locales (auto simp: agents_sweep_def agent_stale_mono)

text \<open>Every registered agent is stored under its own identifier.\<close>

definition registry_keyed :: "agent_registry \<Rightarrow> bool" where
  "registry_keyed reg \<longleftrightarrow> (\<forall>k a. reg k = Some a \<longrightarrow> ag_id a = k)"

lemma registry_keyed_ops:
  "registry_keyed agents_new"
  "registry_keyed reg \<Longrightarrow> registry_keyed (agents_register reg a)"
  "registry_keyed reg \<Longrightarrow> registry_keyed (fst (agents_unregister reg i))"
  "registry_keyed reg \<Longrightarrow> registry_keyed (agents_heartbeat reg now i)"
  "registry_keyed reg \<Longrightarrow> registry_keyed (agents_sweep thr now reg)"
  by (auto simp: registry_keyed_def agents_new_def agents_register_def agents_unregister_def
      agents_heartbeat_def agents_sweep_def split: option.splits)

lemma agents_list_complete: "iterates ks reg \<Longrightarrow> set (agents_list ks reg) = ran reg"
  by (auto simp: agents_list_def set_collect iterates_def ran_def dom_def)

lemma agents_len_list: "iterates ks reg \<Longrightarrow> length (agents_list ks reg) = agents_len reg"
  by (simp add: agents_list_def agents_len_def length_collect)

section \<open>Liveness of agents\<close>

text \<open>
  C10. The cleanup task drops exactly the stale agents, in whatever order it meets them: an agent
  survives a tick if and only if its last heartbeat is at most the threshold old. In particular an
  agent that has just sent a heartbeat survives every tick of the next \<open>threshold_secs\<close> seconds.
\<close>

theorem agents_cleanup_exact:
  assumes "iterates ks reg" and "iterates ks' (agents_heartbeat reg h i)" and "reg i = Some a"
    and "now \<le> h + thr * 1000000000" and "0 \<le> thr"
  shows "(\<forall>j b. agents_cleanup ks thr now reg j = Some b \<longleftrightarrow>
      reg j = Some b \<and> num_seconds (now - ag_last_heartbeat b) \<le> thr) \<and>
    agents_cleanup ks' thr now (agents_heartbeat reg h i) i = Some (a\<lparr>ag_last_heartbeat := h\<rparr>)"
proof -
  have "num_seconds (now - h) \<le> num_seconds (thr * 1000000000)"
    using assms(4) by (intro num_seconds_mono) simp
  also have "\<dots> = thr" using assms(5) by (simp add: num_seconds_def)
  finally have "\<not> agent_stale thr now (a\<lparr>ag_last_heartbeat := h\<rparr>)"
    by (simp add: agent_stale_def)
  moreover have "agents_heartbeat reg h i i = Some (a\<lparr>ag_last_heartbeat := h\<rparr>)"
    by (simp add: agents_heartbeat_def assms(3))
  ultimately show ?thesis
    using assms(1,2) by (simp add: agents_cleanup_retain) (auto simp: agent_stale_def not_less)
qed

definition sample_agent :: "string \<Rightarrow> datetime \<Rightarrow> agent" where
  "sample_agent i t =
     \<lparr>ag_id = i, ag_uuid = 7, ag_hostname = ''box'', ag_namespace = ''/net/'' @ i,
      ag_manifest = \<lparr>man_agent_id = i, man_hostname = ''box'', man_capabilities = [],
        man_preferred_namespace = None\<rparr>,
      ag_connected_at = t, ag_last_heartbeat = t, ag_tx = None\<rparr>"

theorem agents_cleanup_exact_witness:
  "agents_cleanup [''a'', ''b''] 120 (200 * 1000000000)
     (agents_heartbeat [''a'' \<mapsto> sample_agent ''a'' 0, ''b'' \<mapsto> sample_agent ''b'' 0]
        (100 * 1000000000) ''a'') ''a''
   = Some (sample_agent ''a'' 0\<lparr>ag_last_heartbeat := 100 * 1000000000\<rparr>)"
proof -
  let ?reg = "[''a'' \<mapsto> sample_agent ''a'' 0, ''b'' \<mapsto> sample_agent ''b'' 0]"
  have "iterates [''a'', ''b''] ?reg"
    and "iterates [''a'', ''b''] (agents_heartbeat ?reg (100 * 1000000000) ''a'')"
    by (auto simp: iterates_def agents_heartbeat_def)
  from agents_cleanup_exact [OF this, of "sample_agent ''a'' 0" "200 * 1000000000" 120]
  show ?thesis by simp
qed

end
