(* ===== verification/MsgQueue.thy ===== *)
theory MsgQueue
  imports Agents "HOL-Library.Sublist"
begin

text \<open>
  The store-and-forward queues of \<open>src/queue.rs\<close>: one FIFO per agent that is not connected. Each
  operation is given as the atomic steps it makes under the lock of one map entry, because the
  hub's tasks interleave between those steps: \<open>drain_to\<close> is a drain followed, when the queue came out
  empty, by a removal that checks again; \<open>prune_old\<close> filters each queue, collects the names of the
  empty ones and then removes those names. Whether a send on the agent's channel succeeds is decided
  by the receiver, a parameter \<open>ok\<close>: the answer to the \<open>n\<close>-th send of the drain.
\<close>

section \<open>State and operations\<close>

record queued_message =
  qm_msg :: message
  qm_enqueued_at :: datetime
  qm_retries :: u32

type_synonym message_queue = "(string, queued_message list) dashmap"

definition queue_new :: message_queue where
  "queue_new = Map.empty"

definition enqueue :: "message_queue \<Rightarrow> datetime \<Rightarrow> string \<Rightarrow> message \<Rightarrow> message_queue" where
  "enqueue mq now agent_id msg =
     (let qm = \<lparr>qm_msg = msg, qm_enqueued_at = now, qm_retries = 0\<rparr>
      in mq(agent_id \<mapsto> entry_or mq agent_id [] @ [qm]))"

text \<open>The \<open>while let Some(qm) = entry.pop_front()\<close> loop: what was sent, what is left in the queue and
  how many were delivered. A failed send puts the message back in front and stops.\<close>

fun drain_loop ::
    "(nat \<Rightarrow> bool) \<Rightarrow> nat \<Rightarrow> queued_message list \<Rightarrow> protocol_op list \<times> queued_message list \<times> nat" where
  "drain_loop ok delivered [] = ([], [], delivered)"
| "drain_loop ok delivered (qm # entry) =
     (if ok delivered
      then let (sent, rest, d) = drain_loop ok (delivered + 1) entry
           in (OpMessage (qm_msg qm) # sent, rest, d)
      else ([], qm # entry, delivered))"

definition drain_entry ::
    "message_queue \<Rightarrow> string \<Rightarrow> (nat \<Rightarrow> bool) \<Rightarrow> message_queue \<times> protocol_op list \<times> nat" where
  "drain_entry mq agent_id ok =
     (case mq agent_id of
        None \<Rightarrow> (mq, [], 0)
      | Some entry \<Rightarrow> let (sent, rest, d) = drain_loop ok 0 entry in (mq(agent_id \<mapsto> rest), sent, d))"

definition remove_if_empty :: "message_queue \<Rightarrow> string \<Rightarrow> message_queue" where
  "remove_if_empty mq agent_id =
     (if mq agent_id = Some [] then mq(agent_id := None) else mq)"

definition drain_to ::
    "message_queue \<Rightarrow> string \<Rightarrow> (nat \<Rightarrow> bool) \<Rightarrow> message_queue \<times> protocol_op list \<times> nat" where
  "drain_to mq agent_id ok =
     (let (mq', sent, d) = drain_entry mq agent_id ok
      in (if mq' agent_id = Some [] then remove_if_empty mq' agent_id else mq', sent, d))"

definition still_young :: "int \<Rightarrow> datetime \<Rightarrow> queued_message \<Rightarrow> bool" where
  "still_young max_age_secs now qm \<longleftrightarrow> num_seconds (now - qm_enqueued_at qm) < max_age_secs"

definition prune_entry :: "message_queue \<Rightarrow> int \<Rightarrow> datetime \<Rightarrow> string \<Rightarrow> message_queue" where
  "prune_entry mq max_age_secs now agent_id =
     (case mq agent_id of
        None \<Rightarrow> mq
      | Some entry \<Rightarrow> mq(agent_id \<mapsto> filter (still_young max_age_secs now) entry))"

fun prune_entries :: "string list \<Rightarrow> int \<Rightarrow> datetime \<Rightarrow> message_queue \<Rightarrow> message_queue" where
  "prune_entries [] max_age_secs now mq = mq"
| "prune_entries (k # ks) max_age_secs now mq =
     prune_entries ks max_age_secs now (prune_entry mq max_age_secs now k)"

definition empty_queues :: "string list \<Rightarrow> message_queue \<Rightarrow> string list" where
  "empty_queues ks mq = filter_keys ks (\<lambda>_ q. q = []) mq"

text \<open>\<open>ks\<close> is the order in which the map is iterated, both times.\<close>

definition prune_old :: "string list \<Rightarrow> int \<Rightarrow> datetime \<Rightarrow> message_queue \<Rightarrow> message_queue" where
  "prune_old ks max_age_secs now mq =
     (let mq' = prune_entries ks max_age_secs now mq
      in remove_keys (empty_queues ks mq') mq')"

definition queue_stats :: "string list \<Rightarrow> message_queue \<Rightarrow> (string \<times> nat) list" where
  "queue_stats ks mq = collect ks (\<lambda>k q. (k, length q)) mq"

section \<open>The queue of one agent\<close>

text \<open>The atomic steps on one agent's queue.\<close>

datatype queue_step =
    QEnqueue datetime message
  | QDrain "nat \<Rightarrow> bool"
  | QRemoveIfEmpty
  | QPrune int datetime

fun queue_act :: "message_queue \<Rightarrow> string \<Rightarrow> queue_step \<Rightarrow> message_queue \<times> protocol_op list" where
  "queue_act mq k (QEnqueue now msg) = (enqueue mq now k msg, [])"
| "queue_act mq k (QDrain ok) = (let (mq', sent, d) = drain_entry mq k ok in (mq', sent))"
| "queue_act mq k QRemoveIfEmpty = (remove_if_empty mq k, [])"
| "queue_act mq k (QPrune age now) = (prune_entry mq age now k, [])"

text \<open>A queue that is not stored and an empty stored queue hold the same messages.\<close>

definition queue_of :: "message_queue \<Rightarrow> string \<Rightarrow> queued_message list" where
  "queue_of mq k = entry_or mq k []"

fun fifo_step :: "queued_message list \<Rightarrow> queue_step \<Rightarrow> queued_message list \<times> protocol_op list" where
  "fifo_step q (QEnqueue now msg) =
     (q @ [\<lparr>qm_msg = msg, qm_enqueued_at = now, qm_retries = 0\<rparr>], [])"
| "fifo_step q (QDrain ok) = (let (sent, rest, d) = drain_loop ok 0 q in (rest, sent))"
| "fifo_step q QRemoveIfEmpty = (q, [])"
| "fifo_step q (QPrune age now) = (filter (still_young age now) q, [])"

lemma queue_of_new [simp]: "queue_of queue_new k = []"
  by (simp add: queue_of_def queue_new_def)

lemma queue_act_refines:
  "queue_of (fst (queue_act mq k e)) k' =
     (if k' = k then fst (fifo_step (queue_of mq k) e) else queue_of mq k')"
  "snd (queue_act mq k e) = snd (fifo_step (queue_of mq k) e)"
  by (cases e; cases "mq k"; auto simp: enqueue_def drain_entry_def remove_if_empty_def prune_entry_def
      queue_of_def entry_or_def Let_def split_beta)+

interpretation queue: keyed_machine queue_act "\<lambda>_. ()" queue_of "\<lambda>_. fifo_step"
  by unfold_locales (simp_all add: queue_act_refines)

text \<open>The frames the messages of a queue will be sent as.\<close>

definition queued_ops :: "queued_message list \<Rightarrow> protocol_op list" where
  "queued_ops q = map (\<lambda>qm. OpMessage (qm_msg qm)) q"

lemma queued_ops_simps [simp]:
  "queued_ops [] = []"
  "queued_ops (qm # q) = OpMessage (qm_msg qm) # queued_ops q"
  "queued_ops (q @ q') = queued_ops q @ queued_ops q'"
  "length (queued_ops q) = length q"
  by (simp_all add: queued_ops_def)

lemma subseq_queued_ops_filter: "subseq (queued_ops (filter P q)) (queued_ops q)"
  unfolding queued_ops_def by (intro subseq_map) simp

text \<open>The messages handed to the queue in a list of steps.\<close>

fun offered :: "queue_step list \<Rightarrow> message list" where
  "offered [] = []"
| "offered (QEnqueue now msg # es) = msg # offered es"
| "offered (e # es) = offered es"

fun is_prune :: "queue_step \<Rightarrow> bool" where
  "is_prune (QPrune age now) = True"
| "is_prune e = False"

lemma drain_loop_split:
  "drain_loop ok n q = (sent, rest, d) \<Longrightarrow>
     queued_ops q = sent @ queued_ops rest \<and> d = n + length sent"
  by (induction ok n q arbitrary: sent rest d rule: drain_loop.induct)
    (auto simp: Let_def split: prod.splits if_splits)

lemma drain_loop_all: "(\<And>n. ok n) \<Longrightarrow> drain_loop ok n q = (queued_ops q, [], n + length q)"
  by (induction ok n q rule: drain_loop.induct) (auto simp: Let_def)

lemma fifo_run:
  assumes "run_local fifo_step q es = (q', outs)"
  shows "subseq (concat outs @ queued_ops q')
      (queued_ops q @ map OpMessage (offered es)) \<and>
    ((\<forall>e \<in> set es. \<not> is_prune e) \<longrightarrow>
      concat outs @ queued_ops q' = queued_ops q @ map OpMessage (offered es))"
  using assms
proof (induction es arbitrary: q outs)
  case (Cons e es)
  let ?ops = queued_ops
  obtain q1 r where s: "fifo_step q e = (q1, r)" by force
  obtain outs' where t: "run_local fifo_step q1 es = (q', outs')" and o: "outs = r # outs'"
    using Cons.prems s by (auto simp: Let_def split: prod.splits)
  have step: "subseq (r @ ?ops q1) (?ops q @ map OpMessage (offered [e])) \<and>
      (\<not> is_prune e \<longrightarrow> r @ ?ops q1 = ?ops q @ map OpMessage (offered [e]))"
  proof (cases e)
    case (QDrain ok)
    then show ?thesis using s by (auto simp: Let_def split: prod.splits dest!: drain_loop_split)
  next
    case (QPrune age now)
    then show ?thesis using s by (auto intro: subseq_queued_ops_filter)
  qed (use s in auto)
  have off: "offered (e # es) = offered [e] @ offered es" by (cases e) auto
  have "subseq (r @ concat outs' @ ?ops q') (r @ ?ops q1 @ map OpMessage (offered es))"
    using Cons.IH [OF t] by (simp add: subseq_append')
  moreover have "subseq ((r @ ?ops q1) @ map OpMessage (offered es))
      ((?ops q @ map OpMessage (offered [e])) @ map OpMessage (offered es))"
    using step by (simp only: subseq_append)
  ultimately have "subseq (r @ concat outs' @ ?ops q') (?ops q @ map OpMessage (offered (e # es)))"
    unfolding off by (metis append.assoc map_append subseq_order.order_trans)
  moreover have "r @ concat outs' @ ?ops q' = ?ops q @ map OpMessage (offered (e # es))"
    if "\<forall>e \<in> set (e # es). \<not> is_prune e"
    using Cons.IH [OF t] step that unfolding off by (metis append.assoc list.set_intros map_append)
  ultimately show ?case by (simp add: o)
qed simp

section \<open>Properties\<close>

text \<open>
  C6. The queues lose, duplicate and reorder nothing. Take any interleaving of enqueues, drains with
  any failures of the channels, removals of empty queues and prunings, over any number of agents:
  the frames an agent has been sent, followed by what its queue still holds, are a subsequence of the
  messages queued for it, in the order they were queued; and without pruning they are exactly those.
\<close>

theorem queue_fifo:
  assumes "for_key a evs = es"
  shows "subseq (concat (for_key a (snd (run_keyed queue_act queue_new evs))) @
        queued_ops (queue_of (fst (run_keyed queue_act queue_new evs)) a))
      (map OpMessage (offered es)) \<and>
    ((\<forall>e \<in> set es. \<not> is_prune e) \<longrightarrow>
      concat (for_key a (snd (run_keyed queue_act queue_new evs))) @
        queued_ops (queue_of (fst (run_keyed queue_act queue_new evs)) a)
      = map OpMessage (offered es))"
  using queue.run_project [of queue_new evs a] assms
    fifo_run [of "[]" es "fst (run_local fifo_step [] es)" "snd (run_local fifo_step [] es)"]
  by simp

definition a_note :: "string \<Rightarrow> message" where
  "a_note s = message_new 1 2 0 s ''/inbox'' ''note''"

theorem queue_fifo_witness:
  "concat (for_key ''a'' (snd (run_keyed queue_act queue_new
      [(''a'', QEnqueue 0 (a_note ''x'')), (''b'', QEnqueue 1 (a_note ''z'')), (''a'', QEnqueue 2 (a_note ''y'')),
       (''a'', QDrain (\<lambda>n. n < 1))])))
   @ queued_ops (queue_of (fst (run_keyed queue_act queue_new
      [(''a'', QEnqueue 0 (a_note ''x'')), (''b'', QEnqueue 1 (a_note ''z'')), (''a'', QEnqueue 2 (a_note ''y'')),
       (''a'', QDrain (\<lambda>n. n < 1))])) ''a'')
   = [OpMessage (a_note ''x''), OpMessage (a_note ''y'')]"
proof -
  let ?evs = "[(''a'', QEnqueue 0 (a_note ''x'')), (''b'', QEnqueue 1 (a_note ''z'')),
    (''a'', QEnqueue 2 (a_note ''y'')), (''a'', QDrain (\<lambda>n. n < 1))]"
  let ?es = "[QEnqueue 0 (a_note ''x''), QEnqueue 2 (a_note ''y''), QDrain (\<lambda>n. n < 1)]"
  have "for_key ''a'' ?evs = ?es" by simp
  from conjunct2 [OF queue_fifo [OF this]] show ?thesis
    by (simp del: run_keyed.simps)
qed

text \<open>Pruning the queues one after the other.\<close>

lemma prune_entries_apply:
  "distinct ks \<Longrightarrow> prune_entries ks age now mq k =
     (if k \<in> set ks then map_option (filter (still_young age now)) (mq k) else mq k)"
  by (induction ks arbitrary: mq) (auto simp: prune_entry_def split: option.splits)

lemma prune_old_apply:
  assumes "iterates ks mq"
  shows "prune_old ks age now mq k =
    (case mq k of
       None \<Rightarrow> None
     | Some q \<Rightarrow> if filter (still_young age now) q = [] then None
                 else Some (filter (still_young age now) q))"
proof -
  let ?mq = "prune_entries ks age now mq"
  have ap: "?mq j = map_option (filter (still_young age now)) (mq j)" for j
    using assms by (auto simp: prune_entries_apply iterates_def)
  then have "iterates ks ?mq" using assms by (auto simp: iterates_def)
  then have "prune_old ks age now mq k = retain (\<lambda>k q. q \<noteq> []) ?mq k"
    by (simp add: prune_old_def Let_def empty_queues_def remove_filtered_keys)
  then show ?thesis by (auto simp: retain_def ap split: option.splits)
qed

text \<open>
  Undisturbed by other tasks, a pruning keeps of every queue exactly the messages younger than the
  limit, in their order, whatever order it visits the queues in, and leaves no empty queue stored.
\<close>

theorem prune_old_exact:
  assumes "iterates ks mq"
  shows "queue_of (prune_old ks age now mq) k
      = filter (\<lambda>qm. num_seconds (now - qm_enqueued_at qm) < age) (queue_of mq k) \<and>
    prune_old ks age now mq k \<noteq> Some []"
  by (auto simp: prune_old_apply [OF assms] queue_of_def entry_or_def still_young_def [abs_def]
      split: option.splits)

theorem prune_old_exact_witness:
  "queue_of (prune_old [''b'', ''a''] 60 (61 * 1000000000)
     (enqueue (enqueue (enqueue queue_new 0 ''a'' (a_note ''x'')) 5000000000 ''a'' (a_note ''y'')) 0 ''b'' (a_note ''z''))) ''a''
   = [\<lparr>qm_msg = a_note ''y'', qm_enqueued_at = 5000000000, qm_retries = 0\<rparr>]"
proof -
  let ?mq = "enqueue (enqueue (enqueue queue_new 0 ''a'' (a_note ''x'')) 5000000000 ''a'' (a_note ''y'')) 0 ''b'' (a_note ''z'')"
  have "iterates [''b'', ''a''] ?mq"
    by (auto simp: iterates_def enqueue_def queue_new_def)
  from prune_old_exact [OF this, of 60 "61 * 1000000000" "''a''"] show ?thesis
    by (simp add: queue_of_def enqueue_def queue_new_def num_seconds_def)
qed

text \<open>
  C36. A pruning that races with an enqueue can lose a fresh message. The names of the empty queues are
  collected before they are removed, and the removal does not look again (as \<open>drain_to\<close> does with
  \<open>remove_if\<close>): a message queued in between, for an agent whose messages had all expired, is dropped
  without having been sent, however young it is.
\<close>

theorem prune_race_loses:
  assumes "iterates ks mq" and "mq k = Some q" and "\<forall>qm \<in> set q. \<not> still_young age now qm"
  shows "(let mq1 = prune_entries ks age now mq;
              dead = empty_queues ks mq1;
              mq2 = enqueue mq1 now' k msg
          in queue_of mq2 k = [\<lparr>qm_msg = msg, qm_enqueued_at = now', qm_retries = 0\<rparr>] \<and>
             queue_of (remove_keys dead mq2) k = [] \<and>
             queue_of (remove_if_empty mq2 k) k = queue_of mq2 k)"
proof -
  let ?mq1 = "prune_entries ks age now mq"
  have "?mq1 k = Some []"
    using assms by (auto simp: prune_entries_apply iterates_def)
  moreover have "iterates ks ?mq1"
    using assms(1) by (auto simp: iterates_def prune_entries_apply)
  ultimately show ?thesis
    by (simp add: Let_def enqueue_def queue_of_def entry_or_def remove_keys_apply remove_if_empty_def
        empty_queues_def set_filter_keys)
qed

theorem prune_race_loses_witness:
  "queue_of (remove_keys (empty_queues [''a''] (prune_entries [''a''] 60 (61 * 1000000000)
        (enqueue queue_new 0 ''a'' (a_note ''x''))))
      (enqueue (prune_entries [''a''] 60 (61 * 1000000000) (enqueue queue_new 0 ''a'' (a_note ''x'')))
        (61 * 1000000000) ''a'' (a_note ''y''))) ''a'' = []"
proof -
  let ?mq = "enqueue queue_new 0 ''a'' (a_note ''x'')"
  let ?qm = "\<lparr>qm_msg = a_note ''x'', qm_enqueued_at = 0, qm_retries = 0\<rparr>"
  have "iterates [''a''] ?mq" and "?mq ''a'' = Some [?qm]"
    and "\<forall>qm \<in> set [?qm]. \<not> still_young 60 (61 * 1000000000) qm"
    by (auto simp: iterates_def enqueue_def queue_new_def still_young_def num_seconds_def)
  from prune_race_loses [OF this, of "61 * 1000000000" "a_note ''y''"] show ?thesis
    by (simp add: Let_def)
qed

end
