(* ===== verification/Vfs.thy ===== *)
theory Vfs
  imports Message
begin

text \<open>
  The virtual file system of \<open>src/fs/vnode.rs\<close> and \<open>src/fs/registry.rs\<close>. A node holds its content
  behind an \<open>Arc<RwLock<..>>\<close>: cloning a node shares the content, replacing the node under a path does
  not touch the old content. So nodes hold addresses of cells, and the registry has a heap of cells
  beside its map from paths to nodes. Linking a child into its parent is best effort, a \<open>try_write\<close>;
  whether the lock is free at that moment is the argument \<open>lk\<close>.
\<close>

section \<open>Nodes\<close>

datatype cell = Children "string list" | Content "u8 list" | Status string

datatype vnode = Dir string nat | File string nat | Ctl string nat | Symlink string

datatype vnode_kind = DirKind | FileKind | CtlKind | SymlinkKind

type_synonym heap = "nat \<Rightarrow> cell option"

record vfs =
  vf_nodes :: "(string, vnode) dashmap"
  vf_heap :: heap
  vf_next :: nat

fun vnode_kind_of :: "vnode \<Rightarrow> vnode_kind" where
  "vnode_kind_of (Dir n a) = DirKind"
| "vnode_kind_of (File n a) = FileKind"
| "vnode_kind_of (Ctl n a) = CtlKind"
| "vnode_kind_of (Symlink s) = SymlinkKind"

fun vnode_name :: "vnode \<Rightarrow> string" where
  "vnode_name (Dir n a) = n"
| "vnode_name (File n a) = n"
| "vnode_name (Ctl n a) = n"
| "vnode_name (Symlink s) = s"

fun is_dir :: "vnode \<Rightarrow> bool" where
  "is_dir (Dir n a) = True"
| "is_dir _ = False"

definition alloc :: "cell \<Rightarrow> vfs \<Rightarrow> nat \<times> vfs" where
  "alloc c v = (vf_next v, v\<lparr>vf_heap := (vf_heap v)(vf_next v \<mapsto> c), vf_next := vf_next v + 1\<rparr>)"

definition new_dir :: "string \<Rightarrow> vfs \<Rightarrow> vnode \<times> vfs" where
  "new_dir name v = (let (a, v') = alloc (Children []) v in (Dir name a, v'))"

definition new_file :: "string \<Rightarrow> u8 list \<Rightarrow> vfs \<Rightarrow> vnode \<times> vfs" where
  "new_file name content v = (let (a, v') = alloc (Content content) v in (File name a, v'))"

definition new_ctl :: "string \<Rightarrow> string \<Rightarrow> vfs \<Rightarrow> vnode \<times> vfs" where
  "new_ctl name status v = (let (a, v') = alloc (Status status) v in (Ctl name a, v'))"

text \<open>\<open>String::from_utf8_lossy\<close>: every maximal ill-formed sequence becomes U+FFFD.\<close>

definition utf8_width :: "nat \<Rightarrow> nat" where
  "utf8_width b =
     (if b < 0x80 then 1 else if 0xC2 \<le> b \<and> b \<le> 0xDF then 2
      else if 0xE0 \<le> b \<and> b \<le> 0xEF then 3 else if 0xF0 \<le> b \<and> b \<le> 0xF4 then 4 else 0)"

definition second_range :: "nat \<Rightarrow> nat \<times> nat" where
  "second_range b =
     (if b = 0xE0 then (0xA0, 0xBF) else if b = 0xED then (0x80, 0x9F)
      else if b = 0xF0 then (0x90, 0xBF) else if b = 0xF4 then (0x80, 0x8F) else (0x80, 0xBF))"

fun continuation :: "nat \<Rightarrow> nat \<times> nat \<Rightarrow> string \<Rightarrow> nat" where
  "continuation 0 r s = 0"
| "continuation (Suc n) r [] = 0"
| "continuation (Suc n) r (c # s) =
     (if fst r \<le> of_char c \<and> of_char c \<le> snd r then Suc (continuation n (0x80, 0xBF) s) else 0)"

definition replacement_char :: string where
  "replacement_char = [char_of (0xEF :: nat), char_of (0xBF :: nat), char_of (0xBD :: nat)]"

function utf8_lossy :: "string \<Rightarrow> string" where
  "utf8_lossy [] = []"
| "utf8_lossy (c # s) =
     (let w = utf8_width (of_char c); n = continuation (w - 1) (second_range (of_char c)) s
      in if w = 0 then replacement_char @ utf8_lossy s
         else if n = w - 1 then c # take n s @ utf8_lossy (drop n s)
         else replacement_char @ utf8_lossy (drop n s))"
  by pat_completeness auto
termination by (relation "measure length") auto

definition string_of_bytes :: "u8 list \<Rightarrow> string" where
  "string_of_bytes bs = map (\<lambda>b. char_of (unat b)) bs"

definition vnode_read :: "heap \<Rightarrow> vnode \<Rightarrow> u8 list" where
  "vnode_read h node =
     (case node of
        File n a \<Rightarrow> (case h a of Some (Content c) \<Rightarrow> c | _ \<Rightarrow> [])
      | Ctl n a \<Rightarrow> (case h a of Some (Status s) \<Rightarrow> as_bytes s | _ \<Rightarrow> [])
      | Dir n a \<Rightarrow> (case h a of Some (Children cs) \<Rightarrow> as_bytes (join [char_of (10 :: nat)] cs) | _ \<Rightarrow> [])
      | Symlink target \<Rightarrow> as_bytes target)"

definition vnode_write :: "heap \<Rightarrow> vnode \<Rightarrow> u8 list \<Rightarrow> heap \<times> unit result" where
  "vnode_write h node data =
     (case node of
        File n a \<Rightarrow> (h(a \<mapsto> Content data), Inr ())
      | Ctl n a \<Rightarrow> (h(a \<mapsto> Status (utf8_lossy (string_of_bytes data))), Inr ())
      | Dir n a \<Rightarrow> (h, Inl ''cannot write to directory'')
      | Symlink target \<Rightarrow> (h, Inl ''cannot write to symlink''))"

section \<open>Paths\<close>

text \<open>\<open>str::trim\<close>: the UTF-8 forms of the characters with the property \<open>White_Space\<close>.\<close>

definition white_space :: "string list" where
  "white_space =
     map (map (char_of :: nat \<Rightarrow> char))
       ([[9], [10], [11], [12], [13], [32], [0xC2, 0x85], [0xC2, 0xA0], [0xE1, 0x9A, 0x80]] @
        map (\<lambda>b. [0xE2, 0x80, b]) [0x80 ..< 0x8B] @
        [[0xE2, 0x80, 0xA8], [0xE2, 0x80, 0xA9], [0xE2, 0x80, 0xAF], [0xE2, 0x81, 0x9F], [0xE3, 0x80, 0x80]])"

function strip_all :: "string list \<Rightarrow> string \<Rightarrow> string" where
  "strip_all ws s =
     (case find (\<lambda>w. w \<noteq> [] \<and> starts_with s w) ws of
        None \<Rightarrow> s
      | Some w \<Rightarrow> strip_all ws (drop (length w) s))"
  by pat_completeness auto
termination
  by (relation "measure (length \<circ> snd)") (auto simp: find_Some_iff starts_with_iff)

declare strip_all.simps [simp del]

definition trim_end :: "string \<Rightarrow> string" where
  "trim_end s = rev (strip_all (map rev white_space) (rev s))"

definition trim :: "string \<Rightarrow> string" where
  "trim s = trim_end (strip_all white_space s)"

text \<open>\<open>str::split('/')\<close>: the pieces between slashes, empty ones included.\<close>

fun split_slash :: "string \<Rightarrow> string list" where
  "split_slash [] = [[]]"
| "split_slash (c # s) =
     (if c = CHR ''/'' then [] # split_slash s
      else case split_slash s of [] \<Rightarrow> [[c]] | p # ps \<Rightarrow> (c # p) # ps)"

fun push_part :: "string list \<Rightarrow> string \<Rightarrow> string list" where
  "push_part ns part =
     (if part = ''..'' then butlast ns else if part = ''.'' then ns else ns @ [part])"

declare push_part.simps [simp del]

definition normalize :: "string \<Rightarrow> string" where
  "normalize path0 =
     (let path = trim path0 in
      if path = '''' \<or> path = ''/'' then ''/''
      else ''/'' @ join ''/'' (foldl push_part [] (filter (\<lambda>p. p \<noteq> '''') (split_slash path))))"

text \<open>\<open>path[..rfind('/')]\<close> of a normalised path.\<close>

definition parent_path :: "string \<Rightarrow> string option" where
  "parent_path path0 =
     (let path = normalize path0 in
      if path = ''/'' then None
      else (let before = butlast (split_slash path);
                idx = length (join ''/'' before)
            in if before = [] \<or> idx = 0 then Some ''/'' else Some (take idx path)))"

definition child_name :: "string \<Rightarrow> string \<Rightarrow> string option" where
  "child_name parent0 full0 =
     (let parent = normalize parent0; full = normalize full0 in
      case (if parent = ''/'' then strip_prefix full ''/''
            else Option.bind (strip_prefix full parent) (\<lambda>r. strip_prefix r ''/'')) of
        None \<Rightarrow> None
      | Some remainder \<Rightarrow>
          if remainder = '''' \<or> CHR ''/'' \<in> set remainder then None else Some remainder)"

text \<open>\<open>rsplit('/').next()\<close>.\<close>

definition last_part :: "string \<Rightarrow> string" where
  "last_part s = last (split_slash s)"

section \<open>The registry\<close>

definition link_child :: "bool \<Rightarrow> string \<Rightarrow> string \<Rightarrow> vfs \<Rightarrow> vfs" where
  "link_child lk parent child v =
     (case vf_nodes v parent of
        Some (Dir n a) \<Rightarrow>
          if lk
          then (case vf_heap v a of
                  Some (Children cs) \<Rightarrow>
                    if last_part child \<in> set cs then v
                    else v\<lparr>vf_heap := (vf_heap v)(a \<mapsto> Children (cs @ [last_part child]))\<rparr>
                | _ \<Rightarrow> v)
          else v
      | _ \<Rightarrow> v)"

definition unlink_child :: "bool \<Rightarrow> string \<Rightarrow> string \<Rightarrow> vfs \<Rightarrow> vfs" where
  "unlink_child lk parent child v =
     (case vf_nodes v parent of
        Some (Dir n a) \<Rightarrow>
          if lk
          then (case vf_heap v a of
                  Some (Children cs) \<Rightarrow>
                    v\<lparr>vf_heap := (vf_heap v)(a \<mapsto> Children (filter (\<lambda>c. c \<noteq> last_part child) cs))\<rparr>
                | _ \<Rightarrow> v)
          else v
      | _ \<Rightarrow> v)"

definition insert_node :: "bool \<Rightarrow> string \<Rightarrow> vnode \<Rightarrow> vfs \<Rightarrow> vfs" where
  "insert_node lk path node v =
     (let v1 = v\<lparr>vf_nodes := (vf_nodes v)(path \<mapsto> node)\<rparr>
      in case parent_path path of Some parent \<Rightarrow> link_child lk parent path v1 | None \<Rightarrow> v1)"

definition mkdir :: "bool \<Rightarrow> string \<Rightarrow> vfs \<Rightarrow> vfs" where
  "mkdir lk path0 v =
     (let path = normalize path0; (node, v') = new_dir path v in insert_node lk path node v')"

definition add_node :: "bool \<Rightarrow> string \<Rightarrow> vnode \<times> vfs \<Rightarrow> vfs" where
  "add_node lk path0 nv = (case nv of (node, v) \<Rightarrow> insert_node lk (normalize path0) node v)"

definition vfs_get :: "vfs \<Rightarrow> string \<Rightarrow> vnode option" where
  "vfs_get v path = vf_nodes v (normalize path)"

definition vfs_exists :: "vfs \<Rightarrow> string \<Rightarrow> bool" where
  "vfs_exists v path \<longleftrightarrow> vf_nodes v (normalize path) \<noteq> None"

definition vfs_remove :: "bool \<Rightarrow> string \<Rightarrow> vfs \<Rightarrow> vfs \<times> vnode option" where
  "vfs_remove lk path0 v =
     (let path = normalize path0;
          removed = vf_nodes v path;
          v1 = v\<lparr>vf_nodes := (vf_nodes v)(path := None)\<rparr>
      in (if removed \<noteq> None
          then (case parent_path path of Some parent \<Rightarrow> unlink_child lk parent path v1 | None \<Rightarrow> v1)
          else v1, removed))"

text \<open>\<open>sort\<close> and \<open>dedup\<close> of the names found by matching every key against the directory.\<close>

fun child_names :: "string \<Rightarrow> string list \<Rightarrow> string list" where
  "child_names path [] = []"
| "child_names path (k # ks) =
     (case child_name path k of Some c \<Rightarrow> c # child_names path ks | None \<Rightarrow> child_names path ks)"

definition vfs_list :: "string list \<Rightarrow> vfs \<Rightarrow> string \<Rightarrow> string list" where
  "vfs_list ks v path0 =
     (let path = normalize path0 in
      case vf_nodes v path of
        Some node \<Rightarrow> if is_dir node then remdups_adj (sort (child_names path ks)) else []
      | None \<Rightarrow> [])"

definition seed_core :: "vfs \<Rightarrow> vfs" where
  "seed_core v =
     (let v1 = mkdir True ''/ctl'' (mkdir True ''/plumber'' (mkdir True ''/msg'' (mkdir True ''/proc''
                 (mkdir True ''/ai'' (mkdir True ''/net'' v)))));
          v2 = add_node True ''/ctl/status'' (new_ctl ''status'' ''ok'' v1);
          v3 = add_node True ''/ctl/shutdown'' (new_ctl ''shutdown'' ''write 1 to shutdown'' v2)
      in add_node True ''/plumber/rules'' (new_file ''rules'' (as_bytes ''[]'') v3))"

definition vfs_new :: vfs where
  "vfs_new = seed_core \<lparr>vf_nodes = Map.empty, vf_heap = Map.empty, vf_next = 0\<rparr>"

text \<open>Reading and writing through a path, as the transport does.\<close>

definition read_path :: "vfs \<Rightarrow> string \<Rightarrow> u8 list option" where
  "read_path v path = map_option (vnode_read (vf_heap v)) (vfs_get v path)"

definition write_path :: "vfs \<Rightarrow> string \<Rightarrow> u8 list \<Rightarrow> vfs \<times> unit result" where
  "write_path v path data =
     (case vfs_get v path of
        None \<Rightarrow> (v, Inl ''not found'')
      | Some node \<Rightarrow> (let (h, r) = vnode_write (vf_heap v) node data in (v\<lparr>vf_heap := h\<rparr>, r)))"

definition mount_agent_ns :: "bool \<Rightarrow> string \<Rightarrow> string \<Rightarrow> vfs \<Rightarrow> vfs" where
  "mount_agent_ns lk agent_id hostname v0 =
     (let base = ''/net/'' @ agent_id;
          v1 = mkdir lk (base @ ''/msg'') (mkdir lk (base @ ''/ctl'') (mkdir lk base v0));
          v2 = add_node lk (base @ ''/hostname'') (new_file ''hostname'' (as_bytes hostname) v1);
          v3 = add_node lk (base @ ''/ctl/status'') (new_ctl ''status'' ''connected'' v2);
          v4 = add_node lk (base @ ''/ctl/capabilities'') (new_file ''capabilities'' (as_bytes ''[]'') v3);
          v5 = add_node lk (base @ ''/msg/inbox'') (new_file ''inbox'' [] v4)
      in add_node lk (base @ ''/msg/outbox'') (new_file ''outbox'' [] v5))"

fun unmount_keys :: "(string \<Rightarrow> bool) \<Rightarrow> string list \<Rightarrow> vfs \<Rightarrow> vfs" where
  "unmount_keys lk [] v = v"
| "unmount_keys lk (key # keys) v =
     (let v1 = v\<lparr>vf_nodes := (vf_nodes v)(key := None)\<rparr>
      in unmount_keys lk keys
           (if vf_nodes v key \<noteq> None
            then (case parent_path key of Some parent \<Rightarrow> unlink_child (lk key) parent key v1 | None \<Rightarrow> v1)
            else v1))"

definition unmount_agent_ns :: "(string \<Rightarrow> bool) \<Rightarrow> string list \<Rightarrow> string \<Rightarrow> vfs \<Rightarrow> vfs" where
  "unmount_agent_ns lk ks agent_id v =
     (let base = ''/net/'' @ agent_id; prefix = base @ ''/''
      in unmount_keys lk (filter_keys ks (\<lambda>key _. key = base \<or> starts_with key prefix) (vf_nodes v)) v)"

section \<open>Canonical paths\<close>

definition plain_part :: "string \<Rightarrow> bool" where
  "plain_part p \<longleftrightarrow> p \<noteq> '''' \<and> p \<noteq> ''.'' \<and> p \<noteq> ''..'' \<and> CHR ''/'' \<notin> set p"

definition path_of :: "string list \<Rightarrow> string" where
  "path_of ps = ''/'' @ join ''/'' ps"

definition parts_of :: "string \<Rightarrow> string list" where
  "parts_of path = foldl push_part [] (filter (\<lambda>p. p \<noteq> '''') (split_slash (trim path)))"

lemma normalize_path_of: "normalize path = path_of (parts_of path)"
  by (auto simp: normalize_def Let_def path_of_def parts_of_def)

lemma split_slash_nonempty [simp]: "split_slash s \<noteq> []"
  by (induction s) (auto split: list.split)

lemma split_slash_no_slash: "p \<in> set (split_slash s) \<Longrightarrow> CHR ''/'' \<notin> set p"
proof (induction s arbitrary: p)
  case (Cons c s)
  then show ?case by (cases "split_slash s") (auto split: if_splits)
qed simp

lemma split_slash_part: "CHR ''/'' \<notin> set p \<Longrightarrow> split_slash p = [p]"
  by (induction p) auto

lemma split_slash_append: "CHR ''/'' \<notin> set p \<Longrightarrow> split_slash (p @ ''/'' @ s) = p # split_slash s"
  by (induction p) auto

lemma split_slash_join:
  "ps \<noteq> [] \<Longrightarrow> \<forall>p \<in> set ps. CHR ''/'' \<notin> set p \<Longrightarrow> split_slash (join ''/'' ps) = ps"
proof (induction "''/''" ps rule: join.induct)
  case (3 x y ys)
  then show ?case using split_slash_append [of x "join ''/'' (y # ys)"] by simp
qed (simp_all add: split_slash_part)

lemma split_path_of:
  "\<forall>p \<in> set ps. plain_part p \<Longrightarrow> split_slash (path_of ps) = (if ps = [] then ['''', ''''] else '''' # ps)"
  using split_slash_join [of ps] by (auto simp: path_of_def plain_part_def)

lemma foldl_push_part_plain:
  "\<forall>p \<in> set qs. p \<noteq> '''' \<and> CHR ''/'' \<notin> set p \<Longrightarrow> \<forall>p \<in> set ns. plain_part p \<Longrightarrow>
     \<forall>p \<in> set (foldl push_part ns qs). plain_part p"
proof (induction qs arbitrary: ns)
  case (Cons q qs)
  have "\<forall>p \<in> set (push_part ns q). plain_part p"
    using Cons.prems by (auto simp: push_part.simps plain_part_def dest: in_set_butlastD)
  then show ?case using Cons by simp
qed simp

lemma parts_of_plain: "p \<in> set (parts_of path) \<Longrightarrow> plain_part p"
proof -
  assume p: "p \<in> set (parts_of path)"
  have "\<forall>q \<in> set (filter (\<lambda>p. p \<noteq> []) (split_slash (trim path))). q \<noteq> [] \<and> CHR ''/'' \<notin> set q"
    by (auto simp: split_slash_no_slash)
  from foldl_push_part_plain [OF this, of "[]"] p show ?thesis by (simp add: parts_of_def)
qed

lemma foldl_push_part_id:
  "\<forall>p \<in> set ps. plain_part p \<Longrightarrow> foldl push_part ns ps = ns @ ps"
  by (induction ps arbitrary: ns) (auto simp: push_part.simps plain_part_def)

lemma strip_all_slash: "strip_all white_space (CHR ''/'' # s) = CHR ''/'' # s"
proof -
  have "find (\<lambda>w. w \<noteq> [] \<and> starts_with (CHR ''/'' # s) w) white_space = None"
    by (auto simp: find_None_iff white_space_def starts_with_iff upt_rec char_of_def)
  then show ?thesis by (subst strip_all.simps) simp
qed

lemma parts_of_path_of:
  assumes "\<forall>p \<in> set ps. plain_part p" and "trim_end (path_of ps) = path_of ps"
  shows "parts_of (path_of ps) = ps"
proof -
  have "trim (path_of ps) = path_of ps"
    using assms(2) by (simp add: trim_def path_of_def strip_all_slash)
  moreover have "filter (\<lambda>p. p \<noteq> '''') ps = ps"
    using assms(1) by (auto simp: plain_part_def filter_id_conv)
  ultimately show ?thesis
    using assms(1) by (simp add: parts_of_def split_path_of foldl_push_part_id)
qed

section \<open>Cells are not shared\<close>

fun cell_addr :: "vnode \<Rightarrow> nat option" where
  "cell_addr (Dir n a) = Some a"
| "cell_addr (File n a) = Some a"
| "cell_addr (Ctl n a) = Some a"
| "cell_addr (Symlink s) = None"

definition cell_matches :: "heap \<Rightarrow> vnode \<Rightarrow> bool" where
  "cell_matches h node =
     (case node of
        Dir n a \<Rightarrow> \<exists>cs. h a = Some (Children cs)
      | File n a \<Rightarrow> \<exists>bs. h a = Some (Content bs)
      | Ctl n a \<Rightarrow> \<exists>s. h a = Some (Status s)
      | Symlink t \<Rightarrow> True)"

definition vfs_wf :: "vfs \<Rightarrow> bool" where
  "vfs_wf v \<longleftrightarrow>
     (\<forall>k node. vf_nodes v k = Some node \<longrightarrow> cell_matches (vf_heap v) node \<and>
        (\<forall>a. cell_addr node = Some a \<longrightarrow> a < vf_next v)) \<and>
     (\<forall>k l m n a. vf_nodes v k = Some m \<longrightarrow> vf_nodes v l = Some n \<longrightarrow> cell_addr m = Some a \<longrightarrow>
        cell_addr n = Some a \<longrightarrow> k = l)"

lemma cell_matches_cong:
  "(\<And>a. cell_addr node = Some a \<Longrightarrow> h a = h' a) \<Longrightarrow> cell_matches h node = cell_matches h' node"
  by (cases node) (simp_all add: cell_matches_def)

lemma vnode_read_cong:
  "(\<And>a. cell_addr node = Some a \<Longrightarrow> h a = h' a) \<Longrightarrow> vnode_read h node = vnode_read h' node"
  by (cases node) (simp_all add: vnode_read_def)

text \<open>A change of one cell that keeps its kind.\<close>

lemma cell_update_wf:
  assumes "vfs_wf v" and "vf_nodes v k = Some node" and "cell_addr node = Some a"
    and "cell_matches ((vf_heap v)(a \<mapsto> c)) node"
  shows "vfs_wf (v\<lparr>vf_heap := (vf_heap v)(a \<mapsto> c)\<rparr>)"
proof -
  have "cell_matches ((vf_heap v)(a \<mapsto> c)) m" if l: "vf_nodes v l = Some m" for l m
  proof (cases "cell_addr m = Some a")
    case True
    then have "l = k" using assms l unfolding vfs_wf_def by metis
    then show ?thesis using assms(2,4) l by simp
  next
    case False
    then have "cell_matches ((vf_heap v)(a \<mapsto> c)) m = cell_matches (vf_heap v) m"
      by (intro cell_matches_cong) auto
    then show ?thesis using assms(1) l by (simp add: vfs_wf_def)
  qed
  then show ?thesis using assms(1) by (simp add: vfs_wf_def)
qed

lemma children_wf:
  "vfs_wf v \<Longrightarrow> vf_nodes v k = Some (Dir n a) \<Longrightarrow> vfs_wf (v\<lparr>vf_heap := (vf_heap v)(a \<mapsto> Children cs)\<rparr>)"
  by (erule cell_update_wf) (auto simp: cell_matches_def)

lemma link_child_wf: "vfs_wf v \<Longrightarrow> vfs_wf (link_child lk parent child v)"
  by (auto simp: link_child_def children_wf split: option.splits vnode.splits cell.splits)

lemma unlink_child_wf: "vfs_wf v \<Longrightarrow> vfs_wf (unlink_child lk parent child v)"
  by (auto simp: unlink_child_def children_wf split: option.splits vnode.splits cell.splits)

lemma link_child_nodes [simp]: "vf_nodes (link_child lk parent child v) = vf_nodes v"
  by (auto simp: link_child_def split: option.splits vnode.splits cell.splits)

lemma unlink_child_nodes [simp]: "vf_nodes (unlink_child lk parent child v) = vf_nodes v"
  by (auto simp: unlink_child_def split: option.splits vnode.splits cell.splits)

lemma insert_node_nodes [simp]: "vf_nodes (insert_node lk path node v) = (vf_nodes v)(path \<mapsto> node)"
  by (simp add: insert_node_def Let_def split: option.split)

text \<open>A node that no path has yet.\<close>

definition fresh_node :: "vfs \<Rightarrow> vnode \<Rightarrow> bool" where
  "fresh_node v node \<longleftrightarrow> cell_matches (vf_heap v) node \<and>
     (\<forall>a. cell_addr node = Some a \<longrightarrow> a < vf_next v \<and>
       (\<forall>k m. vf_nodes v k = Some m \<longrightarrow> cell_addr m \<noteq> Some a))"

lemma insert_node_wf:
  assumes "vfs_wf v" and "fresh_node v node"
  shows "vfs_wf (insert_node lk path node v)"
proof -
  have "vfs_wf (v\<lparr>vf_nodes := (vf_nodes v)(path \<mapsto> node)\<rparr>)"
    using assms by (auto simp: vfs_wf_def fresh_node_def split: if_splits)
  then show ?thesis by (simp add: insert_node_def Let_def link_child_wf split: option.split)
qed

lemma alloc_wf:
  assumes "vfs_wf v" and "alloc c v = (a, v')"
  shows "vfs_wf v' \<and> vf_nodes v' = vf_nodes v \<and> vf_heap v' a = Some c \<and> a < vf_next v' \<and>
    (\<forall>k m. vf_nodes v k = Some m \<longrightarrow> cell_addr m \<noteq> Some a)"
proof -
  have a: "a = vf_next v" and v': "v' = v\<lparr>vf_heap := (vf_heap v)(a \<mapsto> c), vf_next := vf_next v + 1\<rparr>"
    using assms(2) by (auto simp: alloc_def)
  have old: "\<forall>k m. vf_nodes v k = Some m \<longrightarrow> cell_addr m \<noteq> Some a"
    using assms(1) unfolding a vfs_wf_def by (metis less_irrefl)
  have "cell_matches ((vf_heap v)(a \<mapsto> c)) m" if "vf_nodes v k = Some m" for k m
  proof -
    have "cell_matches ((vf_heap v)(a \<mapsto> c)) m = cell_matches (vf_heap v) m"
      using old that by (intro cell_matches_cong) auto
    then show ?thesis using assms(1) that by (simp add: vfs_wf_def)
  qed
  then have "vfs_wf v'" using assms(1) unfolding vfs_wf_def v' a
    by (simp add: less_Suc_eq)
  then show ?thesis using old by (simp add: v' a)
qed

lemma new_dir_fresh: "vfs_wf v \<Longrightarrow> new_dir n v = (node, v') \<Longrightarrow> vfs_wf v' \<and> fresh_node v' node"
  by (cases "alloc (Children []) v")
    (auto simp: new_dir_def fresh_node_def cell_matches_def dest: alloc_wf)

lemma new_file_fresh: "vfs_wf v \<Longrightarrow> new_file n bs v = (node, v') \<Longrightarrow> vfs_wf v' \<and> fresh_node v' node"
  by (cases "alloc (Content bs) v")
    (auto simp: new_file_def fresh_node_def cell_matches_def dest: alloc_wf)

lemma new_ctl_fresh: "vfs_wf v \<Longrightarrow> new_ctl n s v = (node, v') \<Longrightarrow> vfs_wf v' \<and> fresh_node v' node"
  by (cases "alloc (Status s) v")
    (auto simp: new_ctl_def fresh_node_def cell_matches_def dest: alloc_wf)

lemmas new_node_fresh = new_dir_fresh new_file_fresh new_ctl_fresh

lemma new_node_nodes [simp]:
  "vf_nodes (snd (new_dir n v)) = vf_nodes v"
  "vf_nodes (snd (new_file n bs v)) = vf_nodes v"
  "vf_nodes (snd (new_ctl n s v)) = vf_nodes v"
  by (simp_all add: new_dir_def new_file_def new_ctl_def alloc_def)

section \<open>Reachable file systems\<close>

lemma mkdir_wf: "vfs_wf v \<Longrightarrow> vfs_wf (mkdir lk path v)"
  by (cases "new_dir (normalize path) v") (auto simp: mkdir_def Let_def dest: new_dir_fresh intro: insert_node_wf)

lemma add_node_wf: "vfs_wf (snd nv) \<Longrightarrow> fresh_node (snd nv) (fst nv) \<Longrightarrow> vfs_wf (add_node lk path nv)"
  by (cases nv) (simp add: add_node_def insert_node_wf)

lemma add_file_wf: "vfs_wf v \<Longrightarrow> vfs_wf (add_node lk path (new_file n bs v))"
  using new_file_fresh [of v n bs] by (cases "new_file n bs v") (simp add: add_node_def insert_node_wf)

lemma add_ctl_wf: "vfs_wf v \<Longrightarrow> vfs_wf (add_node lk path (new_ctl n s v))"
  using new_ctl_fresh [of v n s] by (cases "new_ctl n s v") (simp add: add_node_def insert_node_wf)

lemma add_symlink_wf: "vfs_wf v \<Longrightarrow> vfs_wf (add_node lk path (Symlink target, v))"
  by (rule add_node_wf) (auto simp: fresh_node_def cell_matches_def)

lemmas add_new_wf = add_file_wf add_ctl_wf add_symlink_wf

lemma forget_wf: "vfs_wf v \<Longrightarrow> vfs_wf (v\<lparr>vf_nodes := (vf_nodes v)(path := None)\<rparr>)"
  by (auto simp: vfs_wf_def split: if_splits)

lemma vfs_remove_wf: "vfs_wf v \<Longrightarrow> vfs_wf (fst (vfs_remove lk path v))"
  by (auto simp: vfs_remove_def Let_def forget_wf unlink_child_wf split: option.splits)

lemma unmount_keys_wf: "vfs_wf v \<Longrightarrow> vfs_wf (unmount_keys lk keys v)"
proof (induction keys arbitrary: v)
  case (Cons key keys)
  show ?case
    by (auto simp: Let_def Cons.prems intro!: Cons.IH forget_wf unlink_child_wf split: option.split)
qed simp

lemma vnode_write_wf:
  assumes "vfs_wf v" and "vf_nodes v k = Some node"
  shows "vfs_wf (v\<lparr>vf_heap := fst (vnode_write (vf_heap v) node data)\<rparr>)"
proof (cases node)
  case (File n a)
  have "vfs_wf (v\<lparr>vf_heap := (vf_heap v)(a \<mapsto> Content data)\<rparr>)"
    by (rule cell_update_wf [OF assms]) (simp_all add: File cell_matches_def)
  then show ?thesis by (simp add: vnode_write_def File)
next
  case (Ctl n a)
  have "vfs_wf (v\<lparr>vf_heap := (vf_heap v)(a \<mapsto> Status (utf8_lossy (string_of_bytes data)))\<rparr>)"
    by (rule cell_update_wf [OF assms]) (simp_all add: Ctl cell_matches_def)
  then show ?thesis by (simp add: vnode_write_def Ctl)
qed (use assms(1) in \<open>simp_all add: vnode_write_def\<close>)

lemma write_path_wf: "vfs_wf v \<Longrightarrow> vfs_wf (fst (write_path v path data))"
  using vnode_write_wf [of v "normalize path" _ data]
  by (auto simp: write_path_def vfs_get_def split_beta Let_def split: option.split)

lemma seed_core_wf: "vfs_wf v \<Longrightarrow> vfs_wf (seed_core v)"
  by (simp add: seed_core_def Let_def add_new_wf mkdir_wf)

lemma mount_agent_ns_wf: "vfs_wf v \<Longrightarrow> vfs_wf (mount_agent_ns lk i h v)"
  by (simp add: mount_agent_ns_def Let_def add_new_wf mkdir_wf)

lemma vfs_new_wf: "vfs_wf vfs_new"
  unfolding vfs_new_def by (rule seed_core_wf) (simp add: vfs_wf_def)

text \<open>Everything the hub does to the file system, in any order.\<close>

inductive vfs_reachable :: "vfs \<Rightarrow> bool" where
  start: "vfs_reachable vfs_new"
| mkdir: "vfs_reachable v \<Longrightarrow> vfs_reachable (mkdir lk path v)"
| add_file: "vfs_reachable v \<Longrightarrow> vfs_reachable (add_node lk path (new_file n bs v))"
| add_ctl: "vfs_reachable v \<Longrightarrow> vfs_reachable (add_node lk path (new_ctl n s v))"
| add_link: "vfs_reachable v \<Longrightarrow> vfs_reachable (add_node lk path (Symlink target, v))"
| remove: "vfs_reachable v \<Longrightarrow> vfs_reachable (fst (vfs_remove lk path v))"
| write_data: "vfs_reachable v \<Longrightarrow> vfs_reachable (fst (write_path v path data))"
| mount: "vfs_reachable v \<Longrightarrow> vfs_reachable (mount_agent_ns lk i h v)"
| unmount: "vfs_reachable v \<Longrightarrow> vfs_reachable (unmount_agent_ns lks ks i v)"

lemma vfs_reachable_wf: "vfs_reachable v \<Longrightarrow> vfs_wf v"
  by (induction rule: vfs_reachable.induct)
    (simp_all add: vfs_new_wf mkdir_wf add_new_wf vfs_remove_wf write_path_wf mount_agent_ns_wf
      unmount_agent_ns_def unmount_keys_wf Let_def)

lemma as_bytes_string_of_bytes [simp]: "as_bytes (string_of_bytes bs) = bs"
proof -
  have "(of_char (char_of (unat b)) :: u8) = b" for b :: u8
  proof -
    have "unat b < 256" using unsigned_less [of b] by simp
    then have "of_char (char_of (unat b) :: char) = unat b" by simp
    then have "of_nat (of_char (char_of (unat b) :: char)) = b" by simp
    then show ?thesis unfolding of_nat_of_char .
  qed
  then show ?thesis by (simp add: as_bytes_def string_of_bytes_def comp_def)
qed

section \<open>Listings\<close>

lemma set_child_names: "c \<in> set (child_names path ks) \<longleftrightarrow> (\<exists>k \<in> set ks. child_name path k = Some c)"
  by (induction ks) (auto split: option.splits)

lemma sorted_remdups_adj_distinct: "sorted xs \<Longrightarrow> distinct (remdups_adj (xs :: string list))"
proof (induction xs rule: remdups_adj.induct)
  case (3 x y xs)
  show ?case
  proof (cases "x = y")
    case False
    then have "x \<notin> set (y # xs)" using 3(3) by auto
    then show ?thesis using 3 False by simp
  qed (use 3 in simp)
qed simp_all

text \<open>The canonical path of a child.\<close>

definition child_path :: "string \<Rightarrow> string \<Rightarrow> string" where
  "child_path parent c = (if parent = ''/'' then ''/'' @ c else parent @ ''/'' @ c)"

lemma child_name_iff:
  "child_name parent full = Some c \<longleftrightarrow>
     normalize full = child_path (normalize parent) c \<and> c \<noteq> '''' \<and> CHR ''/'' \<notin> set c"
proof -
  let ?rest = "if normalize parent = ''/'' then strip_prefix (normalize full) ''/''
    else Option.bind (strip_prefix (normalize full) (normalize parent)) (\<lambda>r. strip_prefix r ''/'')"
  have "child_name parent full = Some c \<longleftrightarrow> ?rest = Some c \<and> c \<noteq> '''' \<and> CHR ''/'' \<notin> set c"
    unfolding child_name_def Let_def by (cases ?rest) auto
  moreover have "?rest = Some c \<longleftrightarrow> normalize full = child_path (normalize parent) c"
    by (auto simp: child_path_def strip_prefix_some_iff bind_eq_Some_conv)
  ultimately show ?thesis by simp
qed

section \<open>Unmounting\<close>

lemma unmount_keys_nodes: "vf_nodes (unmount_keys lk keys v) = remove_keys keys (vf_nodes v)"
  by (induction keys arbitrary: v) (auto simp: Let_def split: option.split)

lemma unmount_nodes:
  "iterates ks (vf_nodes v) \<Longrightarrow> vf_nodes (unmount_agent_ns lk ks i v) =
     retain (\<lambda>key _. \<not> (key = ''/net/'' @ i \<or> starts_with key (''/net/'' @ i @ ''/''))) (vf_nodes v)"
  by (simp add: unmount_agent_ns_def Let_def unmount_keys_nodes remove_filtered_keys)

section \<open>The seeded namespace\<close>

lemma dom_mkdir [simp]: "dom (vf_nodes (mkdir lk path v)) = insert (normalize path) (dom (vf_nodes v))"
  by (cases "new_dir (normalize path) v")
    (use new_node_nodes(1) [of "normalize path" v] in \<open>simp add: mkdir_def Let_def\<close>)

lemma dom_add_node [simp]:
  "dom (vf_nodes (add_node lk path nv)) = insert (normalize path) (dom (vf_nodes (snd nv)))"
  by (cases nv) (simp add: add_node_def)

text \<open>Plain parts whose last character is a visible ASCII character make a canonical path.\<close>

lemma white_space_last:
  "w \<in> set white_space \<Longrightarrow> w \<noteq> [] \<and> ((of_char (last w) :: nat) \<le> 32 \<or> 128 \<le> (of_char (last w) :: nat))"
  by (auto simp: white_space_def upt_rec)

lemma trim_end_visible:
  assumes "s \<noteq> []" and "32 < (of_char (last s) :: nat)" and "(of_char (last s) :: nat) < 128"
  shows "trim_end s = s"
proof -
  have "find (\<lambda>w. w \<noteq> [] \<and> starts_with (rev s) w) (map rev white_space) = None"
  proof -
    have "\<not> starts_with (rev s) (rev w)" if w: "w \<in> set white_space" for w
    proof
      assume "starts_with (rev s) (rev w)"
      then obtain t where "rev s = rev w @ t" by (auto simp: starts_with_iff)
      then have "s = rev t @ w" by (metis rev_append rev_rev_ident)
      then have "last s = last w" using white_space_last [OF w] by simp
      then show False using white_space_last [OF w] assms(2,3) by auto
    qed
    then show ?thesis by (auto simp: find_None_iff)
  qed
  then have "strip_all (map rev white_space) (rev s) = rev s" by (subst strip_all.simps) simp
  then show ?thesis by (simp add: trim_end_def)
qed

lemma normalize_plain:
  assumes "\<forall>p \<in> set ps. plain_part p" and "32 < (of_char (last (path_of ps)) :: nat)"
    and "(of_char (last (path_of ps)) :: nat) < 128"
  shows "normalize (path_of ps) = path_of ps"
proof -
  have "trim_end (path_of ps) = path_of ps"
    using assms(2,3) by (intro trim_end_visible) (simp_all add: path_of_def)
  then show ?thesis using parts_of_path_of [OF assms(1)] by (simp add: normalize_path_of)
qed

lemma seed_paths:
  "normalize ''/net'' = ''/net''" "normalize ''/ai'' = ''/ai''" "normalize ''/proc'' = ''/proc''"
  "normalize ''/msg'' = ''/msg''" "normalize ''/plumber'' = ''/plumber''" "normalize ''/ctl'' = ''/ctl''"
  "normalize ''/ctl/status'' = ''/ctl/status''" "normalize ''/ctl/shutdown'' = ''/ctl/shutdown''"
  "normalize ''/plumber/rules'' = ''/plumber/rules''" "normalize ''/'' = ''/''"
  using normalize_plain [of "[''net'']"] normalize_plain [of "[''ai'']"] normalize_plain [of "[''proc'']"]
    normalize_plain [of "[''msg'']"] normalize_plain [of "[''plumber'']"] normalize_plain [of "[''ctl'']"]
    normalize_plain [of "[''ctl'', ''status'']"] normalize_plain [of "[''ctl'', ''shutdown'']"]
    normalize_plain [of "[''plumber'', ''rules'']"] normalize_plain [of "[]"]
  by (simp_all add: path_of_def plain_part_def)

lemma dom_vfs_new:
  "dom (vf_nodes vfs_new) = {''/plumber/rules'', ''/ctl/shutdown'', ''/ctl/status'', ''/ctl'',
     ''/plumber'', ''/msg'', ''/proc'', ''/ai'', ''/net''}"
  unfolding vfs_new_def seed_core_def Let_def
  by (simp only: dom_mkdir dom_add_node new_node_nodes seed_paths vfs.simps dom_empty)

lemma root_not_seeded: "vf_nodes vfs_new ''/'' = None"
proof -
  have "''/'' \<notin> dom (vf_nodes vfs_new)" unfolding dom_vfs_new by simp
  then show ?thesis by (simp only: domIff not_not)
qed

section \<open>Properties\<close>

text \<open>
  A normalised path is a slash followed by plain parts joined with slashes: no part is empty, a dot,
  two dots or contains a slash, so no path climbs above the root. Normalising again changes nothing
  unless the path ends in white space.
\<close>

theorem normalize_canonical:
  "(\<exists>ps. normalize path = ''/'' @ join ''/'' ps \<and>
      (\<forall>p \<in> set ps. p \<noteq> '''' \<and> p \<noteq> ''.'' \<and> p \<noteq> ''..'' \<and> CHR ''/'' \<notin> set p)) \<and>
   (trim_end (normalize path) = normalize path \<longrightarrow> normalize (normalize path) = normalize path)"
proof -
  have plain: "\<forall>p \<in> set (parts_of path). plain_part p" by (simp add: parts_of_plain)
  then have "\<exists>ps. normalize path = ''/'' @ join ''/'' ps \<and>
      (\<forall>p \<in> set ps. p \<noteq> '''' \<and> p \<noteq> ''.'' \<and> p \<noteq> ''..'' \<and> CHR ''/'' \<notin> set p)"
    unfolding normalize_path_of path_of_def plain_part_def by blast
  moreover have "trim_end (normalize path) = normalize path \<longrightarrow> normalize (normalize path) = normalize path"
    using parts_of_path_of [OF plain] by (simp add: normalize_path_of)
  ultimately show ?thesis by blast
qed

theorem normalize_canonical_witness: "normalize (normalize ''/ctl/status'') = normalize ''/ctl/status''"
proof -
  have "trim_end (normalize ''/ctl/status'') = normalize ''/ctl/status''"
    unfolding seed_paths by (rule trim_end_visible) simp_all
  with normalize_canonical show ?thesis by (rule mp [OF conjunct2])
qed

text \<open>
  C16. What is written is read back. In every reachable file system, writing a file stores exactly the
  data, writing a control file stores its text, writing a directory or a link is refused and changes
  nothing, and a path that does not exist is reported; and in each case every path that names another
  node reads as before, so no two nodes share content.
\<close>

theorem vfs_write_read:
  assumes "vfs_reachable v" and "write_path v path data = (v', r)"
  shows "(case vfs_get v path of
      None \<Rightarrow> r = Inl ''not found'' \<and> v' = v
    | Some (File n a) \<Rightarrow> r = Inr () \<and> read_path v' path = Some data
    | Some (Ctl n a) \<Rightarrow> r = Inr () \<and> read_path v' path = Some (as_bytes (utf8_lossy (string_of_bytes data)))
    | Some (Dir n a) \<Rightarrow> r = Inl ''cannot write to directory'' \<and> v' = v
    | Some (Symlink t) \<Rightarrow> r = Inl ''cannot write to symlink'' \<and> v' = v) \<and>
    (\<forall>q. normalize q \<noteq> normalize path \<longrightarrow> read_path v' q = read_path v q)"
proof (cases "vfs_get v path")
  case None
  then show ?thesis using assms(2) by (simp add: write_path_def)
next
  case (Some node)
  have other: "vnode_read ((vf_heap v)(a \<mapsto> c)) m = vnode_read (vf_heap v) m"
    if "cell_addr node = Some a" and "vfs_get v q = Some m" and "normalize q \<noteq> normalize path" for a c q m
  proof (rule vnode_read_cong)
    fix b assume b: "cell_addr m = Some b"
    have "b \<noteq> a"
      using vfs_reachable_wf [OF assms(1)] Some that b unfolding vfs_wf_def vfs_get_def by metis
    then show "((vf_heap v)(a \<mapsto> c)) b = vf_heap v b" by simp
  qed
  have "\<forall>q. normalize q \<noteq> normalize path \<longrightarrow> read_path v' q = read_path v q"
    using assms(2) Some other
    by (cases node) (auto simp: write_path_def read_path_def vfs_get_def vnode_write_def option.map_comp
        comp_def intro!: option.map_cong)
  then show ?thesis
    using assms(2) Some
    by (cases node) (auto simp: write_path_def read_path_def vnode_write_def vnode_read_def vfs_get_def)
qed

theorem vfs_write_read_witness:
  "read_path (fst (write_path (add_node True ''/msg/a'' (new_file ''a'' [] vfs_new)) ''/msg/a'' [1, 2])) ''/msg/a''
     = Some [1, 2]"
proof -
  let ?v = "add_node True ''/msg/a'' (new_file ''a'' [] vfs_new)"
  obtain v' r where w: "write_path ?v ''/msg/a'' [1, 2] = (v', r)" by force
  have "vfs_get ?v ''/msg/a'' = Some (File ''a'' (vf_next vfs_new))"
    by (simp add: vfs_get_def add_node_def new_file_def alloc_def)
  then show ?thesis
    using vfs_write_read [OF vfs_reachable.add_file [OF vfs_reachable.start] w] by (simp add: w)
qed

text \<open>
  A directory lists, in ascending order and once each, exactly the names of the nodes directly below
  it, whatever the order in which the map is visited and however its own list of children stands;
  what is not a directory lists nothing. The root of a new file system is no directory: it lists
  nothing, although it has six directories below it.
\<close>

theorem vfs_list_exact:
  assumes "iterates ks (vf_nodes v)"
  shows "sorted (vfs_list ks v path) \<and> distinct (vfs_list ks v path) \<and>
    (c \<in> set (vfs_list ks v path) \<longleftrightarrow>
      (\<exists>node. vfs_get v path = Some node \<and> is_dir node) \<and> c \<noteq> '''' \<and> CHR ''/'' \<notin> set c \<and>
      (\<exists>k. vf_nodes v k \<noteq> None \<and> normalize k = child_path (normalize (normalize path)) c)) \<and>
    vfs_list ks' vfs_new ''/'' = []"
proof -
  have root: "vfs_list ks' vfs_new ''/'' = []" by (simp add: vfs_list_def seed_paths root_not_seeded)
  have keys: "k \<in> set ks \<longleftrightarrow> vf_nodes v k \<noteq> None" for k
    using assms by (auto simp: iterates_def)
  show ?thesis
  proof (cases "vf_nodes v (normalize path)")
    case None
    then show ?thesis using root by (simp add: vfs_list_def [of ks v path] vfs_get_def)
  next
    case (Some node)
    have "c \<in> set (child_names (normalize path) ks) \<longleftrightarrow> c \<noteq> '''' \<and> CHR ''/'' \<notin> set c \<and>
        (\<exists>k. vf_nodes v k \<noteq> None \<and> normalize k = child_path (normalize (normalize path)) c)"
      unfolding set_child_names child_name_iff using keys by blast
    then show ?thesis
      by (cases "is_dir node")
        (simp_all add: vfs_list_def [of ks v path] vfs_get_def root Some sorted_remdups_adj_distinct sorted_remdups_adj)
  qed
qed

theorem vfs_list_exact_witness:
  "''status'' \<in> set (vfs_list [''/ctl/status'', ''/ctl''] (\<lparr>vf_nodes = [''/ctl'' \<mapsto> Dir ''/ctl'' 0,
     ''/ctl/status'' \<mapsto> Ctl ''status'' 1], vf_heap = Map.empty, vf_next = 2\<rparr>) ''/ctl'')"
proof -
  let ?v = "\<lparr>vf_nodes = [''/ctl'' \<mapsto> Dir ''/ctl'' 0, ''/ctl/status'' \<mapsto> Ctl ''status'' 1],
     vf_heap = Map.empty, vf_next = 2\<rparr>"
  have i: "iterates [''/ctl/status'', ''/ctl''] (vf_nodes ?v)"
    by (auto simp: iterates_def)
  have "vfs_get ?v ''/ctl'' = Some (Dir ''/ctl'' 0)" by (simp add: vfs_get_def seed_paths)
  moreover have "vf_nodes ?v ''/ctl/status'' \<noteq> None" by simp
  moreover have "normalize ''/ctl/status'' = child_path (normalize (normalize ''/ctl'')) ''status''"
    by (simp add: seed_paths child_path_def)
  moreover have "is_dir (Dir ''/ctl'' 0)" by simp
  moreover have "''status'' \<noteq> ''''" and "CHR ''/'' \<notin> set ''status''" by simp_all
  ultimately show ?thesis
    using vfs_list_exact [OF i, of "''/ctl''" "''status''" "[]"] by blast
qed

text \<open>
  Unmounting an agent removes exactly the nodes at and below its namespace directory, whatever the
  order in which the map is visited and whichever locks are taken; agents whose names merely begin
  the same keep everything, and the remaining files and control files keep their contents.
\<close>

theorem unmount_exact:
  assumes "iterates ks (vf_nodes v)"
  shows "vf_nodes (unmount_agent_ns lk ks i v) k =
      (if k = ''/net/'' @ i \<or> (\<exists>s. k = ''/net/'' @ i @ ''/'' @ s) then None else vf_nodes v k)"
  by (auto simp: unmount_nodes [OF assms] retain_def starts_with_iff split: option.split)

theorem unmount_exact_witness:
  "vf_nodes (unmount_agent_ns (\<lambda>_. False) [''/net/a'', ''/net/ab''] ''a''
     \<lparr>vf_nodes = [''/net/a'' \<mapsto> Symlink ''x'', ''/net/ab'' \<mapsto> Symlink ''y''], vf_heap = Map.empty, vf_next = 0\<rparr>)
     ''/net/ab'' = Some (Symlink ''y'')"
proof -
  have "iterates [''/net/a'', ''/net/ab''] (vf_nodes \<lparr>vf_nodes = [''/net/a'' \<mapsto> Symlink ''x'',
      ''/net/ab'' \<mapsto> Symlink ''y''], vf_heap = Map.empty, vf_next = 0\<rparr>)"
    by (auto simp: iterates_def)
  from unmount_exact [OF this, of "\<lambda>_. False" "''a''" "''/net/ab''"] show ?thesis by simp
qed

end
