(* ===== verification/Delivery.thy ===== *)
theory Delivery
  imports MsgQueue Vfs "HOL-Library.Multiset"
begin

text \<open>
  What happens to a routed message. The WebSocket transport (\<open>src/net/transport.rs\<close>), the REST handlers
  of \<open>src/daemon.rs\<close> and \<open>src/api.rs\<close> and the RPC handler of \<open>src/daemon.rs\<close> each contain their own copy of
  the code that hands a message to an agent's channel or stores it; the copies differ in what they do
  when the channel no longer accepts. Their shared contract is the locale \<open>delivery\<close>; the copies that
  never lose a message satisfy the stronger \<open>lossless_delivery\<close>. The argument \<open>ok\<close> says whether the
  channel's receiver is still there, \<open>now\<close> is the time of a queued message.
\<close>

section \<open>The destination\<close>

text \<open>\<open>dest.starts_with("/net/")\<close>, then the third part of \<open>dest.split('/')\<close>.\<close>

definition target_agent :: "string \<Rightarrow> string option" where
  "target_agent dest =
     (if starts_with dest ''/net/''
      then (let parts = split_slash dest
            in if 3 \<le> length parts then Some (parts ! 2) else None)
      else None)"

lemma target_agent_net:
  "CHR ''/'' \<notin> set k \<Longrightarrow> target_agent (''/net/'' @ k) = Some k"
  "CHR ''/'' \<notin> set k \<Longrightarrow> target_agent (''/net/'' @ k @ ''/'' @ rest) = Some k"
proof -
  assume k: "CHR ''/'' \<notin> set k"
  show "target_agent (''/net/'' @ k) = Some k"
    using split_slash_part [OF k] by (simp add: target_agent_def starts_with_def)
  show "target_agent (''/net/'' @ k @ ''/'' @ rest) = Some k"
    using split_slash_append [OF k, of rest] by (simp add: target_agent_def starts_with_def)
qed

lemma target_agent_other: "\<not> starts_with dest ''/net/'' \<Longrightarrow> target_agent dest = None"
  by (simp add: target_agent_def)

section \<open>The copies\<close>

type_synonym sends = "(chan_id \<times> protocol_op) list"

text \<open>\<open>handle_op\<close> and \<open>api::send_message\<close>: a failed send is ignored.\<close>

definition deliver_ignoring ::
    "agent_registry \<Rightarrow> message_queue \<Rightarrow> datetime \<Rightarrow> bool \<Rightarrow> string \<Rightarrow> message \<Rightarrow> message_queue \<times> sends" where
  "deliver_ignoring reg mq now ok dest msg =
     (case target_agent dest of
        None \<Rightarrow> (mq, [])
      | Some target \<Rightarrow>
          (case agents_get reg target of
             Some a \<Rightarrow>
               (case ag_tx a of
                  Some tx \<Rightarrow> (mq, if ok then [(tx, OpMessage msg)] else [])
                | None \<Rightarrow> (mq, []))
           | None \<Rightarrow> (enqueue mq now target msg, [])))"

text \<open>\<open>daemon::msg_handler\<close>: a failed send queues the message.\<close>

definition deliver_requeue ::
    "agent_registry \<Rightarrow> message_queue \<Rightarrow> datetime \<Rightarrow> bool \<Rightarrow> string \<Rightarrow> message \<Rightarrow> message_queue \<times> sends" where
  "deliver_requeue reg mq now ok dest msg =
     (case target_agent dest of
        None \<Rightarrow> (mq, [])
      | Some target \<Rightarrow>
          (case agents_get reg target of
             Some a \<Rightarrow>
               (case ag_tx a of
                  Some tx \<Rightarrow>
                    if ok then (mq, [(tx, OpMessage msg)]) else (enqueue mq now target msg, [])
                | None \<Rightarrow> (mq, []))
           | None \<Rightarrow> (enqueue mq now target msg, [])))"

text \<open>\<open>daemon::grpc_handler\<close>: whatever was not sent is queued.\<close>

definition deliver_rpc ::
    "agent_registry \<Rightarrow> message_queue \<Rightarrow> datetime \<Rightarrow> bool \<Rightarrow> string \<Rightarrow> message \<Rightarrow> message_queue \<times> sends" where
  "deliver_rpc reg mq now ok dest msg =
     (case target_agent dest of
        None \<Rightarrow> (mq, [])
      | Some target \<Rightarrow>
          (let tx = Option.bind (agents_get reg target) ag_tx;
               sent = (case tx of Some c \<Rightarrow> ok | None \<Rightarrow> False)
           in if sent then (mq, [(the tx, OpMessage msg)]) else (enqueue mq now target msg, [])))"

section \<open>The contract\<close>

text \<open>
  A delivery touches the queue of the agent it is for only, and either leaves that queue as it is and
  sends at most the one frame, on the channel that agent is registered with, or appends the message to
  the queue and sends nothing.
\<close>

definition queued_now :: "datetime \<Rightarrow> message \<Rightarrow> queued_message" where
  "queued_now now msg = \<lparr>qm_msg = msg, qm_enqueued_at = now, qm_retries = 0\<rparr>"

lemma queue_of_enqueue:
  "queue_of (enqueue mq now k msg) j = (if j = k then queue_of mq j @ [queued_now now msg] else queue_of mq j)"
  by (simp add: queue_of_def enqueue_def entry_or_def queued_now_def)

text \<open>One message to deliver: the time, whether the send will succeed, the destination, the message.\<close>

record parcel =
  pc_now :: datetime
  pc_ok :: bool
  pc_dest :: string
  pc_msg :: message

type_synonym deliverer =
  "agent_registry \<Rightarrow> message_queue \<Rightarrow> datetime \<Rightarrow> bool \<Rightarrow> string \<Rightarrow> message \<Rightarrow> message_queue \<times> sends"

fun deliver_all :: "deliverer \<Rightarrow> agent_registry \<Rightarrow> message_queue \<Rightarrow> parcel list \<Rightarrow> message_queue \<times> sends list" where
  "deliver_all deliver reg mq [] = (mq, [])"
| "deliver_all deliver reg mq (p # ps) =
     (let (mq1, s) = deliver reg mq (pc_now p) (pc_ok p) (pc_dest p) (pc_msg p);
          (mq2, ss) = deliver_all deliver reg mq1 ps
      in (mq2, s # ss))"

text \<open>The frames sent for agent \<open>k\<close>, and the messages that were meant for it.\<close>

definition frames_for :: "string \<Rightarrow> parcel list \<Rightarrow> sends list \<Rightarrow> sends" where
  "frames_for k ps ss = concat (for_key (Some k) (zip (map (\<lambda>p. target_agent (pc_dest p)) ps) ss))"

definition meant_for :: "string \<Rightarrow> parcel list \<Rightarrow> protocol_op list" where
  "meant_for k ps = map (\<lambda>p. OpMessage (pc_msg p)) (filter (\<lambda>p. target_agent (pc_dest p) = Some k) ps)"

lemma frames_for_cons [simp]:
  "frames_for k [] [] = []"
  "frames_for k (p # ps) (s # ss) =
     (if target_agent (pc_dest p) = Some k then s @ frames_for k ps ss else frames_for k ps ss)"
  by (simp_all add: frames_for_def)

lemma meant_for_cons [simp]:
  "meant_for k [] = []"
  "meant_for k (p # ps) =
     (if target_agent (pc_dest p) = Some k then OpMessage (pc_msg p) # meant_for k ps else meant_for k ps)"
  by (simp_all add: meant_for_def)

locale delivery =
  fixes deliver :: deliverer
  assumes no_target: "target_agent dest = None \<Longrightarrow> deliver reg mq now ok dest msg = (mq, [])"
    and for_target: "target_agent dest = Some k \<Longrightarrow>
      deliver reg mq now ok dest msg = (enqueue mq now k msg, []) \<or>
      deliver reg mq now ok dest msg = (mq, []) \<or>
      (\<exists>a c. reg k = Some a \<and> ag_tx a = Some c \<and>
        deliver reg mq now ok dest msg = (mq, [(c, OpMessage msg)]))"
    and unregistered: "target_agent dest = Some k \<Longrightarrow> reg k = None \<Longrightarrow>
      deliver reg mq now ok dest msg = (enqueue mq now k msg, [])"
    and connected: "target_agent dest = Some k \<Longrightarrow> reg k = Some a \<Longrightarrow> ag_tx a = Some c \<Longrightarrow>
      deliver reg mq now True dest msg = (mq, [(c, OpMessage msg)])"
begin

lemma other_queues:
  "target_agent dest \<noteq> Some k \<Longrightarrow> queue_of (fst (deliver reg mq now ok dest msg)) k = queue_of mq k"
  using no_target [of dest reg mq now ok msg] for_target [of dest _ reg mq now ok msg]
  by (cases "target_agent dest") (force simp: queue_of_enqueue)+

lemma own_queue:
  assumes "target_agent dest = Some k"
  shows "mset (map snd (snd (deliver reg mq now ok dest msg)))
      + mset (queued_ops (queue_of (fst (deliver reg mq now ok dest msg)) k))
    \<subseteq># mset (queued_ops (queue_of mq k)) + {#OpMessage msg#}"
  using for_target [OF assms, of reg mq now ok msg] by (auto simp: queue_of_enqueue queued_now_def)

lemma never_duplicates:
  "mset (map snd (frames_for k ps (snd (deliver_all deliver reg mq ps))))
     + mset (queued_ops (queue_of (fst (deliver_all deliver reg mq ps)) k))
   \<subseteq># mset (queued_ops (queue_of mq k)) + mset (meant_for k ps)"
proof (induction ps arbitrary: mq)
  case (Cons p ps)
  let ?d = "deliver reg mq (pc_now p) (pc_ok p) (pc_dest p) (pc_msg p)"
  have step: "mset (map snd (frames_for k ps (snd (deliver_all deliver reg (fst ?d) ps))))
      + mset (queued_ops (queue_of (fst (deliver_all deliver reg (fst ?d) ps)) k))
    \<subseteq># mset (queued_ops (queue_of (fst ?d) k)) + mset (meant_for k ps)"
    by (rule Cons.IH)
  show ?case
  proof (cases "target_agent (pc_dest p) = Some k")
    case True
    have "mset (map snd (snd ?d)) + (mset (queued_ops (queue_of (fst ?d) k)) + mset (meant_for k ps))
        \<subseteq># mset (queued_ops (queue_of mq k)) + {#OpMessage (pc_msg p)#} + mset (meant_for k ps)"
      using own_queue [OF True, of reg mq "pc_now p" "pc_ok p" "pc_msg p"]
      by (metis add.assoc subset_mset.add_right_mono)
    then have "mset (map snd (snd ?d)) + (mset (map snd (frames_for k ps (snd (deliver_all deliver reg (fst ?d) ps))))
        + mset (queued_ops (queue_of (fst (deliver_all deliver reg (fst ?d) ps)) k)))
        \<subseteq># mset (queued_ops (queue_of mq k)) + {#OpMessage (pc_msg p)#} + mset (meant_for k ps)"
      by (rule subset_mset.order_trans [OF subset_mset.add_left_mono [OF step]])
    then show ?thesis using True by (simp add: split_beta Let_def ac_simps)
  next
    case False
    then show ?thesis using step other_queues [OF False] by (simp add: split_beta Let_def)
  qed
qed simp

end

locale lossless_delivery = delivery +
  assumes closed_channel: "target_agent dest = Some k \<Longrightarrow> reg k = Some a \<Longrightarrow> ag_tx a = Some c \<Longrightarrow>
    deliver reg mq now False dest msg = (enqueue mq now k msg, [])"
begin

lemma own_queue_exact:
  assumes "target_agent dest = Some k" and "\<And>a. reg k = Some a \<Longrightarrow> ag_tx a \<noteq> None"
  shows "mset (map snd (snd (deliver reg mq now ok dest msg)))
      + mset (queued_ops (queue_of (fst (deliver reg mq now ok dest msg)) k))
    = mset (queued_ops (queue_of mq k)) + {#OpMessage msg#}"
proof (cases "reg k")
  case None
  then show ?thesis by (simp add: unregistered [OF assms(1)] queue_of_enqueue queued_now_def)
next
  case (Some a)
  then obtain c where c: "ag_tx a = Some c" using assms(2) by blast
  show ?thesis
    by (cases ok) (simp_all add: connected [where k = k and reg = reg, OF assms(1) Some c]
        closed_channel [where k = k and reg = reg, OF assms(1) Some c]
        queue_of_enqueue queued_now_def)
qed

lemma never_loses:
  assumes "\<And>a. reg k = Some a \<Longrightarrow> ag_tx a \<noteq> None"
  shows "mset (map snd (frames_for k ps (snd (deliver_all deliver reg mq ps))))
      + mset (queued_ops (queue_of (fst (deliver_all deliver reg mq ps)) k))
    = mset (queued_ops (queue_of mq k)) + mset (meant_for k ps)"
proof (induction ps arbitrary: mq)
  case (Cons p ps)
  let ?d = "deliver reg mq (pc_now p) (pc_ok p) (pc_dest p) (pc_msg p)"
  note ih = Cons.IH [of "fst ?d"]
  show ?case
  proof (cases "target_agent (pc_dest p) = Some k")
    case True
    have own: "mset (map snd (snd ?d)) + mset (queued_ops (queue_of (fst ?d) k))
        = mset (queued_ops (queue_of mq k)) + {#OpMessage (pc_msg p)#}"
      by (rule own_queue_exact [OF True]) (rule assms)
    have "mset (map snd (snd ?d)) + (mset (map snd (frames_for k ps (snd (deliver_all deliver reg (fst ?d) ps))))
        + mset (queued_ops (queue_of (fst (deliver_all deliver reg (fst ?d) ps)) k)))
      = mset (queued_ops (queue_of mq k)) + {#OpMessage (pc_msg p)#} + mset (meant_for k ps)"
      unfolding ih add.assoc [symmetric] own ..
    then show ?thesis using True by (simp add: split_beta Let_def ac_simps)
  next
    case False
    then show ?thesis using ih other_queues [OF False] by (simp add: split_beta Let_def)
  qed
qed simp

end

interpretation ignoring: delivery deliver_ignoring
  by unfold_locales (auto simp: deliver_ignoring_def agents_get_def split: option.splits)

interpretation requeue: lossless_delivery deliver_requeue
  by unfold_locales (auto simp: deliver_requeue_def agents_get_def split: option.splits)

interpretation rpc: lossless_delivery deliver_rpc
  by unfold_locales (auto simp: deliver_rpc_def agents_get_def Let_def bind_eq_Some_conv split: option.splits)

section \<open>Properties\<close>

text \<open>
  The REST handler and the RPC handler of the daemon lose nothing and duplicate nothing: over any
  sequence of deliveries, with channels that fail at any point, the frames sent to an agent and the
  messages queued for it are together exactly the messages that were queued before and those meant for
  it, provided a registered agent has a channel.
\<close>

theorem delivery_conserves:
  assumes "d = deliver_requeue \<or> d = deliver_rpc"
    and "\<And>a. reg k = Some a \<Longrightarrow> ag_tx a \<noteq> None"
  shows "mset (map snd (frames_for k ps (snd (deliver_all d reg mq ps))))
      + mset (queued_ops (queue_of (fst (deliver_all d reg mq ps)) k))
    = mset (queued_ops (queue_of mq k)) + mset (meant_for k ps)"
  using assms(1) requeue.never_loses [OF assms(2)] rpc.never_loses [OF assms(2)] by blast

definition parcel_to :: "string \<Rightarrow> bool \<Rightarrow> string \<Rightarrow> parcel" where
  "parcel_to k ok ty = \<lparr>pc_now = 0, pc_ok = ok, pc_dest = ''/net/'' @ k, pc_msg = a_note ty\<rparr>"

theorem delivery_conserves_witness:
  "mset (map snd (frames_for ''a'' [parcel_to ''a'' False ''x'', parcel_to ''a'' True ''y'']
       (snd (deliver_all deliver_rpc [''a'' \<mapsto> (sample_agent ''a'' 0)\<lparr>ag_tx := Some 4\<rparr>] queue_new
         [parcel_to ''a'' False ''x'', parcel_to ''a'' True ''y'']))))
    + mset (queued_ops (queue_of (fst (deliver_all deliver_rpc
         [''a'' \<mapsto> (sample_agent ''a'' 0)\<lparr>ag_tx := Some 4\<rparr>] queue_new
         [parcel_to ''a'' False ''x'', parcel_to ''a'' True ''y''])) ''a''))
   = {#OpMessage (a_note ''x''), OpMessage (a_note ''y'')#}"
proof -
  have t: "target_agent (pc_dest (parcel_to ''a'' ok ty)) = Some ''a''" for ok ty
    using target_agent_net(1) [of "''a''"] by (simp add: parcel_to_def)
  show ?thesis
  proof (rule trans [OF delivery_conserves [OF disjI2 [OF refl]]])
    show "ag_tx b \<noteq> None" if "[''a'' \<mapsto> (sample_agent ''a'' 0)\<lparr>ag_tx := Some 4\<rparr>] ''a'' = Some b" for b
      using that by auto
  qed (simp add: t, simp add: parcel_to_def)
qed

lemma deliver_ignoring_own:
  assumes "target_agent dest = Some k" and "\<And>a. reg k = Some a \<Longrightarrow> ag_tx a \<noteq> None"
  shows "mset (map snd (snd (deliver_ignoring reg mq now ok dest msg)))
      + mset (queued_ops (queue_of (fst (deliver_ignoring reg mq now ok dest msg)) k))
    = mset (queued_ops (queue_of mq k)) + (if reg k = None \<or> ok then {#OpMessage msg#} else {#})"
proof (cases "reg k")
  case None
  then show ?thesis
    by (simp add: deliver_ignoring_def assms(1) agents_get_def queue_of_enqueue queued_now_def)
next
  case (Some a)
  then obtain c where "ag_tx a = Some c" using assms(2) by blast
  with Some show ?thesis by (simp add: deliver_ignoring_def assms(1) agents_get_def)
qed

text \<open>
  The WebSocket transport and the public REST API never duplicate a message, but they lose exactly
  those meant for an agent that is still registered although its channel has closed: what is sent or
  queued is what the sender of the message could reach or what was meant for an unregistered agent.
\<close>

theorem delivery_ignoring_loses:
  assumes "\<And>a. reg k = Some a \<Longrightarrow> ag_tx a \<noteq> None"
  shows "mset (map snd (frames_for k ps (snd (deliver_all deliver_ignoring reg mq ps))))
      + mset (queued_ops (queue_of (fst (deliver_all deliver_ignoring reg mq ps)) k))
    = mset (queued_ops (queue_of mq k)) + mset (meant_for k (filter (\<lambda>p. reg k = None \<or> pc_ok p) ps))"
proof (induction ps arbitrary: mq)
  case (Cons p ps)
  let ?d = "deliver_ignoring reg mq (pc_now p) (pc_ok p) (pc_dest p) (pc_msg p)"
  note ih = Cons.IH [of "fst ?d"]
  show ?case
  proof (cases "target_agent (pc_dest p) = Some k")
    case True
    have own: "mset (map snd (snd ?d)) + mset (queued_ops (queue_of (fst ?d) k))
        = mset (queued_ops (queue_of mq k)) + (if reg k = None \<or> pc_ok p then {#OpMessage (pc_msg p)#} else {#})"
      by (rule deliver_ignoring_own [OF True]) (rule assms)
    have "mset (map snd (snd ?d)) + (mset (map snd (frames_for k ps (snd (deliver_all deliver_ignoring reg (fst ?d) ps))))
        + mset (queued_ops (queue_of (fst (deliver_all deliver_ignoring reg (fst ?d) ps)) k)))
      = mset (queued_ops (queue_of mq k)) + (if reg k = None \<or> pc_ok p then {#OpMessage (pc_msg p)#} else {#})
        + mset (meant_for k (filter (\<lambda>p. reg k = None \<or> pc_ok p) ps))"
      unfolding ih add.assoc [symmetric] own ..
    then show ?thesis using True by (simp add: split_beta Let_def ac_simps)
  next
    case False
    then show ?thesis using ih ignoring.other_queues [OF False] by (simp add: split_beta Let_def)
  qed
qed simp

theorem delivery_ignoring_loses_witness:
  "mset (map snd (frames_for ''a'' [parcel_to ''a'' False ''x'']
       (snd (deliver_all deliver_ignoring [''a'' \<mapsto> (sample_agent ''a'' 0)\<lparr>ag_tx := Some 4\<rparr>] queue_new
         [parcel_to ''a'' False ''x'']))))
    + mset (queued_ops (queue_of (fst (deliver_all deliver_ignoring
         [''a'' \<mapsto> (sample_agent ''a'' 0)\<lparr>ag_tx := Some 4\<rparr>] queue_new
         [parcel_to ''a'' False ''x''])) ''a''))
   = {#}"
proof (rule trans [OF delivery_ignoring_loses])
  show "ag_tx b \<noteq> None" if "[''a'' \<mapsto> (sample_agent ''a'' 0)\<lparr>ag_tx := Some 4\<rparr>] ''a'' = Some b" for b
    using that by auto
qed (simp add: parcel_to_def)

end
