(* ===== verification/Plumber.thy ===== *)
theory Plumber
  imports Message "HOL-Library.Multiset"
begin

text \<open>
  The content-based routing rules of \<open>src/plumber.rs\<close>. The regular expressions of the \<open>regex\<close> crate
  and the text form of a \<open>serde_json\<close> value are parameters, the fields of \<open>text_lib\<close>; nothing is assumed
  of them. The header constraints of a rule are a hash map, given as the list of its entries in the
  order in which the map is iterated. Priorities (\<open>i32\<close>) are compared only, so they are integers.
\<close>

section \<open>Rules and operations\<close>

record 're text_lib =
  regex_new :: "string \<Rightarrow> string + 're"
  is_match :: "'re \<Rightarrow> string \<Rightarrow> bool"
  show_json :: "json \<Rightarrow> string"

record 're plumber_rule =
  pr_name :: string
  pr_pattern :: 're
  pr_destination :: string
  pr_priority :: int
  pr_header_match :: "(string \<times> string) list option"

type_synonym 're plumber = "'re plumber_rule list"

text \<open>A rule as the configuration file gives it, \<open>src/config.rs\<close>.\<close>

record rule_config =
  rc_name :: string
  rc_pattern :: string
  rc_destination :: string
  rc_priority :: int
  rc_header_match :: "(string \<times> string) list option"

definition plumber_new :: "'re plumber" where
  "plumber_new = []"

definition add_rule ::
    "'re text_lib \<Rightarrow> 're plumber \<Rightarrow> string \<Rightarrow> string \<Rightarrow> string \<Rightarrow> int \<Rightarrow> (string \<times> string) list option \<Rightarrow>
     're plumber \<times> unit result" where
  "add_rule lib rules name pattern destination priority header_match =
     (case regex_new lib pattern of
        Inl e \<Rightarrow> (rules, Inl e)
      | Inr re \<Rightarrow>
          (sort_key (\<lambda>b. - pr_priority b)
             (rules @ [\<lparr>pr_name = name, pr_pattern = re, pr_destination = destination,
                        pr_priority = priority, pr_header_match = header_match\<rparr>]), Inr ()))"

definition haystack :: "'re text_lib \<Rightarrow> message \<Rightarrow> string" where
  "haystack lib msg =
     ''type:'' @ m_msg_type msg @ '' sender:'' @ m_sender msg @ '' path:'' @ m_path msg @
     '' data:'' @ show_json lib (m_data msg)"

fun headers_match :: "(string \<times> string) list \<Rightarrow> (string \<rightharpoonup> string) \<Rightarrow> bool" where
  "headers_match [] hs = True"
| "headers_match ((key, v) # rest) hs =
     (case hs key of
        Some header_value \<Rightarrow> if header_value = v then headers_match rest hs else False
      | None \<Rightarrow> False)"

definition matches :: "'re text_lib \<Rightarrow> 're plumber_rule \<Rightarrow> message \<Rightarrow> bool" where
  "matches lib rule msg =
     (if \<not> is_match lib (pr_pattern rule) (haystack lib msg) then False
      else case pr_header_match rule of
             Some headers \<Rightarrow> headers_match headers (m_headers msg)
           | None \<Rightarrow> True)"

fun matching_destinations :: "'re text_lib \<Rightarrow> 're plumber \<Rightarrow> message \<Rightarrow> string list" where
  "matching_destinations lib [] msg = []"
| "matching_destinations lib (rule # rules) msg =
     (if matches lib rule msg
      then pr_destination rule # matching_destinations lib rules msg
      else matching_destinations lib rules msg)"

definition plumber_route :: "'re text_lib \<Rightarrow> 're plumber \<Rightarrow> message \<Rightarrow> string list" where
  "plumber_route lib rules msg =
     (let destinations = matching_destinations lib rules msg
      in if destinations = [] then [''/proc/log''] else destinations)"

fun load_from_config ::
    "'re text_lib \<Rightarrow> 're plumber \<Rightarrow> rule_config list \<Rightarrow> 're plumber \<times> unit result" where
  "load_from_config lib rules [] = (rules, Inr ())"
| "load_from_config lib rules (r # rs) =
     (case add_rule lib rules (rc_name r) (rc_pattern r) (rc_destination r) (rc_priority r)
             (rc_header_match r) of
        (rules', Inl e) \<Rightarrow> (rules', Inl e)
      | (rules', Inr u) \<Rightarrow> load_from_config lib rules' rs)"

definition list_rules :: "'re plumber \<Rightarrow> (string \<times> string \<times> int) list" where
  "list_rules rules = map (\<lambda>r. (pr_name r, pr_destination r, pr_priority r)) rules"

section \<open>Stable insertion\<close>

lemma sort_key_absorb: "sort_key f (sort_key f xs @ ys) = sort_key f (xs @ ys)"
proof (rule properties_for_sort_key)
  show "mset (sort_key f (xs @ ys)) = mset (sort_key f xs @ ys)" by simp
  show "filter (\<lambda>y. f x = f y) (sort_key f (xs @ ys)) = filter (\<lambda>y. f x = f y) (sort_key f xs @ ys)" for x
    using sort_key_stable [of f "f x" xs] sort_key_stable [of f "f x" "xs @ ys"]
    by (simp add: eq_commute [of _ "f x"])
qed simp

text \<open>The rule that a valid configuration entry becomes.\<close>

definition compiled :: "'re text_lib \<Rightarrow> rule_config \<Rightarrow> 're plumber_rule" where
  "compiled lib r =
     \<lparr>pr_name = rc_name r, pr_pattern = projr (regex_new lib (rc_pattern r)),
      pr_destination = rc_destination r, pr_priority = rc_priority r,
      pr_header_match = rc_header_match r\<rparr>"

definition valid_rule :: "'re text_lib \<Rightarrow> rule_config \<Rightarrow> bool" where
  "valid_rule lib r = is_ok (regex_new lib (rc_pattern r))"

lemma load_step:
  "load_from_config lib rules (r # rs) =
     (case regex_new lib (rc_pattern r) of
        Inl e \<Rightarrow> (rules, Inl e)
      | Inr re \<Rightarrow>
          load_from_config lib (sort_key (\<lambda>b. - pr_priority b) (rules @ [compiled lib r])) rs)"
  by (simp add: add_rule_def compiled_def split: sum.splits)

lemma load_from_config_spec:
  "load_from_config lib (sort_key (\<lambda>b. - pr_priority b) rules) rs =
     (sort_key (\<lambda>b. - pr_priority b) (rules @ map (compiled lib) (takeWhile (valid_rule lib) rs)),
      case dropWhile (valid_rule lib) rs of
        [] \<Rightarrow> Inr ()
      | r # _ \<Rightarrow> Inl (projl (regex_new lib (rc_pattern r))))"
proof (induction rs arbitrary: rules)
  case (Cons r rs)
  show ?case
  proof (cases "regex_new lib (rc_pattern r)")
    case (Inl e)
    then show ?thesis by (simp add: load_step valid_rule_def del: load_from_config.simps(2))
  next
    case (Inr re)
    have "valid_rule lib r" by (simp add: valid_rule_def Inr)
    then show ?thesis using Inr Cons.IH [of "rules @ [compiled lib r]"]
      by (simp add: load_step sort_key_absorb del: load_from_config.simps(2))
  qed
qed simp

lemma headers_match_iff:
  "headers_match hm hs \<longleftrightarrow> (\<forall>(key, v) \<in> set hm. hs key = Some v)"
  by (induction hm) (auto split: option.splits if_splits)

lemma matching_destinations_eq:
  "matching_destinations lib rules msg = map pr_destination (filter (\<lambda>r. matches lib r msg) rules)"
  by (induction rules) auto

lemma plumber_route_nonempty: "plumber_route lib rules msg \<noteq> []"
  by (simp add: plumber_route_def Let_def)

section \<open>Properties\<close>

text \<open>
  Loading a configuration adds the rules up to the first invalid pattern and reports that
  pattern's error, or adds all and succeeds. The rules that result, sorted once per rule as they were
  added, are the rules sorted by descending priority all at once: rules of one priority stay in the
  order of the file.
\<close>

theorem plumber_load_spec:
  "load_from_config lib plumber_new rs =
     (sort_key (\<lambda>b. - pr_priority b) (map (compiled lib) (takeWhile (valid_rule lib) rs)),
      case dropWhile (valid_rule lib) rs of
        [] \<Rightarrow> Inr ()
      | r # _ \<Rightarrow> Inl (projl (regex_new lib (rc_pattern r))))"
  using load_from_config_spec [of lib "[]" rs] by (simp add: plumber_new_def)

text \<open>
  A message routed by a loaded configuration goes to the destinations of exactly the rules whose
  pattern matches its canonical text and whose header constraints its headers all meet, by descending
  priority and otherwise in the order of the file; when there is none, to the log alone.
\<close>

theorem plumber_route_spec:
  assumes "snd (load_from_config lib plumber_new rs) = Inr ()"
  shows "plumber_route lib (fst (load_from_config lib plumber_new rs)) msg =
    (let ds = map rc_destination (filter (\<lambda>r.
           is_match lib (projr (regex_new lib (rc_pattern r))) (haystack lib msg) \<and>
           (\<forall>hm. rc_header_match r = Some hm \<longrightarrow> (\<forall>(key, v) \<in> set hm. m_headers msg key = Some v)))
         (sort_key (\<lambda>r. - rc_priority r) rs))
     in if ds = [] then [''/proc/log''] else ds)"
proof -
  have all: "takeWhile (valid_rule lib) rs = rs"
  proof -
    have "dropWhile (valid_rule lib) rs = []"
      using assms load_from_config_spec [of lib "[]" rs]
      by (simp add: plumber_new_def split: list.splits)
    then show ?thesis by (metis append.right_neutral takeWhile_dropWhile_id)
  qed
  have rules: "fst (load_from_config lib plumber_new rs)
      = map (compiled lib) (sort_key (\<lambda>r. - rc_priority r) rs)"
    using load_from_config_spec [of lib "[]" rs]
    by (simp add: plumber_new_def all sort_key_map compiled_def)
  have "matches lib (compiled lib r) msg \<longleftrightarrow>
      is_match lib (projr (regex_new lib (rc_pattern r))) (haystack lib msg) \<and>
      (\<forall>hm. rc_header_match r = Some hm \<longrightarrow> (\<forall>(key, v) \<in> set hm. m_headers msg key = Some v))" for r
    by (simp add: matches_def compiled_def headers_match_iff split: option.splits)
  then show ?thesis
    by (simp add: plumber_route_def matching_destinations_eq rules filter_map comp_def compiled_def)
qed

text \<open>A library in which a pattern matches the texts it is a prefix of and a lone star is refused.\<close>

definition prefix_lib :: "string text_lib" where
  "prefix_lib =
     \<lparr>regex_new = (\<lambda>p. if p = ''*'' then Inl ''repetition operator missing expression'' else Inr p),
      is_match = (\<lambda>p s. starts_with s p), show_json = (\<lambda>_. ''null'')\<rparr>"

theorem plumber_route_spec_witness:
  "plumber_route prefix_lib (fst (load_from_config prefix_lib plumber_new
      [\<lparr>rc_name = ''low'', rc_pattern = ''type:note'', rc_destination = ''/low'', rc_priority = 10,
         rc_header_match = None\<rparr>,
       \<lparr>rc_name = ''ask'', rc_pattern = ''type:ask'', rc_destination = ''/ask'', rc_priority = 50,
         rc_header_match = None\<rparr>,
       \<lparr>rc_name = ''high'', rc_pattern = ''type:'', rc_destination = ''/high'', rc_priority = 100,
         rc_header_match = Some [(''k'', ''v'')]\<rparr>]))
     (with_header (message_new 1 2 0 ''me'' ''/p'' ''note'') ''k'' ''v'') = [''/high'', ''/low'']"
proof -
  let ?rs = "[\<lparr>rc_name = ''low'', rc_pattern = ''type:note'', rc_destination = ''/low'', rc_priority = 10,
         rc_header_match = None\<rparr>,
       \<lparr>rc_name = ''ask'', rc_pattern = ''type:ask'', rc_destination = ''/ask'', rc_priority = 50,
         rc_header_match = None\<rparr>,
       \<lparr>rc_name = ''high'', rc_pattern = ''type:'', rc_destination = ''/high'', rc_priority = 100,
         rc_header_match = Some [(''k'', ''v'')]\<rparr>]"
  have "snd (load_from_config prefix_lib plumber_new ?rs) = Inr ()"
    by (simp add: load_step prefix_lib_def del: load_from_config.simps(2))
  from plumber_route_spec [OF this] show ?thesis
    by (simp add: prefix_lib_def haystack_def starts_with_def with_header_def message_new_def Let_def)
qed

end
