(* ===== verification/Entangle.thy ===== *)
theory Entangle
  imports Message
begin

text \<open>
  The correlations between endpoints of \<open>src/quantum/entanglement.rs\<close>. Its \<open>f64\<close> numbers are real
  numbers here and in the two theories that build on it: the rounding of floating point is left out of
  the quantum router's model.
\<close>

section \<open>State and operations\<close>

record conversation_correlations =
  cc_map :: "(string \<times> string, real) dashmap"
  cc_last_active :: datetime

type_synonym entanglement_table = "(uuid, conversation_correlations) dashmap"

definition entanglement_new :: entanglement_table where
  "entanglement_new = Map.empty"

text \<open>\<open>DateTime<Utc>::default()\<close> is the Unix epoch.\<close>

definition correlations_default :: conversation_correlations where
  "correlations_default = \<lparr>cc_map = Map.empty, cc_last_active = 0\<rparr>"

definition ordered_key :: "string \<Rightarrow> string \<Rightarrow> string \<times> string" where
  "ordered_key a b = (if a < b then (a, b) else (b, a))"

definition record_pair ::
    "entanglement_table \<Rightarrow> datetime \<Rightarrow> uuid \<Rightarrow> string \<Rightarrow> string \<Rightarrow> real \<Rightarrow> entanglement_table" where
  "record_pair tbl now conversation_id endpoint_a endpoint_b reward =
     (let conv = (entry_or tbl conversation_id correlations_default)\<lparr>cc_last_active := now\<rparr>;
          key = ordered_key endpoint_a endpoint_b;
          entry = entry_or (cc_map conv) key 0
      in tbl(conversation_id \<mapsto>
           conv\<lparr>cc_map := (cc_map conv)(key \<mapsto> entry * (9 / 10) + reward * (1 / 10))\<rparr>))"

definition get_correlation :: "entanglement_table \<Rightarrow> uuid \<Rightarrow> string \<Rightarrow> string \<Rightarrow> real" where
  "get_correlation tbl conversation_id endpoint_a endpoint_b =
     (case tbl conversation_id of
        None \<Rightarrow> 0
      | Some conv \<Rightarrow>
          (case cc_map conv (ordered_key endpoint_a endpoint_b) of None \<Rightarrow> 0 | Some c \<Rightarrow> c))"

text \<open>\<open>let sum = ..; if sum > 0.0 { for p in .. { *p /= sum } }\<close>, which three functions do.\<close>

definition renormalize :: "('a \<times> real) list \<Rightarrow> ('a \<times> real) list" where
  "renormalize distr =
     (let s = sum_list (map snd distr)
      in if s > 0 then map (\<lambda>(ep, p). (ep, p / s)) distr else distr)"

definition apply_entanglement ::
    "entanglement_table \<Rightarrow> uuid \<Rightarrow> string option \<Rightarrow> (string \<times> real) list \<Rightarrow> real \<Rightarrow> (string \<times> real) list" where
  "apply_entanglement tbl conversation_id previous_endpoint distribution strength =
     (case previous_endpoint of
        None \<Rightarrow> distribution
      | Some prev \<Rightarrow> renormalize (map (\<lambda>(ep, prob).
          (ep, prob * (1 + get_correlation tbl conversation_id prev ep * strength))) distribution))"

definition correlations_stale :: "int \<Rightarrow> datetime \<Rightarrow> conversation_correlations \<Rightarrow> bool" where
  "correlations_stale max_age_secs now conv \<longleftrightarrow> num_seconds (now - cc_last_active conv) > max_age_secs"

definition entanglement_prune_old :: "uuid list \<Rightarrow> int \<Rightarrow> datetime \<Rightarrow> entanglement_table \<Rightarrow> entanglement_table" where
  "entanglement_prune_old ks max_age_secs now tbl =
     remove_keys (filter_keys ks (\<lambda>_ conv. correlations_stale max_age_secs now conv) tbl) tbl"

section \<open>Normalised distributions\<close>

lemma member_le_sum_list_nonneg:
  "\<forall>x \<in> set xs. 0 \<le> x \<Longrightarrow> y \<in> set xs \<Longrightarrow> y \<le> (sum_list xs :: real)"
  by (rule member_le_sum_list) auto

lemma renormalize_map_fst [simp]: "map fst (renormalize distr) = map fst distr"
  by (auto simp: renormalize_def Let_def comp_def split_beta)

lemma renormalize_length [simp]: "length (renormalize distr) = length distr"
  by (simp add: renormalize_def Let_def)

lemma sum_list_divide: "sum_list (map (\<lambda>x. f x / (s :: real)) xs) = sum_list (map f xs) / s"
  by (induction xs) (simp_all add: add_divide_distrib)

lemma renormalize_sum:
  "0 < sum_list (map snd distr) \<Longrightarrow> sum_list (map snd (renormalize distr)) = 1"
  by (simp add: renormalize_def Let_def comp_def split_beta sum_list_divide)

lemma renormalize_nonneg:
  "\<forall>p \<in> set (map snd distr). 0 \<le> p \<Longrightarrow> \<forall>p \<in> set (map snd (renormalize distr)). 0 \<le> p"
  by (auto simp: renormalize_def Let_def)

lemma renormalize_normalized: "sum_list (map snd distr) = 1 \<Longrightarrow> renormalize distr = distr"
  by (simp add: renormalize_def Let_def comp_def split_beta)

lemma apply_entanglement_map_fst [simp]:
  "map fst (apply_entanglement tbl cid prev distr strength) = map fst distr"
  by (simp add: apply_entanglement_def comp_def split_beta split: option.splits)

lemma get_correlation_new [simp]: "get_correlation entanglement_new cid a b = 0"
  by (simp add: get_correlation_def entanglement_new_def)

lemma apply_entanglement_new:
  "apply_entanglement entanglement_new cid prev distr strength =
     (if prev = None then distr else renormalize distr)"
  by (simp add: apply_entanglement_def split: option.splits)

section \<open>Correlations\<close>

lemma ordered_key_commute: "ordered_key a b = ordered_key b a"
  by (auto simp: ordered_key_def)

lemma ordered_key_eq_iff:
  "ordered_key a b = ordered_key c d \<longleftrightarrow> (a = c \<and> b = d) \<or> (a = d \<and> b = c)"
  by (auto simp: ordered_key_def)

lemma get_correlation_record:
  "get_correlation (record_pair tbl now cid a b r) cid' c d =
     (if cid' = cid \<and> ordered_key c d = ordered_key a b
      then get_correlation tbl cid' c d * (9 / 10) + r * (1 / 10)
      else get_correlation tbl cid' c d)"
  by (auto simp: get_correlation_def record_pair_def Let_def entry_or_def correlations_default_def
      split: option.splits)

lemma get_correlation_commute: "get_correlation tbl cid a b = get_correlation tbl cid b a"
  by (metis get_correlation_def ordered_key_commute)

text \<open>The exponential moving average of the rewards, the latest first.\<close>

fun moving_average :: "real list \<Rightarrow> real" where
  "moving_average [] = 0"
| "moving_average (r # older) = moving_average older * (9 / 10) + r * (1 / 10)"

definition record_all ::
    "entanglement_table \<Rightarrow> (datetime \<times> uuid \<times> string \<times> string \<times> real) list \<Rightarrow> entanglement_table" where
  "record_all tbl rs = foldl (\<lambda>t (now, cid, a, b, r). record_pair t now cid a b r) tbl rs"

definition pair_rewards ::
    "uuid \<Rightarrow> string \<Rightarrow> string \<Rightarrow> (datetime \<times> uuid \<times> string \<times> string \<times> real) list \<Rightarrow> real list" where
  "pair_rewards cid a b rs =
     map (\<lambda>(now, cid', c, d, r). r)
       (filter (\<lambda>(now, cid', c, d, r). cid' = cid \<and> (c = a \<and> d = b \<or> c = b \<and> d = a)) rs)"

lemma moving_average_bounds:
  "\<forall>r \<in> set rs. 0 \<le> r \<and> r \<le> 1 \<Longrightarrow>
     0 \<le> moving_average rs \<and> moving_average rs \<le> 1 - (9 / 10) ^ length rs"
  by (induction rs) auto

lemma record_all_correlation:
  "get_correlation (record_all entanglement_new rs) cid a b = moving_average (rev (pair_rewards cid a b rs))"
proof (induction rs rule: rev_induct)
  case (snoc x rs)
  obtain now cid' c d r where "x = (now, cid', c, d, r)" by (cases x) auto
  with snoc show ?case
    by (auto simp: record_all_def pair_rewards_def get_correlation_record ordered_key_eq_iff)
qed (simp add: record_all_def pair_rewards_def)

definition entanglement_sweep :: "int \<Rightarrow> datetime \<Rightarrow> entanglement_table \<Rightarrow> entanglement_table" where
  "entanglement_sweep mx now tbl = retain (\<lambda>_ conv. \<not> correlations_stale mx now conv) tbl"

lemma correlations_stale_mono:
  "now \<le> now' \<Longrightarrow> correlations_stale mx now c \<Longrightarrow> correlations_stale mx now' c"
  unfolding correlations_stale_def
  by (meson diff_right_mono num_seconds_mono order_less_le_trans)

interpretation correlations: swept_map "entanglement_sweep mx" "\<lambda>tbl. tbl" "correlations_stale mx" for mx
  by unfold_locales (auto simp: entanglement_sweep_def correlations_stale_mono)

lemma entanglement_prune_sweep:
  "iterates ks tbl \<Longrightarrow> entanglement_prune_old ks mx now tbl = entanglement_sweep mx now tbl"
  by (simp add: entanglement_prune_old_def remove_filtered_keys entanglement_sweep_def)

section \<open>Properties\<close>

text \<open>
  C26. The correlation of two endpoints in a conversation is the exponential moving average (weight one
  tenth) of the rewards recorded for the pair in that conversation, whichever of the two was named
  first; it is symmetric, and with rewards between 0 and 1 it lies between 0 and \<open>1 - 0.9^n\<close> after \<open>n\<close>
  records.
\<close>

theorem correlation_moving_average:
  assumes "rewards = pair_rewards cid a b rs" and "\<forall>r \<in> set rewards. 0 \<le> r \<and> r \<le> 1"
  shows "get_correlation (record_all entanglement_new rs) cid a b = moving_average (rev rewards) \<and>
    get_correlation (record_all entanglement_new rs) cid b a
      = get_correlation (record_all entanglement_new rs) cid a b \<and>
    0 \<le> get_correlation (record_all entanglement_new rs) cid a b \<and>
    get_correlation (record_all entanglement_new rs) cid a b \<le> 1 - (9 / 10) ^ length rewards"
  using assms moving_average_bounds [of "rev rewards"] record_all_correlation [of rs cid a b]
    get_correlation_commute [of "record_all entanglement_new rs" cid b a]
  by simp

theorem correlation_moving_average_witness:
  "get_correlation (record_all entanglement_new
     [(0, 7, ''b'', ''a'', 1), (1, 8, ''a'', ''b'', 1), (2, 7, ''a'', ''b'', 0)]) 7 ''a'' ''b'' = 9 / 100"
proof -
  let ?rs = "[(0, 7, ''b'', ''a'', 1), (1, 8, ''a'', ''b'', 1), (2, 7, ''a'', ''b'', 0)]"
  have "pair_rewards 7 ''a'' ''b'' ?rs = [1, 0]" by (simp add: pair_rewards_def)
  then have "\<forall>r \<in> set (pair_rewards 7 ''a'' ''b'' ?rs). 0 \<le> r \<and> r \<le> 1"
    and "moving_average (rev (pair_rewards 7 ''a'' ''b'' ?rs)) = 9 / 100" by simp_all
  with correlation_moving_average [OF refl this(1)] show ?thesis by simp
qed

end
