(* ===== verification/QState.thy ===== *)
theory QState
  imports Entangle
begin

text \<open>
  The probability amplitudes of \<open>src/quantum/state.rs\<close>: one per endpoint and conversation, rotated by
  rewards and decaying towards a uniform amplitude. The \<open>f64\<close> numbers are real numbers. A conversation
  state is shared through an \<open>Arc\<close>, so that an update through any handle is an update of the map's
  entry, which is how the manager's operations are written here.
\<close>

declare of_nat_unat [simp del]

section \<open>Amplitudes\<close>

record amplitude =
  am_re :: real
  am_im :: real

definition amplitude_new :: "real \<Rightarrow> real \<Rightarrow> amplitude" where
  "amplitude_new re im = \<lparr>am_re = re, am_im = im\<rparr>"

definition probability :: "amplitude \<Rightarrow> real" where
  "probability a = am_re a * am_re a + am_im a * am_im a"

definition magnitude :: "amplitude \<Rightarrow> real" where
  "magnitude a = sqrt (probability a)"

definition atan2 :: "real \<Rightarrow> real \<Rightarrow> real" where
  "atan2 y x = Arg (Complex x y)"

definition phase :: "amplitude \<Rightarrow> real" where
  "phase a = atan2 (am_im a) (am_re a)"

definition normalize_all :: "amplitude list \<Rightarrow> amplitude list" where
  "normalize_all amps =
     (let s = sum_list (map probability amps)
      in if s > 0
         then (let scale = 1 / sqrt s
               in map (\<lambda>a. a\<lparr>am_re := am_re a * scale, am_im := am_im a * scale\<rparr>) amps)
         else amps)"

section \<open>Conversations\<close>

record endpoint_state =
  es_amplitude :: amplitude
  es_pulls :: u64
  es_total_reward :: real
  es_last_updated :: datetime

definition endpoint_state_default :: "datetime \<Rightarrow> endpoint_state" where
  "endpoint_state_default now =
     \<lparr>es_amplitude = amplitude_new 1 0, es_pulls = 0, es_total_reward = 0, es_last_updated = now\<rparr>"

record conversation_state =
  cs_conversation_id :: uuid
  cs_endpoint_states :: "(string, endpoint_state) dashmap"
  cs_created_at :: datetime
  cs_last_active :: datetime

definition conversation_new :: "datetime \<Rightarrow> uuid \<Rightarrow> conversation_state" where
  "conversation_new now conversation_id =
     \<lparr>cs_conversation_id = conversation_id, cs_endpoint_states = Map.empty, cs_created_at = now,
      cs_last_active = now\<rparr>"

definition get_or_insert ::
    "conversation_state \<Rightarrow> datetime \<Rightarrow> string \<Rightarrow> conversation_state \<times> endpoint_state" where
  "get_or_insert conv now endpoint_id =
     (let s = entry_or (cs_endpoint_states conv) endpoint_id (endpoint_state_default now)
      in (conv\<lparr>cs_endpoint_states := (cs_endpoint_states conv)(endpoint_id \<mapsto> s)\<rparr>, s))"

definition clamp :: "real \<Rightarrow> real \<Rightarrow> real \<Rightarrow> real" where
  "clamp x lo hi = (if x < lo then lo else if hi < x then hi else x)"

text \<open>The update of the endpoint that earned the reward.\<close>

definition reward_entry :: "endpoint_state \<Rightarrow> datetime \<Rightarrow> real \<Rightarrow> endpoint_state" where
  "reward_entry s0 now reward =
     (let s = s0\<lparr>es_pulls := es_pulls s0 + 1, es_total_reward := es_total_reward s0 + reward,
                 es_last_updated := now\<rparr>;
          avg_reward = es_total_reward s / real (unat (es_pulls s));
          target_mag = clamp (sqrt avg_reward) 0 1;
          phase_shift = (reward - 1 / 2) * pi;
          current_phase = phase (es_amplitude s);
          new_phase = current_phase + phase_shift * (1 / 10)
      in s\<lparr>es_amplitude := \<lparr>am_re = target_mag * cos new_phase, am_im = target_mag * sin new_phase\<rparr>\<rparr>)"

definition decohere :: "real \<Rightarrow> real \<Rightarrow> endpoint_state \<Rightarrow> endpoint_state" where
  "decohere rate uniform_mag s =
     s\<lparr>es_amplitude := \<lparr>am_re = am_re (es_amplitude s) * (1 - rate) + uniform_mag * rate,
                        am_im = am_im (es_amplitude s) * (1 - rate)\<rparr>\<rparr>"

fun decohere_keys ::
    "real \<Rightarrow> real \<Rightarrow> string list \<Rightarrow> (string, endpoint_state) dashmap \<Rightarrow> (string, endpoint_state) dashmap" where
  "decohere_keys rate uniform_mag [] m = m"
| "decohere_keys rate uniform_mag (k # ks) m =
     decohere_keys rate uniform_mag ks
       (case m k of None \<Rightarrow> m | Some s \<Rightarrow> m(k \<mapsto> decohere rate uniform_mag s))"

definition apply_decoherence :: "string list \<Rightarrow> real \<Rightarrow> conversation_state \<Rightarrow> conversation_state" where
  "apply_decoherence ks rate conv =
     (let entries = collect ks (\<lambda>k s. k) (cs_endpoint_states conv)
      in if entries = [] then conv
         else conv\<lparr>cs_endpoint_states :=
                decohere_keys rate (1 / sqrt (real (length entries))) entries (cs_endpoint_states conv)\<rparr>)"

definition conversation_update ::
    "string list \<Rightarrow> conversation_state \<Rightarrow> datetime \<Rightarrow> string \<Rightarrow> real \<Rightarrow> real \<Rightarrow> conversation_state" where
  "conversation_update ks conv now endpoint_id reward decoherence_rate =
     (let entry = entry_or (cs_endpoint_states conv) endpoint_id (endpoint_state_default now);
          conv1 = conv\<lparr>cs_endpoint_states :=
                         (cs_endpoint_states conv)(endpoint_id \<mapsto> reward_entry entry now reward)\<rparr>;
          conv2 = conv1\<lparr>cs_last_active := now\<rparr>
      in apply_decoherence ks decoherence_rate conv2)"

definition compute_distribution :: "string list \<Rightarrow> conversation_state \<Rightarrow> (string \<times> real) list" where
  "compute_distribution ks conv =
     renormalize (collect ks (\<lambda>k s. (k, probability (es_amplitude s))) (cs_endpoint_states conv))"

section \<open>The manager\<close>

type_synonym quantum_states = "(uuid, conversation_state) dashmap"

definition quantum_states_new :: quantum_states where
  "quantum_states_new = Map.empty"

definition get_or_create :: "quantum_states \<Rightarrow> datetime \<Rightarrow> uuid \<Rightarrow> quantum_states \<times> conversation_state" where
  "get_or_create qs now conversation_id =
     (let conv = entry_or qs conversation_id (conversation_new now conversation_id)
      in (qs(conversation_id \<mapsto> conv), conv))"

definition states_get :: "quantum_states \<Rightarrow> uuid \<Rightarrow> conversation_state option" where
  "states_get qs conversation_id = qs conversation_id"

definition states_update ::
    "string list \<Rightarrow> quantum_states \<Rightarrow> datetime \<Rightarrow> uuid \<Rightarrow> string \<Rightarrow> real \<Rightarrow> real \<Rightarrow> quantum_states" where
  "states_update ks qs now conversation_id endpoint_id reward decoherence_rate =
     (let (qs', conv) = get_or_create qs now conversation_id
      in qs'(conversation_id \<mapsto> conversation_update ks conv now endpoint_id reward decoherence_rate))"

definition conversation_stale :: "int \<Rightarrow> datetime \<Rightarrow> conversation_state \<Rightarrow> bool" where
  "conversation_stale max_age_secs now conv \<longleftrightarrow> num_seconds (now - cs_last_active conv) > max_age_secs"

definition states_prune_old :: "uuid list \<Rightarrow> int \<Rightarrow> datetime \<Rightarrow> quantum_states \<Rightarrow> quantum_states" where
  "states_prune_old ks max_age_secs now qs =
     remove_keys (filter_keys ks (\<lambda>_ conv. conversation_stale max_age_secs now conv) qs) qs"

definition conversation_count :: "quantum_states \<Rightarrow> nat" where
  "conversation_count qs = card (dom qs)"

type_synonym endpoint_diagnostic = "string \<times> real \<times> u64 \<times> real"

definition endpoint_diagnostic :: "string \<Rightarrow> endpoint_state \<Rightarrow> endpoint_diagnostic" where
  "endpoint_diagnostic k s =
     (k, probability (es_amplitude s), es_pulls s,
      if es_pulls s > 0 then es_total_reward s / real (unat (es_pulls s)) else 0)"

definition all_diagnostics ::
    "uuid list \<Rightarrow> (uuid \<Rightarrow> string list) \<Rightarrow> quantum_states \<Rightarrow> (uuid \<times> endpoint_diagnostic list) list" where
  "all_diagnostics cs ks qs =
     collect cs (\<lambda>c conv. (c, collect (ks c) endpoint_diagnostic (cs_endpoint_states conv))) qs"

section \<open>Amplitudes stay in the unit disc\<close>

lemma probability_nonneg [simp]: "0 \<le> probability a"
  by (simp add: probability_def)

lemma probability_norm: "probability a = (norm (Complex (am_re a) (am_im a)))\<^sup>2"
  by (simp add: probability_def cmod_def power2_eq_square)

lemma magnitude_norm: "magnitude a = norm (Complex (am_re a) (am_im a))"
  by (simp add: magnitude_def probability_def cmod_def power2_eq_square)

lemma probability_le_one_iff: "probability a \<le> 1 \<longleftrightarrow> magnitude a \<le> 1"
  by (simp add: magnitude_def)

lemma normalize_all_sum:
  "0 < sum_list (map probability amps) \<Longrightarrow> sum_list (map probability (normalize_all amps)) = 1"
proof -
  let ?s = "sum_list (map probability amps)"
  assume s: "0 < ?s"
  have "probability (a\<lparr>am_re := am_re a * (1 / sqrt ?s), am_im := am_im a * (1 / sqrt ?s)\<rparr>)
      = probability a / ?s" for a :: amplitude
    using s by (simp add: probability_def field_simps)
  then have "sum_list (map probability (normalize_all amps)) = sum_list (map (\<lambda>a. probability a / ?s) amps)"
    using s by (simp add: normalize_all_def Let_def comp_def)
  then show ?thesis using s by (simp add: sum_list_divide)
qed

lemma clamp_bounds: "lo \<le> hi \<Longrightarrow> lo \<le> clamp x lo hi \<and> clamp x lo hi \<le> hi"
  by (simp add: clamp_def)

lemma probability_polar: "probability \<lparr>am_re = m * cos t, am_im = m * sin t\<rparr> = m * m"
proof -
  have "m * cos t * (m * cos t) + m * sin t * (m * sin t) = m * m * ((cos t)\<^sup>2 + (sin t)\<^sup>2)"
    unfolding power2_eq_square distrib_left by (simp only: mult_ac)
  then show ?thesis by (simp add: probability_def)
qed

text \<open>Right after the reward, before decoherence, the probability is the average reward.\<close>

lemma reward_entry_probability:
  assumes "0 \<le> avg" and "avg \<le> 1"
    and "avg = es_total_reward (reward_entry s now r) / real (unat (es_pulls (reward_entry s now r)))"
  shows "probability (es_amplitude (reward_entry s now r)) = avg"
proof -
  have "clamp (sqrt avg) 0 1 = sqrt avg" using assms(1,2) by (simp add: clamp_def)
  moreover have "avg = (es_total_reward s + r) / real (unat (es_pulls s + 1))"
    using assms(3) by (simp add: reward_entry_def Let_def)
  ultimately have "probability (es_amplitude (reward_entry s now r)) = sqrt avg * sqrt avg"
    by (simp add: reward_entry_def Let_def probability_polar del: real_sqrt_mult_self)
  then show ?thesis using assms(1) by simp
qed

lemma reward_entry_unit: "probability (es_amplitude (reward_entry s now r)) \<le> 1"
proof -
  let ?m = "clamp (sqrt ((es_total_reward s + r) / real (unat (es_pulls s + 1)))) 0 1"
  have "?m * ?m \<le> 1 * 1" using clamp_bounds [of 0 1] by (intro mult_mono) auto
  then show ?thesis by (simp add: reward_entry_def Let_def probability_polar)
qed

lemma decohere_unit:
  assumes "probability (es_amplitude s) \<le> 1" and "0 \<le> rate" and "rate \<le> 1" and "0 \<le> u" and "u \<le> 1"
  shows "probability (es_amplitude (decohere rate u s)) \<le> 1"
proof -
  let ?z = "Complex (am_re (es_amplitude s)) (am_im (es_amplitude s))"
  have "Complex (am_re (es_amplitude s) * (1 - rate) + u * rate) (am_im (es_amplitude s) * (1 - rate))
      = of_real (1 - rate) * ?z + of_real (u * rate)"
    by (simp add: complex_eq_iff)
  also have "norm \<dots> \<le> (1 - rate) * norm ?z + u * rate"
    using assms norm_triangle_ineq [of "of_real (1 - rate) * ?z" "of_real (u * rate)"]
    by (simp add: norm_mult del: of_real_diff of_real_mult)
  also have "\<dots> \<le> (1 - rate) * 1 + 1 * rate"
    using assms by (intro add_mono mult_left_mono mult_right_mono)
      (auto simp: probability_le_one_iff magnitude_norm [symmetric])
  finally show ?thesis
    by (simp add: probability_le_one_iff magnitude_norm decohere_def)
qed

lemma decohere_keys_apply:
  "distinct ks \<Longrightarrow> decohere_keys rate u ks m k =
     (if k \<in> set ks then map_option (decohere rate u) (m k) else m k)"
  by (induction ks arbitrary: m) (auto split: option.splits)

lemma collect_keys: "iterates ks m \<Longrightarrow> collect ks (\<lambda>k s. k) m = ks"
  by (simp add: iterates_def collect_eq_map)

lemma apply_decoherence_apply:
  assumes "iterates ks (cs_endpoint_states conv)"
  shows "cs_endpoint_states (apply_decoherence ks rate conv) k =
    map_option (decohere rate (1 / sqrt (real (length ks)))) (cs_endpoint_states conv k)"
proof (cases "ks = []")
  case True
  then have "cs_endpoint_states conv = Map.empty" using assms by (simp add: iterates_def eq_commute [of "{}"])
  with True show ?thesis by (simp add: apply_decoherence_def)
next
  case False
  have "distinct ks" and "k \<notin> set ks \<Longrightarrow> cs_endpoint_states conv k = None"
    using assms by (auto simp: iterates_def)
  then show ?thesis using assms False
    by (auto simp: apply_decoherence_def collect_keys Let_def decohere_keys_apply)
qed

end
