(* ===== verification/F64.thy ===== *)
theory F64
  imports Prelude
begin

text \<open>
  Double-precision arithmetic where the code truncates its result to an integer and one unit in the
  last place can decide the answer (the rate limiter). An IEEE 754 operation is the exact real
  operation followed by rounding to the nearest number with a 53-bit significand, ties to even;
  \<open>f64_round\<close> is that rounding. The exponent is unbounded here: the values of the rate limiter
  lie between \<open>2^-94\<close> and \<open>2^128\<close>, far from overflow and from the subnormal numbers.
  What the clients rely on is the contract \<open>rounding\<close>.
\<close>

section \<open>The contract\<close>

definition f64_eps :: real where
  "f64_eps = 1 / 2 ^ 53"

locale rounding =
  fixes rnd :: "real \<Rightarrow> real"
  assumes rnd_mono: "x \<le> y \<Longrightarrow> rnd x \<le> rnd y"
    and rnd_int: "\<bar>n\<bar> \<le> 2 ^ 53 \<Longrightarrow> rnd (of_int n) = of_int n"
    and rnd_rel: "\<bar>rnd x - x\<bar> \<le> \<bar>x\<bar> * f64_eps"
begin

lemma rnd_0 [simp]: "rnd 0 = 0"
  using rnd_int [of 0] by simp

lemma rnd_1 [simp]: "rnd 1 = 1"
  using rnd_int [of 1] by simp

lemma rnd_nat: "n \<le> 2 ^ 53 \<Longrightarrow> rnd (real n) = real n"
  using rnd_int [of "int n"] by simp

lemma rnd_nonneg: "0 \<le> x \<Longrightarrow> 0 \<le> rnd x"
  using rnd_mono [of 0 x] by simp

lemma rnd_upper: "0 \<le> x \<Longrightarrow> rnd x \<le> x * (1 + f64_eps)"
  using rnd_rel [of x] by (simp add: algebra_simps abs_le_iff)

lemma rnd_lower: "0 \<le> x \<Longrightarrow> x * (1 - f64_eps) \<le> rnd x"
  using rnd_rel [of x] by (simp add: algebra_simps abs_le_iff)

lemma rnd_ge_int: "\<bar>n\<bar> \<le> 2 ^ 53 \<Longrightarrow> of_int n \<le> x \<Longrightarrow> of_int n \<le> rnd x"
  using rnd_mono [of "of_int n" x] by (simp add: rnd_int)

lemma rnd_ge_1: "1 \<le> x \<Longrightarrow> 1 \<le> rnd x"
  using rnd_ge_int [of 1 x] by simp

lemma rnd_upper_trans: "0 \<le> x \<Longrightarrow> x \<le> y \<Longrightarrow> rnd x \<le> y * (1 + f64_eps)"
  using rnd_mono [of x y] rnd_upper [of y] by simp

end

section \<open>Rounding to nearest, ties to even\<close>

definition round_even :: "real \<Rightarrow> int" where
  "round_even x =
     (let f = \<lfloor>x\<rfloor>; d = x - of_int f
      in if d < 1 / 2 then f else if d > 1 / 2 then f + 1 else if even f then f else f + 1)"

definition f64_exp :: "real \<Rightarrow> int" where
  "f64_exp x = \<lfloor>log 2 \<bar>x\<bar>\<rfloor>"

definition f64_ulp :: "real \<Rightarrow> real" where
  "f64_ulp x = 2 powr real_of_int (f64_exp x - 52)"

definition f64_round :: "real \<Rightarrow> real" where
  "f64_round x = (if x = 0 then 0 else of_int (round_even (x / f64_ulp x)) * f64_ulp x)"

text \<open>\<open>Duration::as_secs_f64\<close>, a cast from \<open>u64\<close>, and the saturating, truncating cast to it.\<close>

definition as_secs_f64 :: "nat \<Rightarrow> real" where
  "as_secs_f64 d =
     f64_round (f64_round (real (d div nanos_per_sec))
       + f64_round (real (d mod nanos_per_sec) / real nanos_per_sec))"

definition u64_as_f64 :: "u64 \<Rightarrow> real" where
  "u64_as_f64 w = f64_round (real (unat w))"

definition f64_as_u64 :: "real \<Rightarrow> u64" where
  "f64_as_u64 x = (if x \<le> 0 then 0 else if 2 ^ 64 \<le> x then -1 else of_int \<lfloor>x\<rfloor>)"

subsection \<open>Proof of the contract\<close>

lemma round_even_of_int [simp]: "round_even (of_int n) = n"
  by (simp add: round_even_def)

lemma round_even_floor: "\<lfloor>x\<rfloor> \<le> round_even x" "round_even x \<le> \<lfloor>x\<rfloor> + 1"
  by (auto simp: round_even_def Let_def)

lemma round_even_dist: "\<bar>of_int (round_even x) - x\<bar> \<le> 1 / 2"
  using of_int_floor_le [of x] by (auto simp: round_even_def Let_def abs_le_iff)

lemma round_even_mono: "x \<le> y \<Longrightarrow> round_even x \<le> round_even y"
proof -
  assume le: "x \<le> y"
  then have f: "\<lfloor>x\<rfloor> \<le> \<lfloor>y\<rfloor>" by (rule floor_mono)
  show ?thesis
  proof (cases "\<lfloor>x\<rfloor> = \<lfloor>y\<rfloor>")
    case True
    with le show ?thesis by (auto simp: round_even_def Let_def)
  next
    case False
    with f have "\<lfloor>x\<rfloor> + 1 \<le> \<lfloor>y\<rfloor>" by simp
    then show ?thesis using round_even_floor(2) [of x] round_even_floor(1) [of y] by linarith
  qed
qed

lemma round_even_ge: "of_int n \<le> x \<Longrightarrow> n \<le> round_even x"
  using round_even_mono [of "of_int n" x] by simp

lemma round_even_le: "x \<le> of_int n \<Longrightarrow> round_even x \<le> n"
  using round_even_mono [of x "of_int n"] by simp

lemma f64_ulp_pos [simp]: "0 < f64_ulp x"
  by (simp add: f64_ulp_def)

lemma f64_ulp_nz [simp]: "f64_ulp x \<noteq> 0"
  by (simp add: f64_ulp_def)

lemma f64_binade:
  assumes "x \<noteq> 0"
  shows "2 ^ 52 * f64_ulp x \<le> \<bar>x\<bar>" and "\<bar>x\<bar> < 2 ^ 53 * f64_ulp x"
proof -
  have l: "2 powr (log 2 \<bar>x\<bar>) = \<bar>x\<bar>" using assms by simp
  have p: "2 ^ k * f64_ulp x = 2 powr (of_int (f64_exp x) + (real k - 52))" for k
    by (simp add: f64_ulp_def powr_realpow [symmetric] powr_add [symmetric] algebra_simps)
  have "2 ^ 52 * f64_ulp x = 2 powr of_int (f64_exp x)" using p [of 52] by simp
  also have "\<dots> \<le> 2 powr log 2 \<bar>x\<bar>"
    by (rule powr_mono) (simp_all add: f64_exp_def)
  finally show "2 ^ 52 * f64_ulp x \<le> \<bar>x\<bar>" using l by simp
  have "\<bar>x\<bar> = 2 powr log 2 \<bar>x\<bar>" using l by simp
  also have "\<dots> < 2 powr (of_int (f64_exp x) + 1)"
    by (rule powr_less_mono) (simp_all add: f64_exp_def)
  also have "\<dots> = 2 ^ 53 * f64_ulp x" using p [of 53] by simp
  finally show "\<bar>x\<bar> < 2 ^ 53 * f64_ulp x" .
qed

lemma f64_round_abs_error: "x \<noteq> 0 \<Longrightarrow> \<bar>f64_round x - x\<bar> \<le> f64_ulp x / 2"
proof -
  assume x: "x \<noteq> 0"
  have "f64_round x - x = (of_int (round_even (x / f64_ulp x)) - x / f64_ulp x) * f64_ulp x"
    using x f64_ulp_nz [of x] by (simp add: f64_round_def left_diff_distrib)
  then have "\<bar>f64_round x - x\<bar>
      = \<bar>of_int (round_even (x / f64_ulp x)) - x / f64_ulp x\<bar> * f64_ulp x"
    by (simp add: abs_mult abs_of_pos [OF f64_ulp_pos])
  also have "\<dots> \<le> 1 / 2 * f64_ulp x"
    by (rule mult_right_mono [OF round_even_dist]) (simp add: less_imp_le)
  finally show ?thesis by simp
qed

lemma f64_round_rel: "\<bar>f64_round x - x\<bar> \<le> \<bar>x\<bar> * f64_eps"
proof (cases "x = 0")
  case True
  then show ?thesis by (simp add: f64_round_def)
next
  case False
  then have "f64_ulp x / 2 \<le> \<bar>x\<bar> * f64_eps"
    using f64_binade(1) [OF False] by (simp add: f64_eps_def)
  then show ?thesis using f64_round_abs_error [OF False] by linarith
qed

lemma f64_round_between:
  assumes "x \<noteq> 0" and "of_int a \<le> x / f64_ulp x" and "x / f64_ulp x \<le> of_int b"
  shows "of_int a * f64_ulp x \<le> f64_round x" and "f64_round x \<le> of_int b * f64_ulp x"
proof -
  have "real_of_int a \<le> of_int (round_even (x / f64_ulp x))"
    "of_int (round_even (x / f64_ulp x)) \<le> real_of_int b"
    using assms(2,3) round_even_ge round_even_le by (simp_all only: of_int_le_iff)
  then show "of_int a * f64_ulp x \<le> f64_round x" "f64_round x \<le> of_int b * f64_ulp x"
    using assms(1) by (simp_all add: f64_round_def mult_right_mono less_imp_le)
qed

lemma f64_round_pos:
  assumes "0 < x"
  shows "2 ^ 52 * f64_ulp x \<le> f64_round x" and "f64_round x \<le> 2 ^ 53 * f64_ulp x"
proof -
  have "of_int (2 ^ 52) \<le> x / f64_ulp x" "x / f64_ulp x \<le> of_int (2 ^ 53)"
    using assms f64_binade [of x] f64_ulp_pos [of x]
    by (simp_all add: pos_le_divide_eq pos_divide_le_eq)
  from f64_round_between [OF _ this] assms
  show "2 ^ 52 * f64_ulp x \<le> f64_round x" "f64_round x \<le> 2 ^ 53 * f64_ulp x" by simp_all
qed

lemma f64_round_neg:
  assumes "x < 0"
  shows "f64_round x \<le> - (2 ^ 52 * f64_ulp x)" and "- (2 ^ 53 * f64_ulp x) \<le> f64_round x"
proof -
  have "of_int (- (2 ^ 53)) \<le> x / f64_ulp x" "x / f64_ulp x \<le> of_int (- (2 ^ 52))"
    using assms f64_binade [of x] f64_ulp_pos [of x]
    by (simp_all add: pos_le_divide_eq pos_divide_le_eq)
  from f64_round_between [OF _ this] assms
  show "f64_round x \<le> - (2 ^ 52 * f64_ulp x)" "- (2 ^ 53 * f64_ulp x) \<le> f64_round x" by simp_all
qed

lemma f64_round_0 [simp]: "f64_round 0 = 0"
  by (simp add: f64_round_def)

lemma f64_round_sign: "0 \<le> x \<Longrightarrow> 0 \<le> f64_round x" "x \<le> 0 \<Longrightarrow> f64_round x \<le> 0"
proof -
  have u: "0 < 2 ^ 52 * f64_ulp x" by simp
  show "0 \<le> x \<Longrightarrow> 0 \<le> f64_round x"
    using f64_round_pos(1) [of x] u by (cases "x = 0") (simp, linarith)
  show "x \<le> 0 \<Longrightarrow> f64_round x \<le> 0"
    using f64_round_neg(1) [of x] u by (cases "x = 0") (simp, linarith)
qed

lemma f64_exp_mono: "x \<noteq> 0 \<Longrightarrow> \<bar>x\<bar> \<le> \<bar>y\<bar> \<Longrightarrow> f64_exp x \<le> f64_exp y"
  unfolding f64_exp_def by (rule floor_mono) simp

lemma f64_ulp_double: "f64_exp x < f64_exp y \<Longrightarrow> 2 * f64_ulp x \<le> f64_ulp y"
proof -
  assume "f64_exp x < f64_exp y"
  then have "1 + real_of_int (f64_exp x - 52) \<le> real_of_int (f64_exp y - 52)" by linarith
  then have "2 powr (1 + real_of_int (f64_exp x - 52)) \<le> f64_ulp y"
    unfolding f64_ulp_def by (rule powr_mono) simp
  moreover have "2 powr (1 + real_of_int (f64_exp x - 52)) = 2 * f64_ulp x"
    unfolding f64_ulp_def powr_add by simp
  ultimately show ?thesis by simp
qed

lemma f64_round_same_exp:
  assumes "x \<noteq> 0" "y \<noteq> 0" "f64_exp x = f64_exp y" "x \<le> y"
  shows "f64_round x \<le> f64_round y"
proof -
  have u: "f64_ulp y = f64_ulp x" using assms(3) by (simp add: f64_ulp_def)
  have "x / f64_ulp x \<le> y / f64_ulp x" using assms(4) by (simp add: divide_right_mono less_imp_le)
  then show ?thesis using assms(1,2) round_even_mono by (simp add: f64_round_def u)
qed

lemma f64_round_mono: "x \<le> y \<Longrightarrow> f64_round x \<le> f64_round y"
proof -
  assume le: "x \<le> y"
  consider "0 < x" | "y < 0" | "x \<le> 0" "0 \<le> y" by linarith
  then show ?thesis
  proof cases
    case 1
    show ?thesis
    proof (cases "f64_exp x = f64_exp y")
      case True
      with 1 le show ?thesis by (intro f64_round_same_exp) auto
    next
      case False
      then have "2 * f64_ulp x \<le> f64_ulp y" using 1 le f64_exp_mono [of x y] f64_ulp_double by simp
      then show ?thesis using 1 le f64_round_pos [of x] f64_round_pos [of y] by simp
    qed
  next
    case 2
    show ?thesis
    proof (cases "f64_exp x = f64_exp y")
      case True
      with 2 le show ?thesis by (intro f64_round_same_exp) auto
    next
      case False
      then have "2 * f64_ulp y \<le> f64_ulp x" using 2 le f64_exp_mono [of y x] f64_ulp_double by simp
      then show ?thesis using 2 le f64_round_neg [of x] f64_round_neg [of y] by simp
    qed
  next
    case 3
    have "f64_round x \<le> 0" using f64_round_sign(2) 3 by blast
    moreover have "0 \<le> f64_round y" using f64_round_sign(1) 3 by blast
    ultimately show ?thesis by simp
  qed
qed

lemma f64_round_int:
  assumes "\<bar>n\<bar> \<le> 2 ^ 53"
  shows "f64_round (of_int n) = of_int n"
proof (cases "n = 0")
  case False
  let ?x = "real_of_int n"
  have "\<exists>k. ?x / f64_ulp ?x = of_int k"
  proof (cases "f64_exp ?x \<le> 52")
    case True
    define e where "e = nat (52 - f64_exp ?x)"
    have "f64_ulp ?x = 2 powr - real e" using True by (simp add: f64_ulp_def e_def)
    then have "f64_ulp ?x = 1 / 2 ^ e"
      by (simp add: powr_minus powr_realpow divide_inverse)
    then have "?x / f64_ulp ?x = of_int (n * 2 ^ e)" by simp
    then show ?thesis by blast
  next
    case big: False
    have "real_of_int \<bar>n\<bar> \<le> of_int (2 ^ 53)" using assms by (simp only: of_int_le_iff)
    then have "\<bar>?x\<bar> \<le> 2 ^ 53" by simp
    moreover have "2 ^ 52 * f64_ulp ?x \<le> \<bar>?x\<bar>" using False by (intro f64_binade) simp
    moreover have "2 powr 1 \<le> f64_ulp ?x"
      unfolding f64_ulp_def using big by (intro powr_mono) linarith+
    ultimately have x: "\<bar>?x\<bar> = 2 ^ 53" and u: "f64_ulp ?x = 2" by simp_all
    from x consider "?x = 2 ^ 53" | "?x = - (2 ^ 53)" by linarith
    then have "?x / 2 = of_int (2 ^ 52) \<or> ?x / 2 = of_int (- (2 ^ 52))"
      by cases simp_all
    then show ?thesis unfolding u by blast
  qed
  then obtain k where k: "?x / f64_ulp ?x = of_int k" by blast
  then have "of_int k * f64_ulp ?x = ?x" by (simp flip: k)
  then show ?thesis using False by (simp add: f64_round_def k)
qed (simp add: f64_round_def)

interpretation f64: rounding f64_round
  by unfold_locales (rule f64_round_mono, assumption, rule f64_round_int, assumption, rule f64_round_rel)

end
