(* ===== verification/RateLimit.thy ===== *)
theory RateLimit
  imports F64
begin

text \<open>
  The token-bucket rate limiter of \<open>src/ratelimit.rs\<close> and its middleware: buckets keyed by client
  address, the refill computed in double precision and truncated, and what a client can obtain from
  it over a stretch of time.
\<close>

declare of_nat_unat [simp del]

section \<open>State\<close>

record token_bucket =
  tb_tokens :: u64
  tb_last_refill :: instant

record rate_limiter =
  rl_buckets :: "(string, token_bucket) dashmap"
  rl_max_requests :: u64
  rl_window_secs :: u64

definition rate_limiter_new :: "u64 \<Rightarrow> u64 \<Rightarrow> rate_limiter" where
  "rate_limiter_new max_requests window_secs =
     \<lparr>rl_buckets = Map.empty,
      rl_max_requests = max max_requests 1,
      rl_window_secs = max window_secs 1\<rparr>"

section \<open>Operations\<close>

definition refill_amount :: "rate_limiter \<Rightarrow> nat \<Rightarrow> u64" where
  "refill_amount rl elapsed =
     (let window = unat (rl_window_secs rl) * nanos_per_sec
      in f64_as_u64 (f64_round
           (f64_round (as_secs_f64 elapsed / as_secs_f64 window) * u64_as_f64 (rl_max_requests rl))))"

definition check_bucket :: "rate_limiter \<Rightarrow> token_bucket \<Rightarrow> instant \<Rightarrow> token_bucket \<times> bool" where
  "check_bucket rl b now =
     (let refill = refill_amount rl (now - tb_last_refill b);
          b1 = (if refill > 0
                then b\<lparr>tb_tokens := min (tb_tokens b + refill) (rl_max_requests rl), tb_last_refill := now\<rparr>
                else b)
      in if tb_tokens b1 > 0 then (b1\<lparr>tb_tokens := tb_tokens b1 - 1\<rparr>, True) else (b1, False))"

definition fresh_bucket :: "rate_limiter \<Rightarrow> instant \<Rightarrow> token_bucket" where
  "fresh_bucket rl now = \<lparr>tb_tokens = rl_max_requests rl, tb_last_refill = now\<rparr>"

definition rate_check :: "rate_limiter \<Rightarrow> string \<Rightarrow> instant \<Rightarrow> rate_limiter \<times> bool" where
  "rate_check rl key now =
     (let (b, ok) = check_bucket rl (entry_or (rl_buckets rl) key (fresh_bucket rl now)) now
      in (rl\<lparr>rl_buckets := (rl_buckets rl)(key \<mapsto> b)\<rparr>, ok))"

text \<open>
  The middleware. \<open>SocketAddr\<close> prints as the address and the port, an IPv6 address in brackets; a
  request without connection information is keyed by its path. A rejected request is answered
  \<open>429\<close> and never reaches the handler.
\<close>

record socket_addr =
  sa_ip :: string
  sa_is_v6 :: bool
  sa_port :: u16

definition show_socket_addr :: "socket_addr \<Rightarrow> string" where
  "show_socket_addr a =
     (if sa_is_v6 a then ''['' @ sa_ip a @ '']'' else sa_ip a) @ '':'' @ show_nat (unat (sa_port a))"

record limited_request =
  lr_connect_info :: "socket_addr option"
  lr_path :: string

datatype 'r limited = Forward 'r | Reject nat string

definition rate_key :: "limited_request \<Rightarrow> string" where
  "rate_key req =
     (case map_option show_socket_addr (lr_connect_info req) of Some k \<Rightarrow> k | None \<Rightarrow> lr_path req)"

definition rate_limit_middleware ::
    "rate_limiter \<Rightarrow> limited_request \<Rightarrow> instant \<Rightarrow> rate_limiter \<times> limited_request limited" where
  "rate_limit_middleware rl req now =
     (let (rl', ok) = rate_check rl (rate_key req) now
      in (rl', if ok then Forward req else Reject 429 ''Rate limit exceeded. Try again later.''))"

inductive rate_reachable :: "rate_limiter \<Rightarrow> bool" where
  start: "rate_reachable (rate_limiter_new m w)"
| check: "rate_reachable rl \<Longrightarrow> rate_reachable (fst (rate_check rl key now))"

section \<open>The limiter as independent buckets\<close>

definition rate_config :: "rate_limiter \<Rightarrow> rate_limiter" where
  "rate_config rl = rl\<lparr>rl_buckets := Map.empty\<rparr>"

definition bucket_of :: "rate_limiter \<Rightarrow> string \<Rightarrow> token_bucket option" where
  "bucket_of rl key = rl_buckets rl key"

definition bucket_act :: "rate_limiter \<Rightarrow> token_bucket option \<Rightarrow> instant \<Rightarrow> token_bucket option \<times> bool" where
  "bucket_act rl bo now =
     (let (b, ok) = check_bucket rl (case bo of Some b \<Rightarrow> b | None \<Rightarrow> fresh_bucket rl now) now
      in (Some b, ok))"

lemma rate_config_fields [simp]:
  "refill_amount (rate_config rl) = refill_amount rl"
  "fresh_bucket (rate_config rl) = fresh_bucket rl"
  "rl_max_requests (rate_config rl) = rl_max_requests rl"
  "rl_window_secs (rate_config rl) = rl_window_secs rl"
  by (auto simp: rate_config_def refill_amount_def fresh_bucket_def fun_eq_iff Let_def)

lemma check_bucket_config [simp]: "check_bucket (rate_config rl) = check_bucket rl"
  by (intro ext) (simp add: check_bucket_def Let_def)

lemma bucket_act_config [simp]: "bucket_act (rate_config rl) = bucket_act rl"
  by (intro ext) (simp add: bucket_act_def split: option.splits)

lemma rate_config_update [simp]: "rate_config (rl\<lparr>rl_buckets := m\<rparr>) = rate_config rl"
  by (simp add: rate_config_def)

lemma rate_config_check: "rate_config (fst (rate_check rl key now)) = rate_config rl"
  by (simp add: rate_check_def split_beta)

interpretation limiter: keyed_machine rate_check rate_config bucket_of bucket_act
  by unfold_locales
    (auto simp: rate_config_check rate_check_def bucket_of_def bucket_act_def entry_or_def
      split_beta Let_def split: option.splits)

section \<open>Bounds on the refill\<close>

definition secs :: "nat \<Rightarrow> real" where
  "secs d = real d / real nanos_per_sec"

lemma secs_split: "real (d div nanos_per_sec) + real (d mod nanos_per_sec) / real nanos_per_sec = secs d"
proof -
  have "real d = real nanos_per_sec * real (d div nanos_per_sec) + real (d mod nanos_per_sec)"
    by (metis mult_div_mod_eq of_nat_add of_nat_mult)
  then show ?thesis by (simp add: secs_def nanos_per_sec_def field_simps)
qed

lemma as_secs_upper: "as_secs_f64 d \<le> secs d * (1 + f64_eps) ^ 2"
proof -
  have "f64_round (real (d div nanos_per_sec)) + f64_round (real (d mod nanos_per_sec) / real nanos_per_sec)
      \<le> real (d div nanos_per_sec) * (1 + f64_eps)
        + real (d mod nanos_per_sec) / real nanos_per_sec * (1 + f64_eps)"
    by (intro add_mono f64.rnd_upper) auto
  also have "\<dots> = secs d * (1 + f64_eps)"
    by (simp only: secs_split flip: distrib_right)
  finally show ?thesis
    unfolding as_secs_f64_def power2_eq_square mult.assoc [symmetric]
    by (intro f64.rnd_upper_trans add_nonneg_nonneg f64.rnd_nonneg) auto
qed

lemma as_secs_nonneg: "0 \<le> as_secs_f64 d"
  unfolding as_secs_f64_def by (intro add_nonneg_nonneg f64.rnd_nonneg) auto

lemma as_secs_whole: "as_secs_f64 (n * nanos_per_sec) = f64_round (f64_round (real n))"
  by (simp add: as_secs_f64_def nanos_per_sec_def)

lemma as_secs_mono_whole:
  "n * nanos_per_sec \<le> d \<Longrightarrow> as_secs_f64 (n * nanos_per_sec) \<le> as_secs_f64 d"
proof -
  assume "n * nanos_per_sec \<le> d"
  then have "n \<le> d div nanos_per_sec"
    by (simp add: nanos_per_sec_def less_eq_div_iff_mult_less_eq)
  then have "f64_round (real n) \<le> f64_round (real (d div nanos_per_sec))
      + f64_round (real (d mod nanos_per_sec) / real nanos_per_sec)"
    using f64.rnd_mono [of "real n" "real (d div nanos_per_sec)"]
      f64.rnd_nonneg [of "real (d mod nanos_per_sec) / real nanos_per_sec"] by simp
  then show ?thesis unfolding as_secs_whole by (simp add: as_secs_f64_def f64.rnd_mono)
qed

lemma as_secs_whole_lower: "real n * (1 - f64_eps) ^ 2 \<le> as_secs_f64 (n * nanos_per_sec)"
proof -
  have "real n * (1 - f64_eps) * (1 - f64_eps) \<le> f64_round (real n) * (1 - f64_eps)"
    by (intro mult_right_mono f64.rnd_lower) (auto simp: f64_eps_def)
  also have "\<dots> \<le> f64_round (f64_round (real n))"
    by (intro f64.rnd_lower f64.rnd_nonneg) auto
  finally show ?thesis by (simp add: as_secs_whole power2_eq_square)
qed

lemma f64_as_u64_upper: "0 \<le> x \<Longrightarrow> real (unat (f64_as_u64 x)) \<le> x"
proof -
  assume x: "0 \<le> x"
  consider "x \<le> 0" | "2 ^ 64 \<le> x" | "0 < x" "x < 2 ^ 64" by linarith
  then show ?thesis
  proof cases
    case 2
    have "unat (-1 :: u64) < 2 ^ 64" using unsigned_less [of "-1 :: u64"] by simp
    then have "real (unat (-1 :: u64)) \<le> 2 ^ 64"
      by (metis less_imp_le of_nat_le_iff of_nat_numeral of_nat_power)
    with 2 show ?thesis by (simp add: f64_as_u64_def)
  next
    case 3
    then have "unat (of_int \<lfloor>x\<rfloor> :: u64) \<le> nat \<lfloor>x\<rfloor>"
      by (simp add: unsigned_of_int nat_take_bit_eq take_bit_nat_less_eq_self)
    then have "real (unat (of_int \<lfloor>x\<rfloor> :: u64)) \<le> real (nat \<lfloor>x\<rfloor>)" by (simp only: of_nat_le_iff)
    also have "\<dots> \<le> x" using 3 by simp
    finally show ?thesis using 3 by (simp add: f64_as_u64_def)
  qed (use x in \<open>auto simp: f64_as_u64_def\<close>)
qed

lemma eps_slack: "(1 + f64_eps) ^ 5 / (1 - f64_eps) ^ 2 \<le> 1 + 1 / 2 ^ 50"
  by (simp add: f64_eps_def power_divide)

lemma refill_upper:
  assumes "1 \<le> unat (rl_window_secs rl)"
  shows "real (unat (refill_amount rl d)) \<le>
    secs d / real (unat (rl_window_secs rl)) * real (unat (rl_max_requests rl)) * (1 + 1 / 2 ^ 50)"
    (is "_ \<le> secs d / ?w * ?m * _")
proof -
  let ?a = "as_secs_f64 d" and ?b = "as_secs_f64 (unat (rl_window_secs rl) * nanos_per_sec)"
  let ?q = "f64_round (?a / ?b)"
  have e: "0 < 1 - f64_eps" "0 < 1 + f64_eps" by (simp_all add: f64_eps_def)
  have w: "0 < ?w" using assms by simp
  then have b: "0 < ?w * (1 - f64_eps) ^ 2" using e by simp
  have s: "0 \<le> secs d" by (simp add: secs_def)
  have "?a / ?b \<le> secs d * (1 + f64_eps) ^ 2 / (?w * (1 - f64_eps) ^ 2)"
    using as_secs_upper [of d] as_secs_whole_lower [of "unat (rl_window_secs rl)"] b
      as_secs_nonneg [of d]
    by (intro frac_le) (auto intro: order_trans)
  then have "?q \<le> secs d * (1 + f64_eps) ^ 2 / (?w * (1 - f64_eps) ^ 2) * (1 + f64_eps)"
    using as_secs_nonneg by (intro f64.rnd_upper_trans) auto
  moreover have "u64_as_f64 (rl_max_requests rl) \<le> ?m * (1 + f64_eps)"
    unfolding u64_as_f64_def by (rule f64.rnd_upper) simp
  moreover have q0: "0 \<le> ?q" by (intro f64.rnd_nonneg divide_nonneg_nonneg as_secs_nonneg)
  moreover have m0: "0 \<le> u64_as_f64 (rl_max_requests rl)"
    unfolding u64_as_f64_def by (rule f64.rnd_nonneg) simp
  ultimately have "?q * u64_as_f64 (rl_max_requests rl)
      \<le> secs d * (1 + f64_eps) ^ 2 / (?w * (1 - f64_eps) ^ 2) * (1 + f64_eps) * (?m * (1 + f64_eps))"
    by (intro mult_mono) auto
  then have "f64_round (?q * u64_as_f64 (rl_max_requests rl))
      \<le> secs d * (1 + f64_eps) ^ 2 / (?w * (1 - f64_eps) ^ 2) * (1 + f64_eps) * (?m * (1 + f64_eps))
        * (1 + f64_eps)"
    using q0 m0 by (intro f64.rnd_upper_trans mult_nonneg_nonneg) auto
  also have "\<dots> = secs d / ?w * ?m * ((1 + f64_eps) ^ 5 / (1 - f64_eps) ^ 2)"
    by (simp add: eval_nat_numeral)
  also have "\<dots> \<le> secs d / ?w * ?m * (1 + 1 / 2 ^ 50)"
    using s w by (intro mult_left_mono eps_slack) simp
  finally have "f64_round (?q * u64_as_f64 (rl_max_requests rl))
      \<le> secs d / ?w * ?m * (1 + 1 / 2 ^ 50)" .
  moreover have "real (unat (refill_amount rl d)) \<le> f64_round (?q * u64_as_f64 (rl_max_requests rl))"
    unfolding refill_amount_def Let_def
    by (intro f64_as_u64_upper f64.rnd_nonneg mult_nonneg_nonneg q0 m0)
  ultimately show ?thesis by linarith
qed

text \<open>After a whole window the computed refill is never short of the bucket's capacity.\<close>

lemma f64_as_u64_lower:
  assumes "of_nat n \<le> x" and "n < 2 ^ 64"
  shows "n \<le> unat (f64_as_u64 x)"
proof -
  consider "x \<le> 0" | "2 ^ 64 \<le> x" | "0 < x" "x < 2 ^ 64" by linarith
  then show ?thesis
  proof cases
    case 1
    with assms(1) show ?thesis by (simp add: f64_as_u64_def)
  next
    case 2
    have "unat (- 1 :: u64) = 2 ^ 64 - 1"
      by (simp add: unsigned_minus_1_eq_mask mask_eq_exp_minus_1)
    with 2 assms(2) show ?thesis by (simp add: f64_as_u64_def)
  next
    case 3
    then have f: "0 \<le> \<lfloor>x\<rfloor>" "\<lfloor>x\<rfloor> < 2 ^ 64" by (simp_all add: floor_less_iff)
    then have "unat (of_int \<lfloor>x\<rfloor> :: u64) = nat \<lfloor>x\<rfloor>"
      by (simp add: unsigned_of_int nat_take_bit_eq take_bit_nat_eq_self nat_less_iff)
    moreover have "int n \<le> \<lfloor>x\<rfloor>" using assms(1) by (simp add: le_floor_iff)
    ultimately show ?thesis using 3 by (simp add: f64_as_u64_def)
  qed
qed

lemma refill_full_window:
  assumes "unat (rl_window_secs rl) * nanos_per_sec \<le> d"
    and "1 \<le> unat (rl_window_secs rl)" and "unat (rl_max_requests rl) \<le> 2 ^ 53"
  shows "unat (rl_max_requests rl) \<le> unat (refill_amount rl d)"
proof -
  let ?a = "as_secs_f64 d" and ?b = "as_secs_f64 (unat (rl_window_secs rl) * nanos_per_sec)"
  have m: "u64_as_f64 (rl_max_requests rl) = real (unat (rl_max_requests rl))"
    unfolding u64_as_f64_def by (rule f64.rnd_nat [OF assms(3)])
  have "1 \<le> ?b"
    using assms(2) f64.rnd_ge_1 by (simp add: as_secs_whole)
  moreover have "?b \<le> ?a" by (rule as_secs_mono_whole [OF assms(1)])
  ultimately have "1 \<le> f64_round (?a / ?b)" by (intro f64.rnd_ge_1) simp
  then have "real (unat (rl_max_requests rl))
      \<le> f64_round (?a / ?b) * real (unat (rl_max_requests rl))"
    using mult_right_mono [of 1 "f64_round (?a / ?b)" "real (unat (rl_max_requests rl))"] by simp
  then have "real (unat (rl_max_requests rl))
      \<le> f64_round (f64_round (?a / ?b) * real (unat (rl_max_requests rl)))"
    using f64.rnd_ge_int [of "int (unat (rl_max_requests rl))"] assms(3) by simp
  then show ?thesis
    unfolding refill_amount_def Let_def m
    using assms(3) by (intro f64_as_u64_lower) simp_all
qed

section \<open>Invariant and potential\<close>

definition limiter_inv :: "rate_limiter \<Rightarrow> bool" where
  "limiter_inv rl \<longleftrightarrow> 1 \<le> rl_max_requests rl \<and> 1 \<le> rl_window_secs rl \<and>
     (\<forall>k b. rl_buckets rl k = Some b \<longrightarrow> tb_tokens b \<le> rl_max_requests rl)"

lemma check_bucket_cap:
  "tb_tokens b \<le> rl_max_requests rl \<Longrightarrow> tb_tokens (fst (check_bucket rl b now)) \<le> rl_max_requests rl"
proof -
  have le: "0 < x \<Longrightarrow> x \<le> m \<Longrightarrow> x - 1 \<le> m" for x m :: u64
    by (simp add: word_le_nat_alt unat_minus_one word_neq_0_conv)
  assume "tb_tokens b \<le> rl_max_requests rl"
  then show ?thesis by (auto simp: check_bucket_def Let_def intro: le)
qed

lemma limiter_inv_new: "limiter_inv (rate_limiter_new m w)"
  by (simp add: limiter_inv_def rate_limiter_new_def)

lemma limiter_inv_check: "limiter_inv rl \<Longrightarrow> limiter_inv (fst (rate_check rl key now))"
  using check_bucket_cap [of _ rl now]
  by (auto simp: limiter_inv_def rate_check_def split_beta entry_or_def fresh_bucket_def
      split: option.splits if_splits)

lemma rate_reachable_inv: "rate_reachable rl \<Longrightarrow> limiter_inv rl"
  by (induction rule: rate_reachable.induct) (auto intro: limiter_inv_new limiter_inv_check)

inductive_simps rate_reachable_new: "rate_reachable (rate_limiter_new m w)"

lemma limiter_inv_window: "limiter_inv rl \<Longrightarrow> 1 \<le> unat (rl_window_secs rl)"
  by (simp add: limiter_inv_def word_le_nat_alt)

text \<open>The tokens a bucket can earn per nanosecond, rounding included.\<close>

definition rate_per_nano :: "rate_limiter \<Rightarrow> real" where
  "rate_per_nano rl =
     real (unat (rl_max_requests rl)) * (1 + 1 / 2 ^ 50)
       / (real (unat (rl_window_secs rl)) * real nanos_per_sec)"

lemma refill_rate:
  assumes "1 \<le> unat (rl_window_secs rl)"
  shows "real (unat (refill_amount rl d)) \<le> rate_per_nano rl * real d"
proof -
  have eq: "m * k / (w * n) * x = x / n / w * m * k" for m k w n x :: real
    by (simp add: divide_inverse mult_ac)
  have "rate_per_nano rl * real d
      = secs d / real (unat (rl_window_secs rl)) * real (unat (rl_max_requests rl)) * (1 + 1 / 2 ^ 50)"
    unfolding rate_per_nano_def secs_def by (rule eq)
  then show ?thesis using refill_upper [OF assms] by simp
qed

lemma min_add_upper: "unat (min (a + b) m :: u64) \<le> unat a + unat b"
proof -
  have "unat (a + b) \<le> unat a + unat b" by (simp add: unat_word_ariths)
  then show ?thesis by (auto simp: min_def word_le_nat_alt)
qed

lemma check_bucket_potential:
  assumes "1 \<le> unat (rl_window_secs rl)" and "tb_last_refill b \<le> now"
    and "check_bucket rl b now = (b', ok)"
  shows "of_bool ok + real (unat (tb_tokens b'))
      \<le> real (unat (tb_tokens b)) + rate_per_nano rl * real (tb_last_refill b' - tb_last_refill b)"
    and "tb_last_refill b \<le> tb_last_refill b'" and "tb_last_refill b' \<le> now"
proof -
  have dec: "0 < t \<Longrightarrow> 1 + real (unat (t - 1 :: u64)) = real (unat t)" for t
    by (simp add: unat_minus_one word_neq_0_conv unat_gt_0 of_nat_diff Suc_leI)
  have "real (unat (min (tb_tokens b + refill_amount rl d) (rl_max_requests rl)))
      \<le> real (unat (tb_tokens b)) + rate_per_nano rl * real d" for d
    using min_add_upper [of "tb_tokens b" "refill_amount rl d" "rl_max_requests rl"]
      refill_rate [OF assms(1), of d] by linarith
  then show "of_bool ok + real (unat (tb_tokens b'))
      \<le> real (unat (tb_tokens b)) + rate_per_nano rl * real (tb_last_refill b' - tb_last_refill b)"
    using assms(3) by (auto simp: check_bucket_def Let_def dec split: if_splits)
  show "tb_last_refill b \<le> tb_last_refill b'" "tb_last_refill b' \<le> now"
    using assms(2,3) by (auto simp: check_bucket_def Let_def split: if_splits)
qed

abbreviation permits :: "bool list \<Rightarrow> nat" where
  "permits oks \<equiv> length (filter (\<lambda>ok. ok) oks)"

lemma run_bucket_potential:
  assumes "1 \<le> unat (rl_window_secs rl)" and "sorted (tb_last_refill b # ts)"
  shows "\<exists>b'. fst (run_local (bucket_act rl) (Some b) ts) = Some b' \<and>
    real (permits (snd (run_local (bucket_act rl) (Some b) ts))) + real (unat (tb_tokens b'))
      \<le> real (unat (tb_tokens b)) + rate_per_nano rl * real (tb_last_refill b' - tb_last_refill b) \<and>
    tb_last_refill b \<le> tb_last_refill b' \<and> tb_last_refill b' \<le> last (tb_last_refill b # ts)"
  using assms(2)
proof (induction ts arbitrary: b)
  case (Cons t ts)
  obtain b1 ok where c: "check_bucket rl b t = (b1, ok)" by force
  note step = check_bucket_potential [OF assms(1) _ c]
  have le: "tb_last_refill b \<le> t" using Cons.prems by simp
  have "sorted (tb_last_refill b1 # ts)"
    using Cons.prems step(3) [OF le] by (auto intro: order_trans)
  from Cons.IH [OF this] obtain b' where
    b': "fst (run_local (bucket_act rl) (Some b1) ts) = Some b'"
      "real (permits (snd (run_local (bucket_act rl) (Some b1) ts))) + real (unat (tb_tokens b'))
        \<le> real (unat (tb_tokens b1)) + rate_per_nano rl * real (tb_last_refill b' - tb_last_refill b1)"
      "tb_last_refill b1 \<le> tb_last_refill b'" "tb_last_refill b' \<le> last (tb_last_refill b1 # ts)"
    by blast
  have "rate_per_nano rl * real (tb_last_refill b1 - tb_last_refill b)
      + rate_per_nano rl * real (tb_last_refill b' - tb_last_refill b1)
    = rate_per_nano rl * real (tb_last_refill b' - tb_last_refill b)"
    using step(2) [OF le] b'(3) by (simp add: of_nat_diff flip: distrib_left)
  moreover have "tb_last_refill b' \<le> last (t # ts)"
    using b'(4) step(3) [OF le] by (cases ts) auto
  moreover have "bucket_act rl (Some b) t = (Some b1, ok)" by (simp add: bucket_act_def c)
  ultimately show ?case
    using step(1,2) [OF le] b'
    by (intro exI [of _ b']) (auto simp: split_beta Let_def)
qed simp

lemma bucket_act_none: "bucket_act rl None t = bucket_act rl (Some (fresh_bucket rl t)) t"
  by (simp add: bucket_act_def)

lemma run_bucket_fresh:
  "run_local (bucket_act rl) None (t # ts)
     = run_local (bucket_act rl) (Some (fresh_bucket rl t)) (t # ts)"
  by (simp add: bucket_act_none)

lemma fresh_bucket_fields [simp]:
  "tb_tokens (fresh_bucket rl t) = rl_max_requests rl"
  "tb_last_refill (fresh_bucket rl t) = t"
  by (simp_all add: fresh_bucket_def)

lemma refill_amount_0 [simp]: "refill_amount rl 0 = 0"
  by (simp add: refill_amount_def as_secs_f64_def f64_as_u64_def)

lemma check_bucket_same_instant:
  "check_bucket rl b (tb_last_refill b) =
     (if tb_tokens b > 0 then (b\<lparr>tb_tokens := tb_tokens b - 1\<rparr>, True) else (b, False))"
  by (simp add: check_bucket_def)

lemma run_bucket_same_instant:
  "snd (run_local (bucket_act rl) (Some b) (replicate n (tb_last_refill b))) =
     replicate (min n (unat (tb_tokens b))) True @ replicate (n - unat (tb_tokens b)) False"
proof (induction n arbitrary: b)
  case (Suc n)
  show ?case
  proof (cases "tb_tokens b > 0")
    case True
    then have "unat (tb_tokens b) = Suc (unat (tb_tokens b - 1))"
      by (simp add: unat_minus_one word_neq_0_conv unat_gt_0)
    with True show ?thesis
      using Suc.IH [of "b\<lparr>tb_tokens := tb_tokens b - 1\<rparr>"]
      by (simp add: bucket_act_def check_bucket_same_instant split_beta Let_def)
  next
    case False
    then have "tb_tokens b = 0" using word_neq_0_conv by blast
    then show ?thesis
      using Suc.IH [of b] by (simp add: bucket_act_def check_bucket_same_instant split_beta Let_def)
  qed
qed simp

section \<open>What the limiter guarantees\<close>

text \<open>
  C19. The rate limit holds over any stretch of time. However the requests of a client are spaced and
  whatever other clients do in between, the number the limiter lets through from the client's first
  request at \<open>t0\<close> to its last one is at most \<open>max_requests\<close> plus \<open>max_requests\<close> per window of
  elapsed time, up to a relative rounding error of \<open>2^-50\<close> in the double-precision refill.
\<close>

theorem rate_bound:
  assumes "rate_reachable rl" and "rl_buckets rl key = None"
    and "for_key key evs = t0 # ts" and "sorted (t0 # ts)"
  shows "real (permits (for_key key (snd (run_keyed rate_check rl evs))))
    \<le> real (unat (rl_max_requests rl))
      * (1 + (1 + 1 / 2 ^ 50) * (secs (last (t0 # ts) - t0) / real (unat (rl_window_secs rl))))"
proof -
  note w = limiter_inv_window [OF rate_reachable_inv [OF assms(1)]]
  let ?oks = "for_key key (snd (run_keyed rate_check rl evs))"
  have oks: "?oks = snd (run_local (bucket_act rl) (Some (fresh_bucket rl t0)) (t0 # ts))"
    using limiter.run_project [of rl evs key] assms(2,3)
    by (simp add: bucket_of_def run_bucket_fresh del: run_local.simps)
  have "sorted (tb_last_refill (fresh_bucket rl t0) # t0 # ts)" using assms(4) by simp
  from run_bucket_potential [OF w this] obtain b' :: token_bucket where
    p: "real (permits ?oks) + real (unat (tb_tokens b')) \<le> real (unat (rl_max_requests rl))
        + rate_per_nano rl * real (tb_last_refill b' - t0)"
      and l: "tb_last_refill b' \<le> last (t0 # ts)"
    unfolding oks by (auto simp del: run_local.simps of_nat_diff)
  have "0 \<le> rate_per_nano rl" by (simp add: rate_per_nano_def)
  then have "rate_per_nano rl * real (tb_last_refill b' - t0)
      \<le> rate_per_nano rl * real (last (t0 # ts) - t0)"
    using l by (intro mult_left_mono) auto
  also have "\<dots> = real (unat (rl_max_requests rl)) * ((1 + 1 / 2 ^ 50)
      * (secs (last (t0 # ts) - t0) / real (unat (rl_window_secs rl))))"
    unfolding rate_per_nano_def secs_def
    by (simp only: times_divide_eq_left times_divide_eq_right divide_divide_eq_left mult_ac)
  finally show ?thesis using p by (simp only: distrib_left mult_1_right)
qed

theorem rate_bound_witness:
  "real (permits (for_key ''a'' (snd (run_keyed rate_check (rate_limiter_new 3 60)
       [(''a'', 5), (''b'', 6), (''a'', 5 + 30 * nanos_per_sec)]))))
     \<le> 3 * (1 + (1 + 1 / 2 ^ 50) * (30 / 60))"
proof -
  have m: "rl_max_requests (rate_limiter_new 3 60) = 3" "rl_window_secs (rate_limiter_new 3 60) = 60"
    by (simp_all add: rate_limiter_new_def max_def word_le_nat_alt)
  show ?thesis
    using rate_bound [OF rate_reachable.start [of 3 60], of "''a''"
        "[(''a'', 5), (''b'', 6), (''a'', 5 + 30 * nanos_per_sec)]" 5 "[5 + 30 * nanos_per_sec]"]
    by (simp add: m secs_def nanos_per_sec_def rate_limiter_new_def del: run_keyed.simps)
qed

text \<open>
  C7. A burst is served exactly up to the limit: of \<open>n\<close> requests a new client makes at one instant,
  the first \<open>max_requests\<close> are let through and all the others are refused, even when other
  clients' requests fall in between.
\<close>

theorem rate_burst_exact:
  assumes "rl_buckets rl key = None" and "for_key key evs = replicate n t"
  shows "for_key key (snd (run_keyed rate_check rl evs)) =
    replicate (min n (unat (rl_max_requests rl))) True @
    replicate (n - unat (rl_max_requests rl)) False"
proof (cases n)
  case 0
  with assms show ?thesis
    using limiter.run_project [of rl evs key] by (simp add: bucket_of_def)
next
  case (Suc k)
  have "for_key key (snd (run_keyed rate_check rl evs))
      = snd (run_local (bucket_act rl) (Some (fresh_bucket rl t)) (replicate n t))"
    using limiter.run_project [of rl evs key] assms
    by (simp add: bucket_of_def run_bucket_fresh Suc del: run_local.simps)
  then show ?thesis using run_bucket_same_instant [of rl "fresh_bucket rl t" n] by simp
qed

theorem rate_burst_exact_witness:
  "for_key ''a'' (snd (run_keyed rate_check (rate_limiter_new 2 60)
     [(''a'', 7), (''a'', 7), (''b'', 7), (''a'', 7)])) = [True, True, False]"
proof -
  have "rl_max_requests (rate_limiter_new 2 60) = 2"
    by (simp add: rate_limiter_new_def max_def word_le_nat_alt)
  then show ?thesis
    using rate_burst_exact [of "rate_limiter_new 2 60" "''a''"
        "[(''a'', 7), (''a'', 7), (''b'', 7), (''a'', 7)]" 3 7]
    by (simp add: rate_limiter_new_def numeral_3_eq_3 del: run_keyed.simps)
qed

text \<open>
  C40. Waiting pays: a client that stays away for a whole window finds its bucket full again. The
  request is let through and leaves \<open>max_requests - 1\<close> tokens, provided the limit and the pause are
  small enough (\<open>2^32\<close> requests, \<open>2^30\<close> seconds) for the \<open>u64\<close> sum of tokens and refill not to
  wrap around.
\<close>

theorem rate_window_restores:
  assumes "rate_reachable rl" and "rl_buckets rl key = Some b"
    and "unat (rl_window_secs rl) * nanos_per_sec \<le> now - tb_last_refill b"
    and "now - tb_last_refill b \<le> 2 ^ 30 * nanos_per_sec" and "unat (rl_max_requests rl) \<le> 2 ^ 32"
  shows "snd (rate_check rl key now) \<and>
    rl_buckets (fst (rate_check rl key now)) key
      = Some \<lparr>tb_tokens = rl_max_requests rl - 1, tb_last_refill = now\<rparr>"
proof -
  note inv = rate_reachable_inv [OF assms(1)]
  let ?r = "refill_amount rl (now - tb_last_refill b)"
  have w: "1 \<le> unat (rl_window_secs rl)" by (rule limiter_inv_window [OF inv])
  have m: "0 < rl_max_requests rl" "unat (tb_tokens b) \<le> unat (rl_max_requests rl)"
    using inv assms(2) by (auto simp: limiter_inv_def word_le_nat_alt word_less_nat_alt)
  have full: "unat (rl_max_requests rl) \<le> unat ?r"
    using assms(5) by (intro refill_full_window assms(3) w) simp
  have "secs (now - tb_last_refill b) \<le> 2 ^ 30"
  proof -
    have "real (now - tb_last_refill b) \<le> real (2 ^ 30 * nanos_per_sec)"
      using assms(4) by (simp only: of_nat_le_iff)
    then show ?thesis by (simp add: secs_def nanos_per_sec_def)
  qed
  moreover have "real (unat (rl_max_requests rl)) \<le> 2 ^ 32"
    using assms(5) by (metis of_nat_le_iff of_nat_numeral of_nat_power)
  ultimately have "secs (now - tb_last_refill b) / real (unat (rl_window_secs rl))
      * real (unat (rl_max_requests rl)) * (1 + 1 / 2 ^ 50) \<le> 2 ^ 30 / 1 * 2 ^ 32 * (1 + 1 / 2 ^ 50)"
    using w by (intro mult_mono frac_le) (auto simp: secs_def)
  then have "real (unat ?r) \<le> 2 ^ 62 + 2 ^ 12"
    using refill_upper [OF w, of "now - tb_last_refill b"] by simp
  then have "real (unat ?r) \<le> real (2 ^ 62 + 2 ^ 12)" by simp
  then have "unat ?r \<le> 2 ^ 62 + 2 ^ 12" by (simp only: of_nat_le_iff)
  then have "unat (tb_tokens b + ?r) = unat (tb_tokens b) + unat ?r"
    using m assms(5) by (simp add: unat_word_ariths)
  then have "min (tb_tokens b + ?r) (rl_max_requests rl) = rl_max_requests rl"
    using full by (auto simp: min_def word_le_nat_alt word_unat_eq_iff)
  moreover have "0 < ?r" using full m by (simp add: word_less_nat_alt)
  ultimately show ?thesis
    using m assms(2) by (simp add: rate_check_def check_bucket_def Let_def)
qed

theorem rate_window_restores_witness:
  "let rl = fst (rate_check (rate_limiter_new 1 60) ''a'' 0) in
   snd (rate_check rl ''a'' (60 * nanos_per_sec)) \<and>
   rl_buckets (fst (rate_check rl ''a'' (60 * nanos_per_sec))) ''a''
     = Some \<lparr>tb_tokens = 0, tb_last_refill = 60 * nanos_per_sec\<rparr>"
proof -
  let ?rl = "fst (rate_check (rate_limiter_new 1 60) ''a'' 0)"
  have m: "rl_max_requests ?rl = 1" "rl_window_secs ?rl = 60"
    by (simp_all add: rate_check_def rate_limiter_new_def max_def word_le_nat_alt split_beta)
  have "rl_buckets ?rl ''a'' = Some \<lparr>tb_tokens = 0, tb_last_refill = 0\<rparr>"
    by (simp add: rate_check_def rate_limiter_new_def check_bucket_def fresh_bucket_def)
  from rate_window_restores [OF rate_reachable.check [OF rate_reachable.start] this, of "60 * nanos_per_sec"]
  show ?thesis by (simp add: m nanos_per_sec_def Let_def)
qed

section \<open>The key of a client\<close>

fun run_limited ::
    "rate_limiter \<Rightarrow> (limited_request \<times> instant) list \<Rightarrow> limited_request limited list" where
  "run_limited rl [] = []"
| "run_limited rl ((req, now) # reqs) =
     (let (rl', r) = rate_limit_middleware rl req now in r # run_limited rl' reqs)"

lemma run_limited_new_keys:
  assumes "limiter_inv rl" and "distinct (map (rate_key \<circ> fst) reqs)"
    and "\<forall>(req, now) \<in> set reqs. rl_buckets rl (rate_key req) = None"
  shows "run_limited rl reqs = map (Forward \<circ> fst) reqs"
  using assms
proof (induction reqs arbitrary: rl)
  case (Cons x reqs)
  obtain req now where x: "x = (req, now)" by force
  let ?rl = "fst (rate_check rl (rate_key req) now)"
  have "snd (rate_check rl (rate_key req) now)"
    using Cons.prems(1,3)
    by (auto simp: x rate_check_def check_bucket_def fresh_bucket_def limiter_inv_def split_beta
        word_le_nat_alt word_less_nat_alt)
  moreover have "run_limited ?rl reqs = map (Forward \<circ> fst) reqs"
    using Cons.prems by (intro Cons.IH limiter_inv_check)
      (auto simp: x rate_check_def split_beta image_iff)
  ultimately show ?case by (simp add: x rate_limit_middleware_def split_beta Let_def)
qed simp

lemma show_socket_addr_port: "show_socket_addr \<lparr>sa_ip = ip, sa_is_v6 = v, sa_port = p\<rparr>
    = show_socket_addr \<lparr>sa_ip = ip, sa_is_v6 = v, sa_port = q\<rparr> \<longleftrightarrow> p = q"
  by (simp add: show_socket_addr_def word_unat_eq_iff)

text \<open>
  The limiter counts connections, not clients: the key contains the TCP port. A single host that
  opens a new connection for each request, so that the ports differ, is never refused, whatever the
  limit, the number of requests and their timing.
\<close>

theorem rate_limit_per_port:
  assumes "distinct (map fst reqs)"
  shows "run_limited (rate_limiter_new m w)
      (map (\<lambda>(port, now). (\<lparr>lr_connect_info = Some \<lparr>sa_ip = ip, sa_is_v6 = v6, sa_port = port\<rparr>,
         lr_path = path\<rparr>, now)) reqs)
    = map (\<lambda>(port, now). Forward \<lparr>lr_connect_info = Some \<lparr>sa_ip = ip, sa_is_v6 = v6, sa_port = port\<rparr>,
         lr_path = path\<rparr>) reqs"
proof -
  have d: "distinct (map (\<lambda>p. show_socket_addr \<lparr>sa_ip = ip, sa_is_v6 = v6, sa_port = p\<rparr>) (map fst reqs))"
    using assms by (simp add: distinct_map inj_on_def show_socket_addr_port del: map_map)
  show ?thesis
    using d by (subst run_limited_new_keys [OF limiter_inv_new])
      (auto simp: rate_key_def comp_def split_beta rate_limiter_new_def)
qed

theorem rate_limit_per_port_witness:
  "run_limited (rate_limiter_new 1 3600)
     [(\<lparr>lr_connect_info = Some \<lparr>sa_ip = ''10.0.0.1'', sa_is_v6 = False, sa_port = 4001\<rparr>, lr_path = ''/msg''\<rparr>, 0),
      (\<lparr>lr_connect_info = Some \<lparr>sa_ip = ''10.0.0.1'', sa_is_v6 = False, sa_port = 4002\<rparr>, lr_path = ''/msg''\<rparr>, 0)]
   = [Forward \<lparr>lr_connect_info = Some \<lparr>sa_ip = ''10.0.0.1'', sa_is_v6 = False, sa_port = 4001\<rparr>, lr_path = ''/msg''\<rparr>,
      Forward \<lparr>lr_connect_info = Some \<lparr>sa_ip = ''10.0.0.1'', sa_is_v6 = False, sa_port = 4002\<rparr>, lr_path = ''/msg''\<rparr>]"
  using rate_limit_per_port [of "[(4001, 0), (4002, 0)]" 1 3600 "''10.0.0.1''" False "''/msg''"]
  by (simp del: run_limited.simps)

end
