(* ===== verification/Config.thy ===== *)
theory Config
  imports RateLimit Plumber
begin

text \<open>
  The configuration of the hub, \<open>src/config.rs\<close>: its sections with their defaults, reading it from a
  file and the environment overrides. The TOML parser is a parameter that yields a \<open>raw_config\<close>, the
  document's fields that are present; what the \<open>#[serde(default)]\<close> attributes make of the absent ones
  is \<open>fill_config\<close>. Floating-point settings are real numbers.
\<close>

section \<open>Sections\<close>

record hub_config =
  hc_bind_addr :: socket_addr
  hc_max_agents :: u64
  hc_heartbeat_interval_secs :: u64
  hc_probe_interval_secs :: u64
  hc_database_url :: string

record quantum_config =
  qc_enabled :: bool
  qc_decoherence_rate :: real
  qc_exploration_rate :: real
  qc_entanglement_window :: u64
  qc_min_samples_before_exploit :: u64

record discovery_config =
  dc_scan_ports :: "u16 list"
  dc_scan_interval_secs :: u64
  dc_docker_enabled :: bool

record endpoint_config =
  epc_name :: string
  epc_url :: string
  epc_endpoint_type :: string
  epc_weight :: real
  epc_tags :: "string list"
  epc_headers :: "string \<rightharpoonup> string"

record auth_section =
  as_api_key :: "string option"
  as_agent_token :: "string option"

record rate_limit_config =
  rlc_enabled :: bool
  rlc_max_requests :: u64
  rlc_window_secs :: u64

record circuit_config =
  ccf_enabled :: bool
  ccf_failure_threshold :: u32
  ccf_recovery_timeout_secs :: u64
  ccf_half_open_max_calls :: u32

record tls_config =
  tc_enabled :: bool
  tc_cert_path :: "string option"
  tc_key_path :: "string option"
  tc_client_ca_path :: "string option"

record config =
  cf_hub :: hub_config
  cf_quantum :: quantum_config
  cf_discovery :: discovery_config
  cf_endpoints :: "endpoint_config list"
  cf_plumber :: "rule_config list"
  cf_default_model :: string
  cf_model_aliases :: "string \<rightharpoonup> string"
  cf_auth :: auth_section
  cf_rate_limit :: rate_limit_config
  cf_circuit :: circuit_config
  cf_tls :: tls_config

section \<open>Defaults\<close>

definition hub_config_default :: hub_config where
  "hub_config_default =
     \<lparr>hc_bind_addr = \<lparr>sa_ip = ''0.0.0.0'', sa_is_v6 = False, sa_port = 9999\<rparr>, hc_max_agents = 100,
      hc_heartbeat_interval_secs = 30, hc_probe_interval_secs = 30,
      hc_database_url = ''sqlite:xfiles.db''\<rparr>"

definition quantum_config_default :: quantum_config where
  "quantum_config_default =
     \<lparr>qc_enabled = True, qc_decoherence_rate = 5 / 100, qc_exploration_rate = 15 / 100,
      qc_entanglement_window = 10, qc_min_samples_before_exploit = 5\<rparr>"

definition discovery_config_default :: discovery_config where
  "discovery_config_default =
     \<lparr>dc_scan_ports = [3000, 8080, 7777, 8000, 11434, 9000], dc_scan_interval_secs = 60,
      dc_docker_enabled = False\<rparr>"

definition default_model :: string where
  "default_model = ''kimi-k2.6''"

definition rate_limit_config_default :: rate_limit_config where
  "rate_limit_config_default = \<lparr>rlc_enabled = True, rlc_max_requests = 100, rlc_window_secs = 60\<rparr>"

definition circuit_config_default :: circuit_config where
  "circuit_config_default =
     \<lparr>ccf_enabled = True, ccf_failure_threshold = 5, ccf_recovery_timeout_secs = 30,
      ccf_half_open_max_calls = 3\<rparr>"

definition tls_config_default :: tls_config where
  "tls_config_default =
     \<lparr>tc_enabled = False, tc_cert_path = None, tc_key_path = None, tc_client_ca_path = None\<rparr>"

definition auth_section_default :: auth_section where
  "auth_section_default = \<lparr>as_api_key = None, as_agent_token = None\<rparr>"

definition config_default :: config where
  "config_default =
     \<lparr>cf_hub = hub_config_default, cf_quantum = quantum_config_default,
      cf_discovery = discovery_config_default, cf_endpoints = [], cf_plumber = [],
      cf_default_model = default_model, cf_model_aliases = [''default'' \<mapsto> default_model],
      cf_auth = auth_section_default, cf_rate_limit = rate_limit_config_default,
      cf_circuit = circuit_config_default, cf_tls = tls_config_default\<rparr>"

section \<open>What a document leaves out\<close>

record raw_hub =
  rh_bind_addr :: "socket_addr option"
  rh_max_agents :: "u64 option"
  rh_heartbeat_interval_secs :: "u64 option"
  rh_probe_interval_secs :: "u64 option"
  rh_database_url :: "string option"

record raw_quantum =
  rq_enabled :: "bool option"
  rq_decoherence_rate :: "real option"
  rq_exploration_rate :: "real option"
  rq_entanglement_window :: "u64 option"
  rq_min_samples_before_exploit :: "u64 option"

record raw_discovery =
  rd_scan_ports :: "u16 list option"
  rd_scan_interval_secs :: "u64 option"
  rd_docker_enabled :: "bool option"

record raw_endpoint =
  re_name :: string
  re_url :: string
  re_endpoint_type :: string
  re_weight :: "real option"
  re_tags :: "string list option"
  re_headers :: "(string \<rightharpoonup> string) option"

record raw_rule =
  rr_name :: string
  rr_pattern :: string
  rr_destination :: string
  rr_priority :: "int option"
  rr_header_match :: "(string \<times> string) list option"

record raw_rate_limit =
  rrl_enabled :: "bool option"
  rrl_max_requests :: "u64 option"
  rrl_window_secs :: "u64 option"

record raw_circuit =
  rci_enabled :: "bool option"
  rci_failure_threshold :: "u32 option"
  rci_recovery_timeout_secs :: "u64 option"
  rci_half_open_max_calls :: "u32 option"

record raw_tls =
  rt_enabled :: "bool option"
  rt_cert_path :: "string option"
  rt_key_path :: "string option"
  rt_client_ca_path :: "string option"

record raw_config =
  rw_hub :: "raw_hub option"
  rw_quantum :: "raw_quantum option"
  rw_discovery :: "raw_discovery option"
  rw_endpoints :: "raw_endpoint list option"
  rw_plumber :: "raw_rule list option"
  rw_default_model :: "string option"
  rw_model_aliases :: "(string \<rightharpoonup> string) option"
  rw_auth :: "auth_section option"
  rw_rate_limit :: "raw_rate_limit option"
  rw_circuit :: "raw_circuit option"
  rw_tls :: "raw_tls option"

fun or_default :: "'a option \<Rightarrow> 'a \<Rightarrow> 'a" where
  "or_default (Some x) d = x"
| "or_default None d = d"

definition fill_hub :: "raw_hub \<Rightarrow> hub_config" where
  "fill_hub r =
     \<lparr>hc_bind_addr = or_default (rh_bind_addr r) \<lparr>sa_ip = ''0.0.0.0'', sa_is_v6 = False, sa_port = 9999\<rparr>,
      hc_max_agents = or_default (rh_max_agents r) 100,
      hc_heartbeat_interval_secs = or_default (rh_heartbeat_interval_secs r) 30,
      hc_probe_interval_secs = or_default (rh_probe_interval_secs r) 30,
      hc_database_url = or_default (rh_database_url r) ''sqlite:xfiles.db''\<rparr>"

definition fill_quantum :: "raw_quantum \<Rightarrow> quantum_config" where
  "fill_quantum r =
     \<lparr>qc_enabled = or_default (rq_enabled r) True,
      qc_decoherence_rate = or_default (rq_decoherence_rate r) (5 / 100),
      qc_exploration_rate = or_default (rq_exploration_rate r) (15 / 100),
      qc_entanglement_window = or_default (rq_entanglement_window r) 10,
      qc_min_samples_before_exploit = or_default (rq_min_samples_before_exploit r) 5\<rparr>"

definition fill_discovery :: "raw_discovery \<Rightarrow> discovery_config" where
  "fill_discovery r =
     \<lparr>dc_scan_ports = or_default (rd_scan_ports r) [3000, 8080, 7777, 8000, 11434, 9000],
      dc_scan_interval_secs = or_default (rd_scan_interval_secs r) 60,
      dc_docker_enabled = or_default (rd_docker_enabled r) False\<rparr>"

definition fill_endpoint :: "raw_endpoint \<Rightarrow> endpoint_config" where
  "fill_endpoint r =
     \<lparr>epc_name = re_name r, epc_url = re_url r, epc_endpoint_type = re_endpoint_type r,
      epc_weight = or_default (re_weight r) 1, epc_tags = or_default (re_tags r) [],
      epc_headers = or_default (re_headers r) Map.empty\<rparr>"

definition fill_rule :: "raw_rule \<Rightarrow> rule_config" where
  "fill_rule r =
     \<lparr>rc_name = rr_name r, rc_pattern = rr_pattern r, rc_destination = rr_destination r,
      rc_priority = or_default (rr_priority r) 100, rc_header_match = rr_header_match r\<rparr>"

definition fill_rate_limit :: "raw_rate_limit \<Rightarrow> rate_limit_config" where
  "fill_rate_limit r =
     \<lparr>rlc_enabled = or_default (rrl_enabled r) True,
      rlc_max_requests = or_default (rrl_max_requests r) 100,
      rlc_window_secs = or_default (rrl_window_secs r) 60\<rparr>"

definition fill_circuit :: "raw_circuit \<Rightarrow> circuit_config" where
  "fill_circuit r =
     \<lparr>ccf_enabled = or_default (rci_enabled r) True,
      ccf_failure_threshold = or_default (rci_failure_threshold r) 5,
      ccf_recovery_timeout_secs = or_default (rci_recovery_timeout_secs r) 30,
      ccf_half_open_max_calls = or_default (rci_half_open_max_calls r) 3\<rparr>"

definition fill_tls :: "raw_tls \<Rightarrow> tls_config" where
  "fill_tls r =
     \<lparr>tc_enabled = or_default (rt_enabled r) False, tc_cert_path = rt_cert_path r,
      tc_key_path = rt_key_path r, tc_client_ca_path = rt_client_ca_path r\<rparr>"

definition fill_config :: "raw_config \<Rightarrow> config result" where
  "fill_config r =
     (case rw_hub r of
        None \<Rightarrow> Inl ''missing field `hub`''
      | Some h \<Rightarrow> Inr
          \<lparr>cf_hub = fill_hub h,
           cf_quantum = or_default (map_option fill_quantum (rw_quantum r)) quantum_config_default,
           cf_discovery = or_default (map_option fill_discovery (rw_discovery r)) discovery_config_default,
           cf_endpoints = map fill_endpoint (or_default (rw_endpoints r) []),
           cf_plumber = map fill_rule (or_default (rw_plumber r) []),
           cf_default_model = or_default (rw_default_model r) default_model,
           cf_model_aliases = or_default (rw_model_aliases r) Map.empty,
           cf_auth = or_default (rw_auth r) auth_section_default,
           cf_rate_limit = or_default (map_option fill_rate_limit (rw_rate_limit r)) rate_limit_config_default,
           cf_circuit = or_default (map_option fill_circuit (rw_circuit r)) circuit_config_default,
           cf_tls = or_default (map_option fill_tls (rw_tls r)) tls_config_default\<rparr>)"

section \<open>Reading the configuration\<close>

text \<open>The process environment, the file system and the parsers of TOML and of addresses.\<close>

record environment =
  env_var :: "string \<Rightarrow> string option"
  file_exists :: "string \<Rightarrow> bool"
  read_file :: "string \<Rightarrow> string result"
  parse_toml :: "string \<Rightarrow> raw_config result"
  parse_addr :: "string \<Rightarrow> socket_addr result"

fun parse_int_message :: "parse_int_error \<Rightarrow> string" where
  "parse_int_message EmptyInt = ''cannot parse integer from empty string''"
| "parse_int_message InvalidDigit = ''invalid digit found in string''"
| "parse_int_message PosOverflow = ''number too large to fit in target type''"

definition parse_u64 :: "string \<Rightarrow> u64 result" where
  "parse_u64 s =
     (case parse_unsigned (2 ^ 64 - 1) s of Inl e \<Rightarrow> Inl (parse_int_message e) | Inr n \<Rightarrow> Inr (of_nat n))"

definition parse_bool_or_true :: "string \<Rightarrow> bool" where
  "parse_bool_or_true s = (if s = ''true'' then True else if s = ''false'' then False else True)"

definition read_config :: "environment \<Rightarrow> config result" where
  "read_config env =
     (let config_path = or_default (env_var env ''XFILES_CONFIG'') ''xfiles.toml''
      in if file_exists env config_path
         then (case read_file env config_path of
                 Inl e \<Rightarrow> Inl e
               | Inr contents \<Rightarrow> (case parse_toml env contents of
                   Inl e \<Rightarrow> Inl e
                 | Inr raw \<Rightarrow> fill_config raw))
         else Inr config_default)"

definition override_bind :: "environment \<Rightarrow> config \<Rightarrow> config result" where
  "override_bind env cfg =
     (case env_var env ''XFILES_BIND'' of
        None \<Rightarrow> Inr cfg
      | Some bind \<Rightarrow> (case parse_addr env bind of
          Inl e \<Rightarrow> Inl e
        | Inr a \<Rightarrow> Inr (cfg\<lparr>cf_hub := cf_hub cfg\<lparr>hc_bind_addr := a\<rparr>\<rparr>)))"

definition override_max_agents :: "environment \<Rightarrow> config \<Rightarrow> config result" where
  "override_max_agents env cfg =
     (case env_var env ''XFILES_MAX_AGENTS'' of
        None \<Rightarrow> Inr cfg
      | Some mx \<Rightarrow> (case parse_u64 mx of
          Inl e \<Rightarrow> Inl e
        | Inr n \<Rightarrow> Inr (cfg\<lparr>cf_hub := cf_hub cfg\<lparr>hc_max_agents := n\<rparr>\<rparr>)))"

definition override_quantum :: "environment \<Rightarrow> config \<Rightarrow> config" where
  "override_quantum env cfg =
     (case env_var env ''XFILES_QUANTUM_ENABLED'' of
        None \<Rightarrow> cfg
      | Some v \<Rightarrow> cfg\<lparr>cf_quantum := cf_quantum cfg\<lparr>qc_enabled := parse_bool_or_true v\<rparr>\<rparr>)"

definition config_from_env :: "environment \<Rightarrow> config result" where
  "config_from_env env =
     (case read_config env of
        Inl e \<Rightarrow> Inl e
      | Inr cfg \<Rightarrow> (case override_bind env cfg of
          Inl e \<Rightarrow> Inl e
        | Inr cfg1 \<Rightarrow> (case override_max_agents env cfg1 of
            Inl e \<Rightarrow> Inl e
          | Inr cfg2 \<Rightarrow> Inr (override_quantum env cfg2))))"

section \<open>What the overrides leave alone\<close>

text \<open>An empty table gives a section its defaults.\<close>

lemma fill_empty_sections:
  "fill_hub \<lparr>rh_bind_addr = None, rh_max_agents = None, rh_heartbeat_interval_secs = None,
     rh_probe_interval_secs = None, rh_database_url = None\<rparr> = hub_config_default"
  "fill_quantum \<lparr>rq_enabled = None, rq_decoherence_rate = None, rq_exploration_rate = None,
     rq_entanglement_window = None, rq_min_samples_before_exploit = None\<rparr> = quantum_config_default"
  "fill_discovery \<lparr>rd_scan_ports = None, rd_scan_interval_secs = None, rd_docker_enabled = None\<rparr>
     = discovery_config_default"
  "fill_rate_limit \<lparr>rrl_enabled = None, rrl_max_requests = None, rrl_window_secs = None\<rparr>
     = rate_limit_config_default"
  "fill_circuit \<lparr>rci_enabled = None, rci_failure_threshold = None, rci_recovery_timeout_secs = None,
     rci_half_open_max_calls = None\<rparr> = circuit_config_default"
  by (simp_all add: fill_hub_def hub_config_default_def fill_quantum_def quantum_config_default_def
      fill_discovery_def discovery_config_default_def fill_rate_limit_def rate_limit_config_default_def
      fill_circuit_def circuit_config_default_def)

lemma parse_u64_show: "parse_u64 (show_nat (unat (n :: u64))) = Inr n"
proof -
  have "unat n < 2 ^ 64" using unsigned_less [of n] by simp
  then have "unat n \<le> 2 ^ 64 - 1" by simp
  then show ?thesis by (simp add: parse_u64_def parse_show_nat)
qed

lemma override_auth:
  "override_bind env cfg = Inr cfg1 \<Longrightarrow> cf_auth cfg1 = cf_auth cfg"
  "override_max_agents env cfg = Inr cfg2 \<Longrightarrow> cf_auth cfg2 = cf_auth cfg"
  "cf_auth (override_quantum env cfg) = cf_auth cfg"
  by (auto simp: override_bind_def override_max_agents_def override_quantum_def
      split: option.splits sum.splits)

text \<open>
  C19. The authentication settings come from the configuration file alone: whatever the environment
  holds, in \<open>XFILES_API_KEY\<close> and \<open>XFILES_AGENT_TOKEN\<close> or elsewhere, a hub that finds no configuration
  file runs with neither an API key nor an agent token, and one that finds a file has exactly the
  keys of the file.
\<close>

theorem config_auth_from_file_only:
  assumes "config_from_env env = Inr cfg"
  shows "if file_exists env (or_default (env_var env ''XFILES_CONFIG'') ''xfiles.toml'')
    then \<exists>contents raw.
      read_file env (or_default (env_var env ''XFILES_CONFIG'') ''xfiles.toml'') = Inr contents \<and>
      parse_toml env contents = Inr raw \<and> cf_auth cfg = or_default (rw_auth raw) auth_section_default
    else cf_auth cfg = \<lparr>as_api_key = None, as_agent_token = None\<rparr>"
proof -
  obtain cfg0 cfg1 cfg2 where r: "read_config env = Inr cfg0" and "override_bind env cfg0 = Inr cfg1"
    and "override_max_agents env cfg1 = Inr cfg2" and "cfg = override_quantum env cfg2"
    using assms by (auto simp: config_from_env_def split: sum.splits)
  then have "cf_auth cfg = cf_auth cfg0" by (simp add: override_auth)
  then show ?thesis using r
    by (auto simp: read_config_def Let_def config_default_def auth_section_default_def fill_config_def
        split: sum.splits if_splits option.splits)
qed

theorem config_auth_from_file_only_witness:
  "let env = \<lparr>env_var = (\<lambda>v. if v = ''XFILES_API_KEY'' then Some ''secret'' else None),
       file_exists = (\<lambda>_. False), read_file = (\<lambda>_. Inl ''not found''),
       parse_toml = (\<lambda>_. Inl ''none''), parse_addr = (\<lambda>_. Inl ''none'')\<rparr>
   in config_from_env env = Inr config_default \<and>
      cf_auth config_default = \<lparr>as_api_key = None, as_agent_token = None\<rparr>"
proof -
  let ?env = "\<lparr>env_var = (\<lambda>v. if v = ''XFILES_API_KEY'' then Some ''secret'' else None),
       file_exists = (\<lambda>_. False), read_file = (\<lambda>_. Inl ''not found''),
       parse_toml = (\<lambda>_. Inl ''none''), parse_addr = (\<lambda>_. Inl ''none'')\<rparr>"
  have "config_from_env ?env = Inr config_default"
    by (simp add: config_from_env_def read_config_def override_bind_def override_max_agents_def
        override_quantum_def)
  from config_auth_from_file_only [OF this] this show ?thesis by simp
qed

end
