(* ===== verification/QRouter.thy ===== *)
theory QRouter
  imports QState Config
begin

text \<open>
  The probabilistic router of \<open>src/quantum/router.rs\<close>: it draws an endpoint from a distribution that
  past rewards have shaped, and remembers the last choice of each conversation. The random numbers are
  a parameter: \<open>rng_f64\<close> the draw compared with the exploration rate, \<open>rng_pick n\<close> the index a uniform
  choice among \<open>n\<close> makes, \<open>rng_weighted ws\<close> the index that \<open>WeightedIndex::new(ws)\<close> followed by
  \<open>sample\<close> gives, \<open>None\<close> when the weights are refused. An operation reads the clock once.
\<close>

declare of_nat_unat [simp del]

section \<open>State and operations\<close>

record quantum_router =
  qr_state :: quantum_states
  qr_entanglement :: entanglement_table
  qr_config :: quantum_config
  qr_last_endpoint :: "(uuid, string) dashmap"

record rng =
  rng_f64 :: real
  rng_pick :: "nat \<Rightarrow> nat"
  rng_weighted :: "real list \<Rightarrow> nat option"

text \<open>What the documentation of the \<open>rand\<close> crate promises.\<close>

definition rng_ok :: "rng \<Rightarrow> bool" where
  "rng_ok r \<longleftrightarrow> (\<forall>n > 0. rng_pick r n < n) \<and>
     (\<forall>ws i. rng_weighted r ws = Some i \<longrightarrow> i < length ws \<and> 0 < ws ! i)"

definition quantum_router_new :: "quantum_config \<Rightarrow> quantum_router" where
  "quantum_router_new cfg =
     \<lparr>qr_state = quantum_states_new, qr_entanglement = entanglement_new, qr_config = cfg,
      qr_last_endpoint = Map.empty\<rparr>"

definition choose_one :: "rng \<Rightarrow> 'a list \<Rightarrow> 'a option" where
  "choose_one r xs = (if xs = [] then None else Some (xs ! rng_pick r (length xs)))"

text \<open>The distribution over the candidates before normalisation; each candidate gets a state.\<close>

fun base_distribution ::
    "datetime \<Rightarrow> nat \<Rightarrow> conversation_state \<Rightarrow> string list \<Rightarrow> conversation_state \<times> (string \<times> real) list" where
  "base_distribution now n conv [] = (conv, [])"
| "base_distribution now n conv (c # cs) =
     (let (conv', s) = get_or_insert conv now c;
          prob = (if es_pulls s = 0 then 1 / real n else probability (es_amplitude s));
          (conv'', d) = base_distribution now n conv' cs
      in (conv'', (c, prob) # d))"

definition sample_endpoint_from ::
    "rng \<Rightarrow> real \<Rightarrow> string list \<Rightarrow> (string \<times> real) list \<Rightarrow> string option" where
  "sample_endpoint_from r exploration_rate candidates distribution =
     (if rng_f64 r < exploration_rate then choose_one r candidates
      else case rng_weighted r (map snd distribution) of
             Some idx \<Rightarrow> Some (fst (distribution ! idx))
           | None \<Rightarrow> choose_one r candidates)"

text \<open>Everything up to the random choice: the updated states and the final distribution.\<close>

definition route_distribution ::
    "quantum_router \<Rightarrow> datetime \<Rightarrow> message \<Rightarrow> string list \<Rightarrow> quantum_states \<times> (string \<times> real) list" where
  "route_distribution q now msg candidates =
     (let cid = m_conversation_id msg;
          (qs, conv) = get_or_create (qr_state q) now cid;
          (conv', dist0) = base_distribution now (length candidates) conv candidates;
          previous_endpoint = qr_last_endpoint q cid
      in (qs(cid \<mapsto> conv'),
          apply_entanglement (qr_entanglement q) cid previous_endpoint (renormalize dist0) (2 / 10)))"

definition quantum_route ::
    "rng \<Rightarrow> quantum_router \<Rightarrow> datetime \<Rightarrow> message \<Rightarrow> string list \<Rightarrow> quantum_router \<times> string option" where
  "quantum_route r q now msg candidates =
     (if candidates = [] then (q, None)
      else
        (let (qs, distribution) = route_distribution q now msg candidates;
             selected = sample_endpoint_from r (qc_exploration_rate (qr_config q)) candidates distribution;
             q1 = q\<lparr>qr_state := qs\<rparr>
         in (case selected of
               Some ep_id \<Rightarrow>
                 q1\<lparr>qr_last_endpoint := (qr_last_endpoint q1)(m_conversation_id msg \<mapsto> ep_id)\<rparr>
             | None \<Rightarrow> q1,
             selected)))"

definition observed_reward :: "bool \<Rightarrow> u64 \<Rightarrow> real" where
  "observed_reward success latency_ms =
     (let latency_penalty = min (real (unat latency_ms) / 5000) 1
      in if success then 1 - latency_penalty * (3 / 10) else 0)"

text \<open>\<open>observe\<close> also hands the new endpoint state to the store; the result's second part.\<close>

definition quantum_observe ::
    "string list \<Rightarrow> quantum_router \<Rightarrow> datetime \<Rightarrow> uuid \<Rightarrow> string \<Rightarrow> bool \<Rightarrow> u64 \<Rightarrow>
     quantum_router \<times> (uuid \<times> string \<times> endpoint_state) option" where
  "quantum_observe ks q now conversation_id endpoint_id success latency_ms =
     (let reward = observed_reward success latency_ms;
          qs = states_update ks (qr_state q) now conversation_id endpoint_id reward
                 (qc_decoherence_rate (qr_config q));
          (qs', state) = get_or_create qs now conversation_id
      in (q\<lparr>qr_state := qs'\<rparr>,
          map_option (\<lambda>e. (conversation_id, endpoint_id, e)) (cs_endpoint_states state endpoint_id)))"

definition quantum_feedback ::
    "string list \<Rightarrow> quantum_router \<Rightarrow> datetime \<Rightarrow> uuid \<Rightarrow> string \<Rightarrow> real \<Rightarrow> quantum_router" where
  "quantum_feedback ks q now conversation_id endpoint_id quality_score =
     (let reward = clamp quality_score 0 1
      in q\<lparr>qr_state := states_update ks (qr_state q) now conversation_id endpoint_id reward
             (qc_decoherence_rate (qr_config q))\<rparr>)"

definition quantum_diagnostics ::
    "string list \<Rightarrow> quantum_router \<Rightarrow> datetime \<Rightarrow> uuid \<Rightarrow> quantum_router \<times> endpoint_diagnostic list" where
  "quantum_diagnostics ks q now conversation_id =
     (let (qs, conv) = get_or_create (qr_state q) now conversation_id
      in (q\<lparr>qr_state := qs\<rparr>, collect ks endpoint_diagnostic (cs_endpoint_states conv)))"

definition quantum_tick :: "uuid list \<Rightarrow> uuid list \<Rightarrow> quantum_router \<Rightarrow> datetime \<Rightarrow> quantum_router" where
  "quantum_tick cs es q now =
     (let qs = states_prune_old cs 3600 now (qr_state q);
          tbl = entanglement_prune_old es
                  (int (unat (qc_entanglement_window (qr_config q) * 2))) now (qr_entanglement q)
      in q\<lparr>qr_state := qs, qr_entanglement := tbl,
           qr_last_endpoint := retain (\<lambda>k _. states_get qs k \<noteq> None) (qr_last_endpoint q)\<rparr>)"

definition quantum_conversation_count :: "quantum_router \<Rightarrow> nat" where
  "quantum_conversation_count q = conversation_count (qr_state q)"

definition quantum_conversation_state :: "quantum_router \<Rightarrow> uuid \<Rightarrow> conversation_state option" where
  "quantum_conversation_state q cid = states_get (qr_state q) cid"

definition last_endpoint_count :: "quantum_router \<Rightarrow> nat" where
  "last_endpoint_count q = card (dom (qr_last_endpoint q))"

section \<open>Reachable routers\<close>

text \<open>An iteration order of a conversation's endpoints once \<open>endpoint_id\<close> is among them.\<close>

definition endpoint_order :: "string list \<Rightarrow> quantum_router \<Rightarrow> uuid \<Rightarrow> string \<Rightarrow> bool" where
  "endpoint_order ks q cid endpoint_id \<longleftrightarrow>
     distinct ks \<and> set ks = insert endpoint_id
       (case qr_state q cid of None \<Rightarrow> {} | Some conv \<Rightarrow> dom (cs_endpoint_states conv))"

inductive quantum_step :: "quantum_router \<Rightarrow> quantum_router \<Rightarrow> bool" where
  route: "rng_ok r \<Longrightarrow> quantum_step q (fst (quantum_route r q now msg candidates))"
| observe: "endpoint_order ks q cid ep \<Longrightarrow> quantum_step q (fst (quantum_observe ks q now cid ep ok lat))"
| feedback: "endpoint_order ks q cid ep \<Longrightarrow> quantum_step q (quantum_feedback ks q now cid ep score)"
| diagnostics: "quantum_step q (fst (quantum_diagnostics ks q now cid))"
| tick: "iterates cs (qr_state q) \<Longrightarrow> iterates es (qr_entanglement q) \<Longrightarrow>
    quantum_step q (quantum_tick cs es q now)"

inductive quantum_reachable :: "quantum_config \<Rightarrow> nat \<Rightarrow> quantum_router \<Rightarrow> bool" where
  start: "quantum_reachable cfg 0 (quantum_router_new cfg)"
| step: "quantum_reachable cfg n q \<Longrightarrow> quantum_step q q' \<Longrightarrow> quantum_reachable cfg (Suc n) q'"

inductive_cases quantum_stepE: "quantum_step q q'"

text \<open>What each endpoint state satisfies after \<open>n\<close> steps.\<close>

definition endpoint_state_ok :: "nat \<Rightarrow> endpoint_state \<Rightarrow> bool" where
  "endpoint_state_ok n s \<longleftrightarrow> probability (es_amplitude s) \<le> 1 \<and> unat (es_pulls s) \<le> n \<and>
     0 \<le> es_total_reward s \<and> es_total_reward s \<le> real (unat (es_pulls s))"

definition states_ok :: "nat \<Rightarrow> quantum_states \<Rightarrow> bool" where
  "states_ok n qs \<longleftrightarrow>
     (\<forall>cid conv k s. qs cid = Some conv \<longrightarrow> cs_endpoint_states conv k = Some s \<longrightarrow> endpoint_state_ok n s)"

lemma endpoint_state_ok_mono: "endpoint_state_ok n s \<Longrightarrow> n \<le> m \<Longrightarrow> endpoint_state_ok m s"
  by (auto simp: endpoint_state_ok_def)

lemma states_ok_mono: "states_ok n qs \<Longrightarrow> n \<le> m \<Longrightarrow> states_ok m qs"
  unfolding states_ok_def by (blast intro: endpoint_state_ok_mono)

lemma endpoint_state_default_ok: "endpoint_state_ok n (endpoint_state_default now)"
  by (simp add: endpoint_state_ok_def endpoint_state_default_def probability_def amplitude_new_def)

lemma states_ok_upd:
  "states_ok n qs \<Longrightarrow> (\<And>k s. cs_endpoint_states conv k = Some s \<Longrightarrow> endpoint_state_ok n s) \<Longrightarrow>
     states_ok n (qs(cid \<mapsto> conv))"
  by (auto simp: states_ok_def)

lemma states_ok_entry:
  "states_ok n qs \<Longrightarrow> cs_endpoint_states (entry_or qs cid (conversation_new now cid)) k = Some s \<Longrightarrow>
     endpoint_state_ok n s"
  by (cases "qs cid") (auto simp: states_ok_def conversation_new_def)

lemma states_ok_get_or_create: "states_ok n qs \<Longrightarrow> states_ok n (fst (get_or_create qs now cid))"
  unfolding get_or_create_def Let_def fst_conv
  by (rule states_ok_upd) (auto intro: states_ok_entry)

lemma base_distribution_ok:
  "(\<And>k s. cs_endpoint_states conv k = Some s \<Longrightarrow> endpoint_state_ok n s) \<Longrightarrow>
     cs_endpoint_states (fst (base_distribution now m conv cs)) k = Some s \<Longrightarrow> endpoint_state_ok n s"
proof (induction cs arbitrary: conv)
  case (Cons c cs)
  let ?conv = "fst (get_or_insert conv now c)"
  have "endpoint_state_ok n s'" if "cs_endpoint_states ?conv k' = Some s'" for k' s'
    using that Cons.prems(1) endpoint_state_default_ok [of n now]
    by (cases "cs_endpoint_states conv c") (auto simp: get_or_insert_def Let_def split: if_splits)
  with Cons.IH [of ?conv] Cons.prems(2) show ?case
    by (simp add: Let_def split_beta)
qed simp

lemma reward_entry_ok:
  assumes "endpoint_state_ok n s" and "n < 2 ^ 64 - 1" and "0 \<le> r" and "r \<le> 1"
  shows "endpoint_state_ok (Suc n) (reward_entry s now r)"
proof -
  have "unat (es_pulls s) + 1 < 2 ^ 64" using assms(1,2) by (simp add: endpoint_state_ok_def)
  then have "unat (es_pulls s + 1) = unat (es_pulls s) + 1"
    by (simp add: unat_word_ariths)
  then show ?thesis
    using assms reward_entry_unit [of s now r]
    by (simp add: endpoint_state_ok_def) (simp add: reward_entry_def Let_def)
qed

lemma decohere_ok:
  assumes "endpoint_state_ok n s" and "0 \<le> rate" and "rate \<le> 1" and "0 \<le> u" and "u \<le> 1"
  shows "endpoint_state_ok n (decohere rate u s)"
  using decohere_unit [OF _ assms(2-5), of s] assms(1)
  by (simp add: endpoint_state_ok_def) (simp add: decohere_def)

lemma conversation_update_apply:
  assumes "distinct ks" and "set ks = insert ep (dom (cs_endpoint_states conv))"
  shows "cs_endpoint_states (conversation_update ks conv now ep r rate) k =
    map_option (decohere rate (1 / sqrt (real (length ks))))
      (((cs_endpoint_states conv)(ep \<mapsto>
          reward_entry (entry_or (cs_endpoint_states conv) ep (endpoint_state_default now)) now r)) k)"
  using assms by (simp add: conversation_update_def Let_def apply_decoherence_apply iterates_def)

lemma inverse_sqrt_length: "0 < n \<Longrightarrow> 1 / sqrt (real n) \<le> 1"
proof -
  assume "0 < n"
  then have "1 \<le> real n" by simp
  then have "1 \<le> sqrt (real n)" by (simp add: real_sqrt_ge_one)
  then show ?thesis by simp
qed

lemma states_update_ok:
  assumes "states_ok n (qr_state q)" and "n < 2 ^ 64 - 1" and "endpoint_order ks q cid ep"
    and "0 \<le> r" and "r \<le> 1" and "0 \<le> rate" and "rate \<le> 1"
  shows "states_ok (Suc n) (states_update ks (qr_state q) now cid ep r rate)"
proof -
  let ?conv = "entry_or (qr_state q) cid (conversation_new now cid)"
  have ks: "distinct ks" "set ks = insert ep (dom (cs_endpoint_states ?conv))"
    using assms(3) by (cases "qr_state q cid"; simp add: endpoint_order_def conversation_new_def)+
  have u: "1 / sqrt (real (length ks)) \<le> 1"
    using ks by (intro inverse_sqrt_length) (metis insert_not_empty length_greater_0_conv set_empty)
  have ok: "endpoint_state_ok (Suc n) s" if "cs_endpoint_states ?conv k = Some s" for k s
    using states_ok_entry [OF assms(1) that] by (rule endpoint_state_ok_mono) simp
  have "endpoint_state_ok n (entry_or (cs_endpoint_states ?conv) ep (endpoint_state_default now))"
    using states_ok_entry [OF assms(1)]
    by (cases "cs_endpoint_states ?conv ep") (auto simp: endpoint_state_default_ok)
  from reward_entry_ok [OF this assms(2,4,5)]
  have "endpoint_state_ok (Suc n) s"
    if "cs_endpoint_states (conversation_update ks ?conv now ep r rate) k = Some s" for k s
    using that ok u assms(6,7)
    by (auto simp: conversation_update_apply [OF ks] intro!: decohere_ok split: if_splits)
  moreover have "states_ok (Suc n) (qr_state q)" using assms(1) by (rule states_ok_mono) simp
  ultimately show ?thesis
    by (auto simp: states_update_def get_or_create_def Let_def intro!: states_ok_upd)
qed

lemma observed_reward_bounds: "0 \<le> observed_reward ok lat \<and> observed_reward ok lat \<le> 1"
proof -
  define m where "m = min (real (unat lat) / 5000) 1"
  have "0 \<le> m" and "m \<le> 1" by (auto simp: m_def)
  then show ?thesis by (simp add: observed_reward_def Let_def m_def [symmetric])
qed

lemma clamp_unit: "0 \<le> clamp x 0 1 \<and> clamp x 0 1 \<le> 1"
  by (rule clamp_bounds) simp

lemma quantum_step_config: "quantum_step q q' \<Longrightarrow> qr_config q' = qr_config q"
  by (erule quantum_stepE) (auto simp: quantum_route_def Let_def quantum_observe_def quantum_feedback_def
      quantum_diagnostics_def quantum_tick_def split_beta split: option.splits)

lemma quantum_reachable_config: "quantum_reachable cfg n q \<Longrightarrow> qr_config q = cfg"
  by (induction rule: quantum_reachable.induct) (simp_all add: quantum_router_new_def quantum_step_config)

lemma entanglement_prune_empty: "entanglement_prune_old es mx now entanglement_new = entanglement_new"
  by (simp add: entanglement_prune_old_def filter_keys_def entanglement_new_def)

text \<open>Nothing the router does ever records a correlation.\<close>

lemma quantum_step_entanglement:
  "quantum_step q q' \<Longrightarrow> qr_entanglement q = entanglement_new \<Longrightarrow> qr_entanglement q' = entanglement_new"
  by (erule quantum_stepE) (auto simp: quantum_route_def Let_def quantum_observe_def quantum_feedback_def
      quantum_diagnostics_def quantum_tick_def entanglement_prune_empty split_beta split: option.splits)

lemma quantum_reachable_entanglement: "quantum_reachable cfg n q \<Longrightarrow> qr_entanglement q = entanglement_new"
  by (induction rule: quantum_reachable.induct)
    (auto simp: quantum_router_new_def intro: quantum_step_entanglement)

lemma route_distribution_ok:
  assumes "states_ok n (qr_state q)"
  shows "states_ok n (fst (route_distribution q now msg cands))"
  unfolding route_distribution_def get_or_create_def Let_def split_beta fst_conv snd_conv fun_upd_upd
  by (rule states_ok_upd [OF assms]) (erule base_distribution_ok [rotated], erule states_ok_entry [OF assms])

lemma states_prune_retain:
  "iterates cs qs \<Longrightarrow>
     states_prune_old cs mx now qs = retain (\<lambda>_ conv. \<not> conversation_stale mx now conv) qs"
  by (simp add: states_prune_old_def remove_filtered_keys)

lemma quantum_step_ok:
  assumes "quantum_step q q'" and "states_ok n (qr_state q)" and "n < 2 ^ 64 - 1"
    and "0 \<le> qc_decoherence_rate (qr_config q)" and "qc_decoherence_rate (qr_config q) \<le> 1"
  shows "states_ok (Suc n) (qr_state q')"
  using assms(1)
proof cases
  case (route r now msg candidates)
  then have "states_ok n (qr_state q')"
    using assms(2) route_distribution_ok [OF assms(2)]
    by (auto simp: quantum_route_def Let_def split_beta split: option.splits)
  then show ?thesis by (rule states_ok_mono) simp
next
  case (observe ks cid ep now ok lat)
  then show ?thesis
    using states_update_ok [OF assms(2,3)] observed_reward_bounds [of ok lat] assms(4,5)
    by (simp add: quantum_observe_def Let_def split_beta states_ok_get_or_create)
next
  case (feedback ks cid ep now score)
  then show ?thesis
    using states_update_ok [OF assms(2,3)] clamp_unit [of score] assms(4,5)
    by (simp add: quantum_feedback_def Let_def)
next
  case (diagnostics ks now cid)
  then have "states_ok n (qr_state q')"
    using states_ok_get_or_create [OF assms(2)]
    by (simp add: quantum_diagnostics_def Let_def split_beta)
  then show ?thesis by (rule states_ok_mono) simp
next
  case (tick cs es now)
  then have "states_ok n (qr_state q')"
    using assms(2) by (auto simp: quantum_tick_def Let_def states_prune_retain states_ok_def)
  then show ?thesis by (rule states_ok_mono) simp
qed

lemma quantum_reachable_ok:
  "quantum_reachable cfg n q \<Longrightarrow> n < 2 ^ 64 \<Longrightarrow> 0 \<le> qc_decoherence_rate cfg \<Longrightarrow>
     qc_decoherence_rate cfg \<le> 1 \<Longrightarrow> states_ok n (qr_state q)"
proof (induction rule: quantum_reachable.induct)
  case (start cfg)
  then show ?case by (simp add: quantum_router_new_def quantum_states_new_def states_ok_def)
next
  case (step cfg n q q')
  then show ?case
    using quantum_step_ok [OF step.hyps(2)] quantum_reachable_config [OF step.hyps(1)] by simp
qed

section \<open>Maintenance\<close>

lemma conversation_stale_mono:
  "now \<le> now' \<Longrightarrow> conversation_stale mx now c \<Longrightarrow> conversation_stale mx now' c"
  unfolding conversation_stale_def
  by (meson diff_right_mono num_seconds_mono order_less_le_trans)

definition conversations_sweep :: "int \<Rightarrow> datetime \<Rightarrow> quantum_states \<Rightarrow> quantum_states" where
  "conversations_sweep mx now qs = retain (\<lambda>_ conv. \<not> conversation_stale mx now conv) qs"

interpretation conversations: swept_map "conversations_sweep mx" "\<lambda>qs. qs" "conversation_stale mx" for mx
  by unfold_locales (auto simp: conversations_sweep_def conversation_stale_mono)

lemma quantum_tick_state:
  "iterates cs (qr_state q) \<Longrightarrow> qr_state (quantum_tick cs es q now) = conversations_sweep 3600 now (qr_state q)"
  by (simp add: quantum_tick_def Let_def states_prune_retain conversations_sweep_def)

text \<open>Routing does not count as activity: it leaves \<open>last_active\<close> as it was.\<close>

lemma base_distribution_last_active:
  "cs_last_active (fst (base_distribution now n conv cs)) = cs_last_active conv"
  by (induction cs arbitrary: conv) (simp_all add: get_or_insert_def Let_def split_beta)

lemma route_last_active:
  "qr_state q cid = Some conv \<Longrightarrow>
     \<exists>conv'. qr_state (fst (quantum_route r q now msg cands)) cid = Some conv' \<and>
       cs_last_active conv' = cs_last_active conv"
  by (auto simp: quantum_route_def route_distribution_def get_or_create_def Let_def split_beta
      base_distribution_last_active split: option.splits)

lemma base_distribution_eq:
  "snd (base_distribution now n conv cs) =
     map (\<lambda>c. (c, case cs_endpoint_states conv c of
                   None \<Rightarrow> 1 / real n
                 | Some s \<Rightarrow> if es_pulls s = 0 then 1 / real n else probability (es_amplitude s))) cs"
proof (induction cs arbitrary: conv)
  case (Cons c cs)
  show ?case
    by (cases "cs_endpoint_states conv c")
      (auto simp: Cons.IH get_or_insert_def Let_def split_beta endpoint_state_default_def
        split: option.splits)
qed simp

lemma route_distribution_fst:
  "map fst (snd (route_distribution q now msg cands)) = cands"
  by (simp add: route_distribution_def Let_def split_beta base_distribution_eq comp_def)

text \<open>The draw is a candidate, and one of positive weight when the weights decide.\<close>

lemma sample_endpoint_from_candidates:
  assumes "rng_ok r" and "cands \<noteq> []" and "map fst d = cands"
  obtains ep where "sample_endpoint_from r e cands d = Some ep" and "ep \<in> set cands"
    and "e \<le> rng_f64 r \<Longrightarrow> rng_weighted r (map snd d) \<noteq> None \<Longrightarrow> \<exists>w > 0. (ep, w) \<in> set d"
proof (cases "rng_f64 r < e \<or> rng_weighted r (map snd d) = None")
  case True
  have "cands ! rng_pick r (length cands) \<in> set cands"
    using assms(1,2) by (simp add: rng_ok_def)
  with True assms(2) that [of "cands ! rng_pick r (length cands)"] show thesis
    by (auto simp: sample_endpoint_from_def choose_one_def)
next
  case False
  then obtain i where i: "rng_weighted r (map snd d) = Some i" by auto
  then have "i < length (map snd d) \<and> 0 < map snd d ! i"
    using assms(1) unfolding rng_ok_def by blast
  then have l: "i < length d" and w: "0 < snd (d ! i)" by auto
  then have "d ! i \<in> set d" and m: "fst (d ! i) \<in> set cands" by (auto simp: assms(3) [symmetric])
  with w have "\<exists>w > 0. (fst (d ! i), w) \<in> set d"
    by (intro exI [of _ "snd (d ! i)"]) simp
  with False i m that [of "fst (d ! i)"] show thesis
    by (simp add: sample_endpoint_from_def)
qed

lemma quantum_route_nonempty:
  assumes "cands \<noteq> []" and "sample_endpoint_from r (qc_exploration_rate (qr_config q)) cands
      (snd (route_distribution q now msg cands)) = Some ep"
  shows "snd (quantum_route r q now msg cands) = Some ep \<and>
    qr_last_endpoint (fst (quantum_route r q now msg cands)) (m_conversation_id msg) = Some ep"
  using assms by (simp add: quantum_route_def Let_def split_beta)

section \<open>Properties\<close>



text \<open>
  Routing selects a candidate whenever there is one and nothing otherwise, it records the choice as
  the conversation's last endpoint, and when it exploits (the draw is not below the exploration rate
  and the weights are accepted) the endpoint it selects has a positive weight.
\<close>

theorem quantum_route_selects:
  assumes "rng_ok r"
  shows "(snd (quantum_route r q now msg cands) = None \<longleftrightarrow> cands = []) \<and>
    (\<forall>ep. snd (quantum_route r q now msg cands) = Some ep \<longrightarrow>
      ep \<in> set cands \<and>
      qr_last_endpoint (fst (quantum_route r q now msg cands)) (m_conversation_id msg) = Some ep \<and>
      (qc_exploration_rate (qr_config q) \<le> rng_f64 r \<and>
       rng_weighted r (map snd (snd (route_distribution q now msg cands))) \<noteq> None \<longrightarrow>
       (\<exists>w > 0. (ep, w) \<in> set (snd (route_distribution q now msg cands)))))"
proof (cases "cands = []")
  case False
  from sample_endpoint_from_candidates [OF assms False route_distribution_fst]
  obtain ep where ep: "sample_endpoint_from r (qc_exploration_rate (qr_config q)) cands
        (snd (route_distribution q now msg cands)) = Some ep" "ep \<in> set cands"
    and w: "qc_exploration_rate (qr_config q) \<le> rng_f64 r \<Longrightarrow>
      rng_weighted r (map snd (snd (route_distribution q now msg cands))) \<noteq> None \<Longrightarrow>
      \<exists>w > 0. (ep, w) \<in> set (snd (route_distribution q now msg cands))"
    by metis
  show ?thesis
    using quantum_route_nonempty [OF False ep(1)] False ep(2) w by simp
qed (simp add: quantum_route_def)

definition first_rng :: rng where
  "first_rng =
     \<lparr>rng_f64 = 1 / 2, rng_pick = (\<lambda>n. 0),
      rng_weighted = (\<lambda>ws. case ws of [] \<Rightarrow> None | w # _ \<Rightarrow> if 0 < w then Some 0 else None)\<rparr>"

lemma first_rng_ok: "rng_ok first_rng"
  by (auto simp: rng_ok_def first_rng_def split: list.splits if_splits)

theorem quantum_route_selects_witness:
  "\<exists>ep \<in> {''a'', ''b''}. snd (quantum_route first_rng (quantum_router_new quantum_config_default) 0
     (message_new 1 2 0 ''me'' ''/p'' ''note'') [''a'', ''b'']) = Some ep"
  using quantum_route_selects [OF first_rng_ok, of "quantum_router_new quantum_config_default" 0
      "message_new 1 2 0 ''me'' ''/p'' ''note''" "[''a'', ''b'']"]
  by (cases "snd (quantum_route first_rng (quantum_router_new quantum_config_default) 0
     (message_new 1 2 0 ''me'' ''/p'' ''note'') [''a'', ''b''])") auto



lemma observe_effect:
  assumes "endpoint_order ks q cid ep"
    and "states = (case qr_state q cid of None \<Rightarrow> Map.empty | Some conv \<Rightarrow> cs_endpoint_states conv)"
    and "quantum_observe ks q now cid ep ok lat = (q', saved)"
  shows "\<exists>conv' s'. qr_state q' cid = Some conv' \<and> cs_last_active conv' = now \<and>
    cs_endpoint_states conv' ep = Some s' \<and> saved = Some (cid, ep, s') \<and>
    es_pulls s' = (case states ep of None \<Rightarrow> 0 | Some s \<Rightarrow> es_pulls s) + 1 \<and>
    es_total_reward s' = (case states ep of None \<Rightarrow> 0 | Some s \<Rightarrow> es_total_reward s) +
      (if ok then 1 - min (real (unat lat) / 5000) 1 * (3 / 10) else 0) \<and>
    (\<forall>k s. k \<noteq> ep \<and> states k = Some s \<longrightarrow> (\<exists>s2. cs_endpoint_states conv' k = Some s2 \<and>
       es_pulls s2 = es_pulls s \<and> es_total_reward s2 = es_total_reward s)) \<and>
    (\<forall>k. k \<noteq> ep \<and> states k = None \<longrightarrow> cs_endpoint_states conv' k = None) \<and>
    (\<forall>c. c \<noteq> cid \<longrightarrow> qr_state q' c = qr_state q c) \<and> qr_last_endpoint q' = qr_last_endpoint q"
proof -
  let ?conv = "entry_or (qr_state q) cid (conversation_new now cid)"
  let ?r = "observed_reward ok lat"
  let ?conv' = "conversation_update ks ?conv now ep ?r (qc_decoherence_rate (qr_config q))"
  have st: "cs_endpoint_states ?conv = states"
    by (cases "qr_state q cid") (simp_all add: assms(2) conversation_new_def)
  have ks: "distinct ks" "set ks = insert ep (dom (cs_endpoint_states ?conv))"
    using assms(1) unfolding st assms(2)
    by (cases "qr_state q cid"; simp add: endpoint_order_def)+
  let ?d = "decohere (qc_decoherence_rate (qr_config q)) (1 / sqrt (real (length ks)))"
  have new: "cs_endpoint_states ?conv' k = map_option ?d
      ((states(ep \<mapsto> reward_entry (entry_or states ep (endpoint_state_default now)) now ?r)) k)" for k
    using conversation_update_apply [OF ks] by (simp add: st)
  have "q' = q\<lparr>qr_state := (qr_state q)(cid \<mapsto> ?conv')\<rparr>"
    and "saved = map_option (\<lambda>e. (cid, ep, e)) (cs_endpoint_states ?conv' ep)"
    using assms(3) by (auto simp: quantum_observe_def Let_def split_beta get_or_create_def states_update_def)
  moreover have "cs_last_active ?conv' = now"
    by (simp add: conversation_update_def apply_decoherence_def Let_def)
  moreover have "es_pulls (?d s) = es_pulls s" "es_total_reward (?d s) = es_total_reward s" for s
    by (simp_all add: decohere_def)
  moreover have "es_pulls (reward_entry s now ?r) = es_pulls s + 1"
    "es_total_reward (reward_entry s now ?r) = es_total_reward s + ?r" for s
    by (simp_all add: reward_entry_def Let_def)
  moreover have rew: "(if ok then 1 - min (real (unat lat) / 5000) 1 * (3 / 10) else 0) = ?r"
    by (simp add: observed_reward_def Let_def)
  moreover have "es_pulls (entry_or states ep (endpoint_state_default now))
        = (case states ep of None \<Rightarrow> 0 | Some s \<Rightarrow> es_pulls s)"
    "es_total_reward (entry_or states ep (endpoint_state_default now))
        = (case states ep of None \<Rightarrow> 0 | Some s \<Rightarrow> es_total_reward s)"
    by (cases "states ep"; simp add: endpoint_state_default_def)+
  ultimately show ?thesis
    unfolding rew
    by (intro exI [of _ ?conv'] exI [of _ "?d (reward_entry (entry_or states ep (endpoint_state_default now)) now ?r)"])
      (simp add: new)
qed

text \<open>
  C33. Observing an outcome counts one pull and adds the reward (1 less at most 0.3 for latency, or 0 for
  a failure) to the endpoint it names, marks the conversation active, and hands exactly the new state
  to the store. The other endpoints of the conversation keep their counts, other conversations and all
  last choices are untouched.
\<close>

theorem quantum_observe_effect:
  assumes "endpoint_order ks q cid ep"
    and "states = (case qr_state q cid of None \<Rightarrow> Map.empty | Some conv \<Rightarrow> cs_endpoint_states conv)"
    and "quantum_observe ks q now cid ep ok lat = (q', saved)"
  shows "\<exists>conv' s'. qr_state q' cid = Some conv' \<and> cs_last_active conv' = now \<and>
    cs_endpoint_states conv' ep = Some s' \<and> saved = Some (cid, ep, s') \<and>
    es_pulls s' = (case states ep of None \<Rightarrow> 0 | Some s \<Rightarrow> es_pulls s) + 1 \<and>
    es_total_reward s' = (case states ep of None \<Rightarrow> 0 | Some s \<Rightarrow> es_total_reward s) +
      (if ok then 1 - min (real (unat lat) / 5000) 1 * (3 / 10) else 0) \<and>
    (\<forall>k s. k \<noteq> ep \<and> states k = Some s \<longrightarrow> (\<exists>s2. cs_endpoint_states conv' k = Some s2 \<and>
       es_pulls s2 = es_pulls s \<and> es_total_reward s2 = es_total_reward s)) \<and>
    (\<forall>c. c \<noteq> cid \<longrightarrow> qr_state q' c = qr_state q c) \<and> qr_last_endpoint q' = qr_last_endpoint q"
  using observe_effect [OF assms] by blast

theorem quantum_observe_effect_witness:
  "\<exists>q' s'. quantum_observe [''a''] (quantum_router_new quantum_config_default) 5 1 ''a'' True 2500
     = (q', Some (1, ''a'', s')) \<and> es_pulls s' = 1 \<and> es_total_reward s' = 85 / 100"
proof -
  let ?fresh = "quantum_router_new quantum_config_default"
  obtain q' saved where o: "quantum_observe [''a''] ?fresh 5 1 ''a'' True 2500 = (q', saved)" by force
  have "endpoint_order [''a''] ?fresh 1 ''a''"
    by (simp add: endpoint_order_def quantum_router_new_def quantum_states_new_def)
  from quantum_observe_effect [OF this refl o] o show ?thesis
    by (auto simp: quantum_router_new_def quantum_states_new_def)
qed

text \<open>
  Maintenance drops exactly the conversations whose last observation is more than an hour old, and
  with them their last choices. Being routed does not count: a conversation whose last outcome is that
  old is dropped even if a message of it was routed just before, and its learned state with it.
\<close>

theorem quantum_tick_exact:
  assumes "iterates cs (qr_state q)" and "rng_ok r"
    and "qr_state q (m_conversation_id msg) = Some old" and "num_seconds (now - cs_last_active old) > 3600"
    and "iterates cs' (qr_state (fst (quantum_route r q now msg cands)))"
  shows "(\<forall>cid conv. qr_state (quantum_tick cs es q now) cid = Some conv \<longleftrightarrow>
      qr_state q cid = Some conv \<and> num_seconds (now - cs_last_active conv) \<le> 3600) \<and>
    (\<forall>cid ep. qr_last_endpoint (quantum_tick cs es q now) cid = Some ep \<longleftrightarrow>
      qr_last_endpoint q cid = Some ep \<and> qr_state (quantum_tick cs es q now) cid \<noteq> None) \<and>
    qr_state (quantum_tick cs' es (fst (quantum_route r q now msg cands)) now) (m_conversation_id msg) = None"
proof -
  obtain conv' where c: "qr_state (fst (quantum_route r q now msg cands)) (m_conversation_id msg) = Some conv'"
    and l: "cs_last_active conv' = cs_last_active old"
    using route_last_active [OF assms(3)] by blast
  have "qr_state (quantum_tick cs' es (fst (quantum_route r q now msg cands)) now) (m_conversation_id msg) = None"
    using c l assms(4)
    by (simp add: quantum_tick_state [OF assms(5)] conversations_sweep_def retain_none_iff
        conversation_stale_def)
  moreover have "qr_last_endpoint (quantum_tick cs es q now)
      = retain (\<lambda>k _. qr_state (quantum_tick cs es q now) k \<noteq> None) (qr_last_endpoint q)"
    by (simp add: quantum_tick_def Let_def states_get_def)
  ultimately show ?thesis
    by (auto simp: quantum_tick_state [OF assms(1)] conversations_sweep_def conversation_stale_def not_less)
qed

theorem quantum_tick_exact_witness:
  "let q = \<lparr>qr_state = [1 \<mapsto> conversation_new 0 1], qr_entanglement = entanglement_new,
            qr_config = quantum_config_default, qr_last_endpoint = Map.empty\<rparr>;
       msg = (message_new 9 1 0 ''me'' ''/p'' ''note'');
       now = 4000 * 1000000000
   in qr_state (quantum_tick [1] [] (fst (quantum_route first_rng q now msg [''a''])) now) 1 = None"
proof -
  let ?q = "\<lparr>qr_state = [1 \<mapsto> conversation_new 0 1], qr_entanglement = entanglement_new,
            qr_config = quantum_config_default, qr_last_endpoint = Map.empty\<rparr>"
  let ?msg = "message_new 9 1 0 ''me'' ''/p'' ''note''"
  let ?now = "4000 * 1000000000 :: int"
  have i: "iterates [1] (qr_state ?q)" by (simp add: iterates_def)
  have m: "m_conversation_id ?msg = 1" by (simp add: message_new_def)
  have "dom (qr_state (fst (quantum_route first_rng ?q ?now ?msg [''a'']))) = {1}"
    by (simp add: quantum_route_def route_distribution_def Let_def split_beta get_or_create_def m
        split: option.splits)
  then have j: "iterates [1] (qr_state (fst (quantum_route first_rng ?q ?now ?msg [''a''])))"
    by (simp add: iterates_def)
  show ?thesis
    using quantum_tick_exact [OF i first_rng_ok _ _ j, of "conversation_new 0 1" "[]"]
    by (simp add: m conversation_new_def num_seconds_def Let_def)
qed

end
