(* ===== verification/Transport.thy ===== *)
theory Transport
  imports Delivery Plumber QRouter
begin

text \<open>
  The WebSocket transport of \<open>src/net/transport.rs\<close>: what the hub does with each frame of a connection
  (\<open>handle_op\<close>), the loop over the frames of a socket and the clean-up at its end (\<open>handle_socket\<close>).
  \<open>serde_json\<close> is a parameter, \<open>parse\<close>; the environment of an operation gives the clock, a fresh
  identifier, the random numbers and, for the \<open>n\<close>-th send, whether the receiver is still there.
  Several connections run side by side; \<open>transport_step\<close> interleaves their operations, with the
  clean-up in the two steps it makes on the registry.
\<close>

section \<open>One frame\<close>

record 're transport =
  tp_agents :: agent_registry
  tp_vfs :: vfs
  tp_plumber :: "'re plumber"
  tp_quantum :: "quantum_router option"
  tp_queue :: message_queue

record 're op_env =
  oe_lib :: "'re text_lib"
  oe_rng :: rng
  oe_now :: datetime
  oe_uuid :: uuid
  oe_ok :: "nat \<Rightarrow> bool"

definition hello_agent :: "'re op_env \<Rightarrow> chan_id \<Rightarrow> string \<Rightarrow> capability_manifest \<Rightarrow> agent" where
  "hello_agent env tx agent_id manifest =
     \<lparr>ag_id = agent_id, ag_uuid = oe_uuid env, ag_hostname = man_hostname manifest,
      ag_namespace = ''/net/'' @ agent_id, ag_manifest = manifest, ag_connected_at = oe_now env,
      ag_last_heartbeat = oe_now env, ag_tx = Some tx\<rparr>"

definition stamp_sender :: "string \<Rightarrow> message \<Rightarrow> message" where
  "stamp_sender agent_id msg = msg\<lparr>m_sender := agent_id, m_sender_ns := ''/net/'' @ agent_id\<rparr>"

text \<open>The quantum router's choice when there is one, the first destination otherwise; both branches of
  the test for \<open>mcp_tool_call\<close> are this.\<close>

definition select_destination ::
    "rng \<Rightarrow> datetime \<Rightarrow> quantum_router option \<Rightarrow> message \<Rightarrow> string list \<Rightarrow>
     quantum_router option \<times> string option" where
  "select_destination r now quantum msg destinations =
     (case quantum of
        Some q \<Rightarrow> (let (q', selected) = quantum_route r q now msg destinations in (Some q', selected))
      | None \<Rightarrow> (None, case destinations of [] \<Rightarrow> None | d # _ \<Rightarrow> Some d))"

text \<open>A reply on the connection's own channel.\<close>

definition reply :: "'re op_env \<Rightarrow> chan_id \<Rightarrow> protocol_op \<Rightarrow> sends" where
  "reply env tx op = (if oe_ok env 0 then [(tx, op)] else [])"

fun handle_op ::
    "'re op_env \<Rightarrow> chan_id \<Rightarrow> string \<Rightarrow> 're transport \<Rightarrow> protocol_op \<Rightarrow> 're transport \<times> sends" where
  "handle_op env tx agent_id s (Hello manifest) =
     (let reg = agents_register (tp_agents s) (hello_agent env tx agent_id manifest);
          (mq, sent, d) = drain_to (tp_queue s) agent_id (oe_ok env)
      in (s\<lparr>tp_agents := reg, tp_queue := mq\<rparr>, map (\<lambda>op. (tx, op)) sent))"
| "handle_op env tx agent_id s Heartbeat =
     (s\<lparr>tp_agents := agents_heartbeat (tp_agents s) (oe_now env) agent_id\<rparr>, [])"
| "handle_op env tx agent_id s (OpMessage msg0) =
     (let msg = stamp_sender agent_id msg0;
          destinations = plumber_route (oe_lib env) (tp_plumber s) msg;
          (q', final_dest) = select_destination (oe_rng env) (oe_now env) (tp_quantum s) msg destinations;
          s1 = s\<lparr>tp_quantum := q'\<rparr>
      in case final_dest of
           None \<Rightarrow> (s1, [])
         | Some dest \<Rightarrow>
             (let (mq, outs) = deliver_ignoring (tp_agents s1) (tp_queue s1) (oe_now env) (oe_ok env 0) dest msg
              in (s1\<lparr>tp_queue := mq\<rparr>, outs)))"
| "handle_op env tx agent_id s (FsRead path) =
     (case vfs_get (tp_vfs s) path of
        Some node \<Rightarrow>
          (s, reply env tx (FsResult path (Some (vnode_read (vf_heap (tp_vfs s)) node)) None))
      | None \<Rightarrow> (s, reply env tx (FsResult path None (Some ''not found''))))"
| "handle_op env tx agent_id s (FsWrite path data) =
     (case vfs_get (tp_vfs s) path of
        Some node \<Rightarrow>
          (let (h, r) = vnode_write (vf_heap (tp_vfs s)) node data
           in (s\<lparr>tp_vfs := (tp_vfs s)\<lparr>vf_heap := h\<rparr>\<rparr>,
               reply env tx (FsResult path None (case r of Inl e \<Rightarrow> Some e | Inr _ \<Rightarrow> None))))
      | None \<Rightarrow> (s, reply env tx (FsResult path None (Some ''not found''))))"
| "handle_op env tx agent_id s (Ack message_id) = (s, [])"
| "handle_op env tx agent_id s (Nak message_id reason) = (s, [])"
| "handle_op env tx agent_id s (OpResponse resp) = (s, [])"
| "handle_op env tx agent_id s (OpFeedback event) = (s, [])"
| "handle_op env tx agent_id s (FsResult path data err) = (s, [])"
| "handle_op env tx agent_id s (OpError code txt) = (s, [])"

section \<open>One connection\<close>

datatype ws_frame = WsText string | WsClose | WsOther | WsError string | WsEnd

text \<open>The task that forwards the channel's frames to the socket: a frame that cannot be encoded is
  skipped, the first failed send ends it. \<open>ok n\<close> is the socket's answer to the \<open>n\<close>-th send.\<close>

fun send_task :: "(protocol_op \<Rightarrow> string result) \<Rightarrow> (nat \<Rightarrow> bool) \<Rightarrow> nat \<Rightarrow> protocol_op list \<Rightarrow> string list" where
  "send_task encode ok n [] = []"
| "send_task encode ok n (op # ops) =
     (case encode op of
        Inl e \<Rightarrow> send_task encode ok n ops
      | Inr t \<Rightarrow> if ok n then t # send_task encode ok (n + 1) ops else [])"

text \<open>The text frames; the others either are ignored or end the loop.\<close>

definition handle_text ::
    "(string \<Rightarrow> protocol_op result) \<Rightarrow> 're op_env \<Rightarrow> chan_id \<Rightarrow> string \<Rightarrow> 're transport \<Rightarrow> string \<Rightarrow>
     're transport \<times> sends" where
  "handle_text parse env tx agent_id s txt =
     (case parse txt of
        Inr op \<Rightarrow> handle_op env tx agent_id s op
      | Inl e \<Rightarrow> (s, reply env tx (OpError ''parse_error'' e)))"

text \<open>Whether the registration is still this connection's (\<open>same_channel\<close>), and the clean-up.\<close>

definition teardown_check :: "agent_registry \<Rightarrow> string \<Rightarrow> chan_id \<Rightarrow> bool" where
  "teardown_check reg agent_id tx =
     (case Option.bind (agents_get reg agent_id) ag_tx of
        Some stored \<Rightarrow> stored = tx
      | None \<Rightarrow> False)"

definition teardown :: "agent_registry \<Rightarrow> string \<Rightarrow> chan_id \<Rightarrow> agent_registry" where
  "teardown reg agent_id tx =
     (if teardown_check reg agent_id tx then fst (agents_unregister reg agent_id) else reg)"

text \<open>\<open>handle_socket\<close>, for a connection that nothing else interferes with.\<close>

fun socket_loop ::
    "(string \<Rightarrow> protocol_op result) \<Rightarrow> chan_id \<Rightarrow> string \<Rightarrow> ('re op_env \<times> ws_frame) list \<Rightarrow>
     're transport \<Rightarrow> 're transport \<times> sends" where
  "socket_loop parse tx agent_id [] s = (s, [])"
| "socket_loop parse tx agent_id ((env, frame) # frames) s =
     (case frame of
        WsText txt \<Rightarrow>
          (let (s1, outs) = handle_text parse env tx agent_id s txt;
               (s2, outs') = socket_loop parse tx agent_id frames s1
           in (s2, outs @ outs'))
      | WsOther \<Rightarrow> socket_loop parse tx agent_id frames s
      | WsClose \<Rightarrow> (s, [])
      | WsError e \<Rightarrow> (s, [])
      | WsEnd \<Rightarrow> (s, []))"

definition handle_socket ::
    "(string \<Rightarrow> protocol_op result) \<Rightarrow> chan_id \<Rightarrow> string \<Rightarrow> ('re op_env \<times> ws_frame) list \<Rightarrow>
     're transport \<Rightarrow> 're transport \<times> sends" where
  "handle_socket parse tx agent_id frames s =
     (let (s1, outs) = socket_loop parse tx agent_id frames s
      in (s1\<lparr>tp_agents := teardown (tp_agents s1) agent_id tx\<rparr>, outs))"

section \<open>Connections side by side\<close>

text \<open>
  A connection reads frames (\<open>Live\<close>), then has looked whether the registration is its own
  (\<open>Leaving\<close>), then is gone. \<open>hr_owner\<close> remembers which agent each channel was opened for,
  \<open>hr_sent\<close> every frame a channel accepted. The two maintenance tasks run in between.
\<close>

datatype phase = Live | Leaving bool

record 're hub_run =
  hr_hub :: "'re transport"
  hr_conns :: "chan_id \<Rightarrow> phase option"
  hr_owner :: "chan_id \<Rightarrow> string option"
  hr_sent :: sends

definition set_agents :: "(agent_registry \<Rightarrow> agent_registry) \<Rightarrow> 're hub_run \<Rightarrow> 're hub_run" where
  "set_agents f r = r\<lparr>hr_hub := (hr_hub r)\<lparr>tp_agents := f (tp_agents (hr_hub r))\<rparr>\<rparr>"

definition set_queue :: "(message_queue \<Rightarrow> message_queue) \<Rightarrow> 're hub_run \<Rightarrow> 're hub_run" where
  "set_queue f r = r\<lparr>hr_hub := (hr_hub r)\<lparr>tp_queue := f (tp_queue (hr_hub r))\<rparr>\<rparr>"

inductive transport_step :: "'re hub_run \<Rightarrow> 're hub_run \<Rightarrow> bool" where
  connect: "hr_owner r c = None \<Longrightarrow>
    transport_step r (r\<lparr>hr_conns := (hr_conns r)(c \<mapsto> Live), hr_owner := (hr_owner r)(c \<mapsto> k)\<rparr>)"
| receive: "hr_conns r c = Some Live \<Longrightarrow> hr_owner r c = Some k \<Longrightarrow>
    handle_text parse env c k (hr_hub r) inp = (s, outs) \<Longrightarrow>
    transport_step r (r\<lparr>hr_hub := s, hr_sent := hr_sent r @ outs\<rparr>)"
| leave: "hr_conns r c = Some Live \<Longrightarrow> hr_owner r c = Some k \<Longrightarrow>
    transport_step r
      (r\<lparr>hr_conns := (hr_conns r)(c \<mapsto> Leaving (teardown_check (tp_agents (hr_hub r)) k c))\<rparr>)"
| finish: "hr_conns r c = Some (Leaving own) \<Longrightarrow> hr_owner r c = Some k \<Longrightarrow>
    transport_step r (set_agents (\<lambda>reg. if own then fst (agents_unregister reg k) else reg)
      (r\<lparr>hr_conns := (hr_conns r)(c := None)\<rparr>))"
| cleanup: "iterates ks (tp_agents (hr_hub r)) \<Longrightarrow>
    transport_step r (set_agents (agents_cleanup ks thr now) r)"
| prune: "iterates ks (tp_queue (hr_hub r)) \<Longrightarrow>
    transport_step r (set_queue (prune_old ks age now) r)"

inductive_cases transport_stepE: "transport_step r r'"

definition transport_new :: "'re plumber \<Rightarrow> quantum_router option \<Rightarrow> 're hub_run" where
  "transport_new plumber quantum =
     \<lparr>hr_hub = \<lparr>tp_agents = agents_new, tp_vfs = vfs_new, tp_plumber = plumber, tp_quantum = quantum,
                tp_queue = queue_new\<rparr>,
      hr_conns = Map.empty, hr_owner = Map.empty, hr_sent = []\<rparr>"

inductive transport_reachable :: "'re hub_run \<Rightarrow> bool" where
  start: "transport_reachable (transport_new plumber quantum)"
| step: "transport_reachable r \<Longrightarrow> transport_step r r' \<Longrightarrow> transport_reachable r'"

text \<open>A registration belongs to a connection that has not finished and was opened for that agent.\<close>

definition registrations_ok :: "'re hub_run \<Rightarrow> bool" where
  "registrations_ok r \<longleftrightarrow>
     (\<forall>k a. tp_agents (hr_hub r) k = Some a \<longrightarrow>
        ag_id a = k \<and> ag_namespace a = ''/net/'' @ k \<and>
        (\<exists>c. ag_tx a = Some c \<and> hr_owner r c = Some k \<and> hr_conns r c \<in> {Some Live, Some (Leaving True)}))"

text \<open>A message names the agent whose connection it arrived on as its sender.\<close>

definition genuine :: "(chan_id \<Rightarrow> string option) \<Rightarrow> message \<Rightarrow> bool" where
  "genuine owner m \<longleftrightarrow> m_sender m \<in> ran owner \<and> m_sender_ns m = ''/net/'' @ m_sender m"

definition queues_genuine :: "(chan_id \<Rightarrow> string option) \<Rightarrow> message_queue \<Rightarrow> bool" where
  "queues_genuine owner mq \<longleftrightarrow> (\<forall>k. \<forall>qm \<in> set (queue_of mq k). genuine owner (qm_msg qm))"

definition sends_genuine :: "(chan_id \<Rightarrow> string option) \<Rightarrow> sends \<Rightarrow> bool" where
  "sends_genuine owner outs \<longleftrightarrow>
     (\<forall>c m. (c, OpMessage m) \<in> set outs \<longrightarrow> genuine owner m)"

section \<open>What the operations do to queues and registry\<close>

lemma queue_of_drain_to:
  "queue_of (fst (drain_to mq k ok)) j =
     (if j = k then fst (snd (drain_loop ok 0 (queue_of mq k))) else queue_of mq j)"
  by (cases "mq k") (auto simp: drain_to_def drain_entry_def remove_if_empty_def queue_of_def
      entry_or_def split_beta Let_def)

lemma sent_drain_to: "fst (snd (drain_to mq k ok)) = fst (drain_loop ok 0 (queue_of mq k))"
  by (cases "mq k") (auto simp: drain_to_def drain_entry_def queue_of_def entry_or_def split_beta Let_def)

lemma drain_loop_parts:
  "queued_ops q = fst (drain_loop ok n q) @ queued_ops (fst (snd (drain_loop ok n q)))"
  using drain_loop_split [of ok n q "fst (drain_loop ok n q)" "fst (snd (drain_loop ok n q))"
      "snd (snd (drain_loop ok n q))"] by simp

lemma drain_loop_suffix: "set (fst (snd (drain_loop ok n q))) \<subseteq> set q"
  by (induction ok n q rule: drain_loop.induct) (auto simp: Let_def split_beta)

lemma prune_old_queue:
  "iterates ks mq \<Longrightarrow> queue_of (prune_old ks age now mq) k = filter (still_young age now) (queue_of mq k)"
  by (auto simp: prune_old_apply queue_of_def entry_or_def split: option.splits)

lemma select_destination_member:
  assumes "\<forall>q. quantum = Some q \<longrightarrow> rng_ok r" and "destinations \<noteq> []"
  shows "\<exists>d \<in> set destinations. snd (select_destination r now quantum msg destinations) = Some d"
proof (cases quantum)
  case None
  then show ?thesis using assms(2) by (cases destinations) (auto simp: select_destination_def)
next
  case (Some q)
  then have "rng_ok r" using assms(1) by blast
  then obtain ep where "sample_endpoint_from r (qc_exploration_rate (qr_config q)) destinations
      (snd (route_distribution q now msg destinations)) = Some ep" and "ep \<in> set destinations"
    using sample_endpoint_from_candidates assms(2) route_distribution_fst by metis
  with quantum_route_nonempty [OF assms(2)] Some show ?thesis
    by (auto simp: select_destination_def split_beta Let_def)
qed

text \<open>A message goes through a delivery on the registry and the queue as they were, or nowhere.\<close>

lemma message_op:
  obtains dest where "snd (select_destination (oe_rng env) (oe_now env) (tp_quantum s) (stamp_sender k msg)
      (plumber_route (oe_lib env) (tp_plumber s) (stamp_sender k msg))) = Some dest"
    and "tp_queue (fst (handle_op env c k s (OpMessage msg))) =
      fst (deliver_ignoring (tp_agents s) (tp_queue s) (oe_now env) (oe_ok env 0) dest (stamp_sender k msg))"
    and "snd (handle_op env c k s (OpMessage msg)) =
      snd (deliver_ignoring (tp_agents s) (tp_queue s) (oe_now env) (oe_ok env 0) dest (stamp_sender k msg))"
  | "snd (select_destination (oe_rng env) (oe_now env) (tp_quantum s) (stamp_sender k msg)
      (plumber_route (oe_lib env) (tp_plumber s) (stamp_sender k msg))) = None"
    and "tp_queue (fst (handle_op env c k s (OpMessage msg))) = tp_queue s"
    and "snd (handle_op env c k s (OpMessage msg)) = []"
  by (cases "snd (select_destination (oe_rng env) (oe_now env) (tp_quantum s) (stamp_sender k msg)
      (plumber_route (oe_lib env) (tp_plumber s) (stamp_sender k msg)))")
    (auto simp: Let_def split_beta)

lemma message_op_some:
  assumes "snd (select_destination (oe_rng env) (oe_now env) (tp_quantum s) (stamp_sender k msg)
      (plumber_route (oe_lib env) (tp_plumber s) (stamp_sender k msg))) = Some dest"
  shows "handle_op env c k s (OpMessage msg) =
    (let q' = fst (select_destination (oe_rng env) (oe_now env) (tp_quantum s) (stamp_sender k msg)
           (plumber_route (oe_lib env) (tp_plumber s) (stamp_sender k msg)));
         d = deliver_ignoring (tp_agents s) (tp_queue s) (oe_now env) (oe_ok env 0) dest (stamp_sender k msg)
     in (s\<lparr>tp_quantum := q', tp_queue := fst d\<rparr>, snd d))"
  using assms by (simp add: Let_def split_beta)

lemma message_op_agents: "tp_agents (fst (handle_op env c k s (OpMessage msg))) = tp_agents s"
  by (auto simp: Let_def split_beta split: option.splits)

lemma handle_op_agents:
  "tp_agents (fst (handle_op env c k s op)) =
     (case op of
        Hello manifest \<Rightarrow> agents_register (tp_agents s) (hello_agent env c k manifest)
      | Heartbeat \<Rightarrow> agents_heartbeat (tp_agents s) (oe_now env) k
      | _ \<Rightarrow> tp_agents s)"
proof (cases op)
  case (OpMessage msg)
  then show ?thesis by (simp only: message_op_agents protocol_op.case)
qed (auto simp: Let_def split_beta split: option.splits)

lemma genuine_stamp: "owner c = Some k \<Longrightarrow> genuine owner (stamp_sender k msg)"
  by (auto simp: genuine_def stamp_sender_def ran_def)

lemma genuine_connect: "owner c = None \<Longrightarrow> genuine owner m \<Longrightarrow> genuine (owner(c \<mapsto> k)) m"
  by (auto simp: genuine_def ran_def) (metis option.distinct(1))

lemma queues_genuine_enqueue:
  "queues_genuine owner mq \<Longrightarrow> genuine owner msg \<Longrightarrow> queues_genuine owner (enqueue mq now k msg)"
  by (auto simp: queues_genuine_def queue_of_enqueue queued_now_def)

lemma sends_genuine_simps [simp]:
  "sends_genuine owner []"
  "sends_genuine owner (xs @ ys) \<longleftrightarrow> sends_genuine owner xs \<and> sends_genuine owner ys"
  by (auto simp: sends_genuine_def)

lemma deliver_genuine:
  assumes "queues_genuine owner mq" and "genuine owner msg"
  shows "queues_genuine owner (fst (deliver_ignoring reg mq now ok dest msg)) \<and>
    sends_genuine owner (snd (deliver_ignoring reg mq now ok dest msg))"
proof (cases "target_agent dest")
  case None
  then show ?thesis using assms by (simp add: ignoring.no_target)
next
  case (Some k)
  from ignoring.for_target [OF Some, of reg mq now ok msg] show ?thesis
    using assms by (auto simp: queues_genuine_enqueue sends_genuine_def)
qed

lemma drain_genuine:
  assumes "queues_genuine owner mq"
  shows "queues_genuine owner (fst (drain_to mq k ok)) \<and>
    sends_genuine owner (map (\<lambda>op. (c, op)) (fst (snd (drain_to mq k ok))))"
proof -
  have "set (fst (drain_loop ok 0 (queue_of mq k))) \<subseteq> set (queued_ops (queue_of mq k))"
    using drain_loop_parts [of "queue_of mq k" ok 0] by (metis Un_upper1 set_append)
  then have "sends_genuine owner (map (\<lambda>op. (c, op)) (fst (snd (drain_to mq k ok))))"
    using assms by (fastforce simp: sent_drain_to sends_genuine_def queued_ops_def queues_genuine_def)
  moreover have "queues_genuine owner (fst (drain_to mq k ok))"
    unfolding queues_genuine_def queue_of_drain_to
    using assms drain_loop_suffix [of ok 0 "queue_of mq k"] by (auto simp: queues_genuine_def)
  ultimately show ?thesis by blast
qed

lemma reply_genuine: "(\<forall>m. op \<noteq> OpMessage m) \<Longrightarrow> sends_genuine owner (reply env c op)"
  by (auto simp: reply_def sends_genuine_def)

lemma handle_op_genuine:
  assumes "owner c = Some k" and "queues_genuine owner (tp_queue s)"
  shows "queues_genuine owner (tp_queue (fst (handle_op env c k s op))) \<and>
    sends_genuine owner (snd (handle_op env c k s op))"
proof (cases op)
  case (OpMessage msg)
  show ?thesis
    unfolding OpMessage
    by (rule message_op [where env = env and s = s and k = k and msg = msg and c = c])
      (simp_all del: handle_op.simps add: assms(2)
        deliver_genuine [OF assms(2) genuine_stamp [where owner = owner and c = c and k = k, OF assms(1)]])
next
  case (Hello m)
  then show ?thesis using drain_genuine [OF assms(2), of k "oe_ok env" c]
    by (simp add: Let_def split_beta)
qed (use assms(2) in \<open>auto simp: Let_def split_beta reply_genuine split: option.splits\<close>)

lemma handle_text_cases:
  obtains op where "handle_text parse env c k s txt = handle_op env c k s op"
  | e where "handle_text parse env c k s txt = (s, reply env c (OpError ''parse_error'' e))"
  by (cases "parse txt") (auto simp: handle_text_def)

section \<open>The invariant\<close>

lemma registrations_handle_op:
  assumes "registrations_ok r" and "hr_conns r c = Some Live" and "hr_owner r c = Some k"
  shows "registrations_ok (r\<lparr>hr_hub := fst (handle_op env c k (hr_hub r) op), hr_sent := outs\<rparr>)"
  using assms
  by (cases op) (auto simp del: handle_op.simps simp: registrations_ok_def handle_op_agents agents_register_def
      agents_heartbeat_def hello_agent_def split: option.splits if_splits)

lemma registrations_subset:
  assumes "registrations_ok r"
    and "\<And>k a. reg k = Some a \<Longrightarrow> tp_agents (hr_hub r) k = Some a \<and> P a"
    and "\<And>k a c. P a \<Longrightarrow> ag_tx a = Some c \<Longrightarrow> hr_conns r c \<in> {Some Live, Some (Leaving True)} \<Longrightarrow>
      hr_conns r' c \<in> {Some Live, Some (Leaving True)}"
    and "hr_owner r' = hr_owner r" and "tp_agents (hr_hub r') = reg"
  shows "registrations_ok r'"
  unfolding registrations_ok_def assms(4,5)
proof (intro allI impI)
  fix k a assume "reg k = Some a"
  with assms(2) have a: "tp_agents (hr_hub r) k = Some a" and p: "P a" by blast+
  with assms(1) obtain c where "ag_id a = k" "ag_namespace a = ''/net/'' @ k" "ag_tx a = Some c"
    "hr_owner r c = Some k" "hr_conns r c \<in> {Some Live, Some (Leaving True)}"
    unfolding registrations_ok_def by metis
  with assms(3) [OF p] show "ag_id a = k \<and> ag_namespace a = ''/net/'' @ k \<and>
      (\<exists>c. ag_tx a = Some c \<and> hr_owner r c = Some k \<and> hr_conns r' c \<in> {Some Live, Some (Leaving True)})"
    by blast
qed

lemma transport_step_registrations:
  assumes "transport_step r r'" and "registrations_ok r"
  shows "registrations_ok r'"
  using assms(1)
proof cases
  case (connect c k)
  then show ?thesis using assms(2)
    by (auto simp: registrations_ok_def) (metis option.distinct(1))+
next
  case (receive c k parse env inp s outs)
  show ?thesis
  proof (rule handle_text_cases [of parse env c k "hr_hub r" inp])
    fix op assume "handle_text parse env c k (hr_hub r) inp = handle_op env c k (hr_hub r) op"
    then have "s = fst (handle_op env c k (hr_hub r) op)" using receive(4) by (metis fst_conv)
    then show ?thesis
      using registrations_handle_op [where env = env and op = op and outs = "hr_sent r @ outs", OF assms(2) receive(2,3)] receive(1) by simp
  next
    fix e assume "handle_text parse env c k (hr_hub r) inp
      = (hr_hub r, reply env c (OpError ''parse_error'' e))"
    then have "s = hr_hub r" using receive(4) by simp
    then show ?thesis using assms(2) receive(1) by (simp add: registrations_ok_def)
  qed
next
  case (leave c k)
  let ?own = "teardown_check (tp_agents (hr_hub r)) k c"
  have own: "ag_tx a = Some c \<longrightarrow> ?own" if a: "tp_agents (hr_hub r) j = Some a" for j a
  proof
    assume tx: "ag_tx a = Some c"
    with a assms(2) have "hr_owner r c = Some j"
      unfolding registrations_ok_def by (metis option.inject)
    then have "j = k" using leave(3) by simp
    then show ?own using a tx by (simp add: teardown_check_def agents_get_def)
  qed
  show ?thesis
    by (rule registrations_subset [OF assms(2), where P = "\<lambda>a. ag_tx a = Some c \<longrightarrow> ?own" and
        reg = "tp_agents (hr_hub r)"]) (use leave own in auto)
next
  case (finish c own k)
  let ?reg = "if own then fst (agents_unregister (tp_agents (hr_hub r)) k) else tp_agents (hr_hub r)"
  have other: "ag_tx a \<noteq> Some c" if "?reg j = Some a" for j a
  proof
    assume tx: "ag_tx a = Some c"
    have j: "tp_agents (hr_hub r) j = Some a" using that
      by (auto simp: agents_unregister_def split: if_splits)
    with tx assms(2) have "hr_owner r c = Some j" and "hr_conns r c \<in> {Some Live, Some (Leaving True)}"
      unfolding registrations_ok_def by (metis option.inject)+
    then have "j = k" and own using finish(2,3) by auto
    then show False using that by (simp add: agents_unregister_def)
  qed
  show ?thesis
    by (rule registrations_subset [OF assms(2), where P = "\<lambda>a. ag_tx a \<noteq> Some c" and reg = ?reg])
      (use finish other in \<open>auto simp: set_agents_def agents_unregister_def split: if_splits\<close>)
next
  case (cleanup ks thr now)
  then show ?thesis
    by (intro registrations_subset [OF assms(2), where P = "\<lambda>_. True"])
      (auto simp: set_agents_def agents_cleanup_retain)
next
  case (prune ks age now)
  then show ?thesis using assms(2) by (simp add: registrations_ok_def set_queue_def)
qed

lemma prune_genuine:
  "iterates ks mq \<Longrightarrow> queues_genuine owner mq \<Longrightarrow> queues_genuine owner (prune_old ks age now mq)"
  by (auto simp: queues_genuine_def prune_old_queue)

lemma queues_genuine_connect:
  "owner c = None \<Longrightarrow> queues_genuine owner mq \<Longrightarrow> queues_genuine (owner(c \<mapsto> k)) mq"
  by (auto simp: queues_genuine_def genuine_connect)

lemma sends_genuine_connect:
  "owner c = None \<Longrightarrow> sends_genuine owner outs \<Longrightarrow> sends_genuine (owner(c \<mapsto> k)) outs"
  by (auto simp: sends_genuine_def genuine_connect)

lemma transport_step_genuine:
  assumes "transport_step r r'"
    and "queues_genuine (hr_owner r) (tp_queue (hr_hub r))" and "sends_genuine (hr_owner r) (hr_sent r)"
  shows "queues_genuine (hr_owner r') (tp_queue (hr_hub r')) \<and> sends_genuine (hr_owner r') (hr_sent r')"
  using assms(1)
proof cases
  case (receive c k parse env inp s outs)
  show ?thesis
  proof (rule handle_text_cases [of parse env c k "hr_hub r" inp])
    fix op assume "handle_text parse env c k (hr_hub r) inp = handle_op env c k (hr_hub r) op"
    then have "s = fst (handle_op env c k (hr_hub r) op)" and "outs = snd (handle_op env c k (hr_hub r) op)"
      using receive(4) by (metis fst_conv, metis snd_conv)
    then show ?thesis using handle_op_genuine [OF receive(3) assms(2)] assms(3) receive(1) by simp
  next
    fix e assume "handle_text parse env c k (hr_hub r) inp
      = (hr_hub r, reply env c (OpError ''parse_error'' e))"
    then show ?thesis using receive(1,4) assms(2,3) by (auto simp: reply_genuine)
  qed
qed (use assms(2,3) in \<open>auto simp: set_agents_def set_queue_def prune_genuine queues_genuine_connect
      sends_genuine_connect\<close>)

lemma transport_reachable_ok:
  "transport_reachable r \<Longrightarrow> registrations_ok r \<and>
     queues_genuine (hr_owner r) (tp_queue (hr_hub r)) \<and> sends_genuine (hr_owner r) (hr_sent r)"
proof (induction rule: transport_reachable.induct)
  case (start plumber quantum)
  then show ?case
    by (simp add: transport_new_def registrations_ok_def agents_new_def queues_genuine_def)
next
  case (step r r')
  then show ?case using transport_step_registrations transport_step_genuine by blast
qed


definition op_sample_env :: "'re text_lib \<Rightarrow> 're op_env" where
  "op_sample_env lib =
     \<lparr>oe_lib = lib, oe_rng = first_rng, oe_now = 0, oe_uuid = 1, oe_ok = \<lambda>_. True\<rparr>"

lemma op_sample_env_simps [simp]:
  "oe_now (op_sample_env lib) = 0" "oe_ok (op_sample_env lib) n = True" "oe_lib (op_sample_env lib) = lib"
  by (simp_all add: op_sample_env_def)

definition sample_manifest :: "string \<Rightarrow> capability_manifest" where
  "sample_manifest i =
     \<lparr>man_agent_id = i, man_hostname = ''box'', man_capabilities = [], man_preferred_namespace = None\<rparr>"

text \<open>An agent has connected on channel 0 and said hello.\<close>

definition one_connected :: "string hub_run" where
  "one_connected =
     (let r = transport_new plumber_new None;
          r1 = r\<lparr>hr_conns := (hr_conns r)(0 \<mapsto> Live), hr_owner := (hr_owner r)(0 \<mapsto> ''a'')\<rparr>;
          (s, outs) = handle_text (\<lambda>_. Inr (Hello (sample_manifest ''spoofed''))) (op_sample_env prefix_lib) 0 ''a''
                        (hr_hub r1) ''hello''
      in r1\<lparr>hr_hub := s, hr_sent := hr_sent r1 @ outs\<rparr>)"

lemma one_connected_reachable: "transport_reachable one_connected"
proof -
  let ?r = "transport_new plumber_new None :: string hub_run"
  let ?r1 = "?r\<lparr>hr_conns := (hr_conns ?r)(0 \<mapsto> Live), hr_owner := (hr_owner ?r)(0 \<mapsto> ''a'')\<rparr>"
  let ?h = "handle_text (\<lambda>_. Inr (Hello (sample_manifest ''spoofed''))) (op_sample_env prefix_lib) 0 ''a''
      (hr_hub ?r1) ''hello''"
  have "transport_step ?r ?r1"
    by (rule transport_step.connect) (simp add: transport_new_def)
  then have "transport_reachable ?r1"
    by (rule transport_reachable.step [OF transport_reachable.start])
  moreover have "transport_step ?r1 (?r1\<lparr>hr_hub := fst ?h, hr_sent := hr_sent ?r1 @ snd ?h\<rparr>)"
    by (rule transport_step.receive [where c = 0 and k = "''a''" and
          parse = "\<lambda>_. Inr (Hello (sample_manifest ''spoofed''))" and env = "op_sample_env prefix_lib" and
          inp = "''hello''"]) simp_all
  ultimately have "transport_reachable (?r1\<lparr>hr_hub := fst ?h, hr_sent := hr_sent ?r1 @ snd ?h\<rparr>)"
    by (rule transport_reachable.step)
  then show ?thesis by (simp add: one_connected_def Let_def split_beta)
qed

lemma one_connected_agent:
  "tp_agents (hr_hub one_connected) ''a''
     = Some (hello_agent (op_sample_env prefix_lib) 0 ''a'' (sample_manifest ''spoofed''))"
  by (simp add: one_connected_def handle_text_def transport_new_def Let_def split_beta agents_register_def
      hello_agent_def)


lemma drain_loop_stops:
  "drain_loop ok n q = (sent, rest, d) \<Longrightarrow>
     (\<forall>i < length sent. ok (n + i)) \<and> (rest = [] \<or> \<not> ok (n + length sent))"
proof (induction ok n q arbitrary: sent rest d rule: drain_loop.induct)
  case (2 ok n qm q)
  show ?case
  proof (cases "ok n")
    case True
    obtain s r d' where l: "drain_loop ok (n + 1) q = (s, r, d')" by (cases "drain_loop ok (n + 1) q") auto
    with 2(1) [OF True l] 2(2) True show ?thesis
      by (auto simp: less_Suc_eq_0_disj)
  qed (use 2 in auto)
qed auto

text \<open>
  C26. A hello registers the agent under the connection's identifier, whatever its manifest says, and
  sends what was queued for it on this connection's channel, first in first out, up to the first send
  that fails; the rest stays queued in order, and the queues of other agents are untouched.
\<close>

theorem hello_flushes_queue:
  assumes "handle_op env c k s (Hello manifest) = (s', outs)"
  shows "map snd outs @ queued_ops (queue_of (tp_queue s') k) = queued_ops (queue_of (tp_queue s) k)
    \<and> fst ` set outs \<subseteq> {c}
    \<and> (\<forall>i < length outs. oe_ok env i)
    \<and> (queue_of (tp_queue s') k = [] \<or> \<not> oe_ok env (length outs))
    \<and> (\<forall>j. j \<noteq> k \<longrightarrow> queue_of (tp_queue s') j = queue_of (tp_queue s) j)
    \<and> (\<exists>a. tp_agents s' = (tp_agents s)(k \<mapsto> a) \<and> ag_id a = k \<and> ag_tx a = Some c \<and> ag_manifest a = manifest)"
proof -
  obtain sent rest d where l: "drain_loop (oe_ok env) 0 (queue_of (tp_queue s) k) = (sent, rest, d)"
    by (cases "drain_loop (oe_ok env) 0 (queue_of (tp_queue s) k)") auto
  have outs: "outs = map (\<lambda>op. (c, op)) sent"
    using assms sent_drain_to [of "tp_queue s" k "oe_ok env"] l by (auto simp: Let_def split_beta)
  have q: "queue_of (tp_queue s') j = (if j = k then rest else queue_of (tp_queue s) j)" for j
    using assms queue_of_drain_to [of "tp_queue s" k "oe_ok env" j] l by (auto simp: Let_def split_beta)
  have ag: "tp_agents s' = (tp_agents s)(k \<mapsto> hello_agent env c k manifest)"
    using assms by (auto simp: Let_def split_beta agents_register_def hello_agent_def)
  show ?thesis
    using drain_loop_split [OF l] drain_loop_stops [OF l]
    by (auto simp: outs q ag hello_agent_def comp_def)
qed

theorem hello_flushes_queue_witness:
  "map snd (snd (handle_op (op_sample_env prefix_lib) 5 ''a''
      (hr_hub (transport_new plumber_new None)\<lparr>tp_queue := enqueue (enqueue queue_new 0 ''a'' (a_note ''x'')) 1 ''a''
        (a_note ''y'')\<rparr>) (Hello (sample_manifest ''a''))))
   = [OpMessage (a_note ''x''), OpMessage (a_note ''y'')]"
proof -
  let ?q = "enqueue (enqueue queue_new 0 ''a'' (a_note ''x'')) 1 ''a'' (a_note ''y'')"
  let ?h = "handle_op (op_sample_env prefix_lib) 5 ''a''
      (hr_hub (transport_new plumber_new None)\<lparr>tp_queue := ?q\<rparr>) (Hello (sample_manifest ''a''))"
  note f = hello_flushes_queue [OF prod.collapse [of ?h, symmetric]]
  have "queue_of (tp_queue (fst ?h)) ''a'' = []"
    using f by (simp del: handle_op.simps add: op_sample_env_def)
  with conjunct1 [OF f] show ?thesis
    by (simp del: handle_op.simps add: queue_of_enqueue queued_now_def)
qed

text \<open>
  C35. The end of a superseded connection leaves the newer registration alone only if the agent has not
  said hello again between the look at the registry and the removal: the look compares channels, the
  removal does not. A reconnect in that window is unregistered although its connection is alive.
\<close>

theorem teardown_race:
  assumes "tp_agents s k = Some a" and "ag_tx a = Some c" and "c' \<noteq> c"
    and "handle_op env c' k s (Hello manifest) = (s', outs)"
  shows "teardown (tp_agents s') k c = tp_agents s'
    \<and> (\<exists>b. teardown (tp_agents s') k c k = Some b \<and> ag_tx b = Some c')
    \<and> teardown_check (tp_agents s) k c
    \<and> fst (agents_unregister (tp_agents s') k) k = None"
proof -
  have "tp_agents s' = (tp_agents s)(k \<mapsto> hello_agent env c' k manifest)"
    using assms(4) by (auto simp: Let_def split_beta agents_register_def hello_agent_def)
  then show ?thesis using assms(1-3)
    by (simp add: teardown_def teardown_check_def agents_get_def hello_agent_def agents_unregister_def)
qed

theorem teardown_race_witness:
  "teardown_check (tp_agents (hr_hub one_connected)) ''a'' 0 \<and>
   fst (agents_unregister (tp_agents (fst (handle_op (op_sample_env prefix_lib) 1 ''a'' (hr_hub one_connected)
     (Hello (sample_manifest ''a''))))) ''a'') ''a'' = None"
proof -
  have "ag_tx (hello_agent (op_sample_env prefix_lib) 0 ''a'' (sample_manifest ''spoofed'')) = Some 0"
    by (simp add: hello_agent_def)
  from teardown_race [OF one_connected_agent this one_neq_zero prod.collapse [symmetric]]
  show ?thesis by blast
qed

text \<open>
  A message frame changes neither agents nor files, and it is delivered with the connection's agent
  as its sender to one of the plumber's destinations for it: the first when there is no quantum router,
  the quantum router's choice otherwise.
\<close>

theorem message_frame_routed:
  assumes "tp_quantum s \<noteq> None \<longrightarrow> rng_ok (oe_rng env)"
    and "handle_op env c k s (OpMessage msg) = (s', outs)"
  shows "\<exists>dest \<in> set (plumber_route (oe_lib env) (tp_plumber s) (stamp_sender k msg)).
    (tp_quantum s = None \<longrightarrow> dest = hd (plumber_route (oe_lib env) (tp_plumber s) (stamp_sender k msg))) \<and>
    (tp_queue s', outs) = deliver_ignoring (tp_agents s) (tp_queue s) (oe_now env) (oe_ok env 0) dest
      (stamp_sender k msg) \<and>
    tp_agents s' = tp_agents s \<and> tp_vfs s' = tp_vfs s \<and> tp_plumber s' = tp_plumber s"
proof -
  let ?ds = "plumber_route (oe_lib env) (tp_plumber s) (stamp_sender k msg)"
  let ?sel = "select_destination (oe_rng env) (oe_now env) (tp_quantum s) (stamp_sender k msg) ?ds"
  have "\<forall>q. tp_quantum s = Some q \<longrightarrow> rng_ok (oe_rng env)" using assms(1) by auto
  from select_destination_member [OF this plumber_route_nonempty] obtain d
    where d: "d \<in> set ?ds" "snd ?sel = Some d" by blast
  have first: "tp_quantum s = None \<longrightarrow> d = hd ?ds"
    using d(2) by (cases ?ds) (auto simp: select_destination_def)
  note eq = assms(2) [unfolded message_op_some [OF d(2)] Let_def prod.inject]
  have "(tp_queue s', outs) = deliver_ignoring (tp_agents s) (tp_queue s) (oe_now env) (oe_ok env 0) d
      (stamp_sender k msg) \<and> tp_agents s' = tp_agents s \<and> tp_vfs s' = tp_vfs s \<and> tp_plumber s' = tp_plumber s"
    unfolding conjunct1 [OF eq, symmetric] conjunct2 [OF eq, symmetric] by simp
  with first show ?thesis by (intro bexI [OF conjI d(1)])
qed

theorem message_frame_routed_witness:
  "\<exists>dest \<in> set (plumber_route prefix_lib plumber_new (stamp_sender ''a'' (a_note ''x''))).
     tp_queue (fst (handle_op (op_sample_env prefix_lib) 0 ''a'' (hr_hub one_connected) (OpMessage (a_note ''x''))))
       = fst (deliver_ignoring (tp_agents (hr_hub one_connected)) (tp_queue (hr_hub one_connected)) 0 True dest
           (stamp_sender ''a'' (a_note ''x'')))"
proof -
  let ?s = "hr_hub one_connected" and ?env = "op_sample_env prefix_lib"
  have "tp_quantum ?s = None" and p: "tp_plumber ?s = plumber_new"
    by (simp_all add: one_connected_def handle_text_def transport_new_def Let_def split_beta)
  then have "tp_quantum ?s \<noteq> None \<longrightarrow> rng_ok (oe_rng ?env)" by simp
  from message_frame_routed [OF this prod.collapse [of "handle_op ?env 0 ''a'' ?s (OpMessage (a_note ''x''))",
      symmetric]]
  obtain dest where "dest \<in> set (plumber_route (oe_lib ?env) (tp_plumber ?s) (stamp_sender ''a'' (a_note ''x'')))"
    and e: "(tp_queue (fst (handle_op ?env 0 ''a'' ?s (OpMessage (a_note ''x'')))),
        snd (handle_op ?env 0 ''a'' ?s (OpMessage (a_note ''x''))))
      = deliver_ignoring (tp_agents ?s) (tp_queue ?s) (oe_now ?env) (oe_ok ?env 0) dest (stamp_sender ''a'' (a_note ''x''))"
    by blast
  then have "dest \<in> set (plumber_route prefix_lib plumber_new (stamp_sender ''a'' (a_note ''x'')))"
    by (simp add: p)
  then show ?thesis
    by (rule bexI [where x = dest, rotated]) (rule arg_cong [OF e, of fst, unfolded fst_conv op_sample_env_simps])
qed

end
