(* ===== verification/Circuit.thy ===== *)
theory Circuit
  imports Prelude
begin

text \<open>
  The circuit breaker of \<open>src/circuit.rs\<close>: its per-endpoint state, every operation of
  \<open>CircuitBreaker\<close>, the invariant of its entries and the abstract three-state machine it
  implements. \<open>Instant::now()\<close> is the argument \<open>now\<close>.
\<close>

section \<open>State\<close>

datatype circuit_state = Closed | Open | HalfOpen

record endpoint_circuit =
  ec_state :: circuit_state
  ec_failures :: u32
  ec_last_failure :: "instant option"
  ec_half_open_calls :: u32

record circuit_breaker =
  cb_state :: "(string, endpoint_circuit) dashmap"
  cb_failure_threshold :: u32
  cb_recovery_timeout :: nat
  cb_half_open_max_calls :: u32

definition endpoint_circuit_default :: endpoint_circuit where
  "endpoint_circuit_default =
     \<lparr>ec_state = Closed, ec_failures = 0, ec_last_failure = None, ec_half_open_calls = 0\<rparr>"

definition circuit_new :: "u32 \<Rightarrow> u64 \<Rightarrow> u32 \<Rightarrow> circuit_breaker" where
  "circuit_new failure_threshold recovery_timeout_secs half_open_max_calls =
     \<lparr>cb_state = Map.empty,
      cb_failure_threshold = failure_threshold,
      cb_recovery_timeout = unat recovery_timeout_secs * nanos_per_sec,
      cb_half_open_max_calls = half_open_max_calls\<rparr>"

definition circuit_entry :: "circuit_breaker \<Rightarrow> string \<Rightarrow> endpoint_circuit" where
  "circuit_entry cb ep = entry_or (cb_state cb) ep endpoint_circuit_default"

section \<open>Operations\<close>

definition allow_entry ::
    "circuit_breaker \<Rightarrow> instant \<Rightarrow> endpoint_circuit \<Rightarrow> endpoint_circuit \<times> bool" where
  "allow_entry cb now e =
     (case ec_state e of
        Closed \<Rightarrow> (e, True)
      | Open \<Rightarrow>
          (case ec_last_failure e of
             Some t \<Rightarrow>
               if now - t \<ge> cb_recovery_timeout cb
               then (e\<lparr>ec_state := HalfOpen, ec_half_open_calls := 1\<rparr>, True)
               else (e, False)
           | None \<Rightarrow> (e, False))
      | HalfOpen \<Rightarrow>
          if ec_half_open_calls e < cb_half_open_max_calls cb
          then (e\<lparr>ec_half_open_calls := ec_half_open_calls e + 1\<rparr>, True)
          else (e, False))"

definition circuit_allow :: "circuit_breaker \<Rightarrow> instant \<Rightarrow> string \<Rightarrow> circuit_breaker \<times> bool" where
  "circuit_allow cb now ep =
     (let (e, ok) = allow_entry cb now (circuit_entry cb ep)
      in (cb\<lparr>cb_state := (cb_state cb)(ep \<mapsto> e)\<rparr>, ok))"

definition success_entry :: "endpoint_circuit \<Rightarrow> endpoint_circuit" where
  "success_entry e =
     (case ec_state e of
        HalfOpen \<Rightarrow> e\<lparr>ec_state := Closed, ec_failures := 0, ec_last_failure := None\<rparr>
      | Closed \<Rightarrow> e\<lparr>ec_failures := 0\<rparr>
      | Open \<Rightarrow> e)"

definition record_success :: "circuit_breaker \<Rightarrow> string \<Rightarrow> circuit_breaker" where
  "record_success cb ep =
     (case cb_state cb ep of
        Some e \<Rightarrow> cb\<lparr>cb_state := (cb_state cb)(ep \<mapsto> success_entry e)\<rparr>
      | None \<Rightarrow> cb)"

definition failure_entry ::
    "circuit_breaker \<Rightarrow> instant \<Rightarrow> endpoint_circuit \<Rightarrow> endpoint_circuit" where
  "failure_entry cb now e =
     (let e1 = e\<lparr>ec_failures := ec_failures e + 1, ec_last_failure := Some now\<rparr>
      in if ec_state e1 = HalfOpen then e1\<lparr>ec_state := Open\<rparr>
         else if ec_failures e1 \<ge> cb_failure_threshold cb then e1\<lparr>ec_state := Open\<rparr>
         else e1)"

definition record_failure :: "circuit_breaker \<Rightarrow> instant \<Rightarrow> string \<Rightarrow> circuit_breaker" where
  "record_failure cb now ep =
     cb\<lparr>cb_state := (cb_state cb)(ep \<mapsto> failure_entry cb now (circuit_entry cb ep))\<rparr>"

definition circuit_get_state :: "circuit_breaker \<Rightarrow> string \<Rightarrow> circuit_state" where
  "circuit_get_state cb ep =
     (case map_option ec_state (cb_state cb ep) of Some s \<Rightarrow> s | None \<Rightarrow> Closed)"

definition circuit_diagnostics ::
    "string list \<Rightarrow> circuit_breaker \<Rightarrow> (string \<times> circuit_state \<times> u32) list" where
  "circuit_diagnostics ks cb = collect ks (\<lambda>k e. (k, ec_state e, ec_failures e)) (cb_state cb)"

section \<open>Runs\<close>

text \<open>What the hub does to a breaker: asks for admission, or reports an outcome.\<close>

datatype circuit_event = Allow instant | Success | Failure instant

fun circuit_act ::
    "circuit_breaker \<Rightarrow> string \<Rightarrow> circuit_event \<Rightarrow> circuit_breaker \<times> bool option" where
  "circuit_act cb ep (Allow now) = (let (cb', ok) = circuit_allow cb now ep in (cb', Some ok))"
| "circuit_act cb ep Success = (record_success cb ep, None)"
| "circuit_act cb ep (Failure now) = (record_failure cb now ep, None)"

inductive circuit_reachable :: "circuit_breaker \<Rightarrow> bool" where
  start: "circuit_reachable (circuit_new f r h)"
| act: "circuit_reachable cb \<Longrightarrow> circuit_reachable (fst (circuit_act cb ep ev))"

section \<open>The invariant of an entry\<close>

definition entry_inv :: "circuit_breaker \<Rightarrow> endpoint_circuit \<Rightarrow> bool" where
  "entry_inv cb e =
     (case ec_state e of
        Closed \<Rightarrow> ec_failures e = 0 \<or> ec_failures e < cb_failure_threshold cb
      | Open \<Rightarrow> ec_last_failure e \<noteq> None
      | HalfOpen \<Rightarrow> ec_last_failure e \<noteq> None \<and> 1 \<le> ec_half_open_calls e \<and>
          (ec_half_open_calls e = 1 \<or> ec_half_open_calls e \<le> cb_half_open_max_calls cb))"

definition circuit_inv :: "circuit_breaker \<Rightarrow> bool" where
  "circuit_inv cb \<longleftrightarrow> (\<forall>ep e. cb_state cb ep = Some e \<longrightarrow> entry_inv cb e)"

definition same_config :: "circuit_breaker \<Rightarrow> circuit_breaker \<Rightarrow> bool" where
  "same_config cb cb' \<longleftrightarrow>
     cb_failure_threshold cb = cb_failure_threshold cb' \<and>
     cb_recovery_timeout cb = cb_recovery_timeout cb' \<and>
     cb_half_open_max_calls cb = cb_half_open_max_calls cb'"

section \<open>The abstract breaker\<close>

text \<open>
  What the breaker promises, without counters that mean nothing in the current state: closed with
  so many failures in a row, open since a moment, or half-open with so many trial calls admitted.
\<close>

datatype abs_circuit = AClosed nat | AOpen instant | AHalf nat

fun spec_step :: "nat \<times> nat \<times> nat \<Rightarrow> abs_circuit \<Rightarrow> circuit_event \<Rightarrow> abs_circuit \<times> bool option" where
  "spec_step (thr, tmo, hmax) (AClosed n) (Allow now) = (AClosed n, Some True)"
| "spec_step (thr, tmo, hmax) (AOpen t) (Allow now) =
     (if tmo \<le> now - t then (AHalf 1, Some True) else (AOpen t, Some False))"
| "spec_step (thr, tmo, hmax) (AHalf k) (Allow now) =
     (if k < hmax then (AHalf (k + 1), Some True) else (AHalf k, Some False))"
| "spec_step (thr, tmo, hmax) (AClosed n) Success = (AClosed 0, None)"
| "spec_step (thr, tmo, hmax) (AOpen t) Success = (AOpen t, None)"
| "spec_step (thr, tmo, hmax) (AHalf k) Success = (AClosed 0, None)"
| "spec_step (thr, tmo, hmax) (AClosed n) (Failure now) =
     (if thr \<le> n + 1 then AOpen now else AClosed (n + 1), None)"
| "spec_step (thr, tmo, hmax) (AOpen t) (Failure now) = (AOpen now, None)"
| "spec_step (thr, tmo, hmax) (AHalf k) (Failure now) = (AOpen now, None)"

definition abs_config :: "circuit_breaker \<Rightarrow> nat \<times> nat \<times> nat" where
  "abs_config cb =
     (unat (cb_failure_threshold cb), cb_recovery_timeout cb, unat (cb_half_open_max_calls cb))"

fun abs_entry :: "endpoint_circuit \<Rightarrow> abs_circuit" where
  "abs_entry e =
     (case ec_state e of
        Closed \<Rightarrow> AClosed (unat (ec_failures e))
      | Open \<Rightarrow> AOpen (case ec_last_failure e of Some t \<Rightarrow> t | None \<Rightarrow> 0)
      | HalfOpen \<Rightarrow> AHalf (unat (ec_half_open_calls e)))"

definition abs_circuit :: "circuit_breaker \<Rightarrow> string \<Rightarrow> abs_circuit" where
  "abs_circuit cb ep = abs_entry (circuit_entry cb ep)"

section \<open>One entry\<close>

lemma config_allow [simp]: "abs_config (fst (circuit_allow cb now ep)) = abs_config cb"
  by (simp add: circuit_allow_def abs_config_def split_beta)

lemma config_success [simp]: "abs_config (record_success cb ep) = abs_config cb"
  by (simp add: record_success_def abs_config_def split: option.splits)

lemma config_failure [simp]: "abs_config (record_failure cb now ep) = abs_config cb"
  by (simp add: record_failure_def abs_config_def)

lemma same_config_allow: "same_config (fst (circuit_allow cb now ep)) cb"
  by (simp add: circuit_allow_def same_config_def split_beta)

lemma same_config_act: "same_config (fst (circuit_act cb ep ev)) cb"
  by (cases ev) (auto simp: circuit_allow_def record_success_def record_failure_def same_config_def
      split_beta split: option.splits)

lemma entry_inv_default [simp]: "entry_inv cb endpoint_circuit_default"
  by (simp add: entry_inv_def endpoint_circuit_default_def)

lemma entry_inv_same_config: "same_config cb cb' \<Longrightarrow> entry_inv cb = entry_inv cb'"
  by (rule ext) (simp add: entry_inv_def same_config_def split: circuit_state.splits)

lemma entry_inv_allow: "entry_inv cb e \<Longrightarrow> entry_inv cb (fst (allow_entry cb now e))"
  using less_plus_one_u32 [of "ec_half_open_calls e" "cb_half_open_max_calls cb"]
  by (auto simp: entry_inv_def allow_entry_def word_le_nat_alt word_less_nat_alt
      unat_plus_one_u32 [of _ "cb_half_open_max_calls cb"]
      split: circuit_state.splits option.splits)

lemma entry_inv_success: "entry_inv cb e \<Longrightarrow> entry_inv cb (success_entry e)"
  by (auto simp: entry_inv_def success_entry_def split: circuit_state.splits)

lemma entry_inv_failure: "entry_inv cb e \<Longrightarrow> entry_inv cb (failure_entry cb now e)"
  by (auto simp: entry_inv_def failure_entry_def Let_def split: circuit_state.splits)

lemma abs_allow:
  assumes "entry_inv cb e"
  shows "spec_step (abs_config cb) (abs_entry e) (Allow now)
    = (abs_entry (fst (allow_entry cb now e)), Some (snd (allow_entry cb now e)))"
  using assms unat_plus_one_u32 [of "ec_half_open_calls e" "cb_half_open_max_calls cb"]
  by (auto simp: entry_inv_def allow_entry_def abs_config_def word_less_nat_alt
      split: circuit_state.splits option.splits)

lemma abs_success:
  "spec_step (abs_config cb) (abs_entry e) Success = (abs_entry (success_entry e), None)"
  by (auto simp: success_entry_def abs_config_def split: circuit_state.splits)

lemma abs_failure:
  assumes "entry_inv cb e"
  shows "spec_step (abs_config cb) (abs_entry e) (Failure now)
    = (abs_entry (failure_entry cb now e), None)"
  using assms unat_plus_one_u32 [of "ec_failures e" "cb_failure_threshold cb"]
  by (auto simp: entry_inv_def failure_entry_def abs_config_def Let_def word_le_nat_alt
      word_less_nat_alt split: circuit_state.splits)

section \<open>The breaker as independent entries\<close>

definition circuit_config :: "circuit_breaker \<Rightarrow> circuit_breaker" where
  "circuit_config cb = cb\<lparr>cb_state := Map.empty\<rparr>"

fun entry_act :: "circuit_breaker \<Rightarrow> endpoint_circuit \<Rightarrow> circuit_event \<Rightarrow> endpoint_circuit \<times> bool option" where
  "entry_act cb e (Allow now) = (let (e', ok) = allow_entry cb now e in (e', Some ok))"
| "entry_act cb e Success = (success_entry e, None)"
| "entry_act cb e (Failure now) = (failure_entry cb now e, None)"

lemma circuit_config_fields [simp]:
  "allow_entry (circuit_config cb) = allow_entry cb"
  "failure_entry (circuit_config cb) = failure_entry cb"
  "abs_config (circuit_config cb) = abs_config cb"
  "entry_inv (circuit_config cb) = entry_inv cb"
  by (auto simp: circuit_config_def allow_entry_def failure_entry_def abs_config_def entry_inv_def
      fun_eq_iff Let_def split: circuit_state.splits option.splits)

lemma entry_act_config: "entry_act (circuit_config cb) = entry_act cb"
proof (intro ext)
  fix e ev
  show "entry_act (circuit_config cb) e ev = entry_act cb e ev" by (cases ev) simp_all
qed

lemma success_default [simp]: "success_entry endpoint_circuit_default = endpoint_circuit_default"
  by (simp add: success_entry_def endpoint_circuit_default_def)

interpretation breaker: keyed_machine circuit_act circuit_config circuit_entry entry_act
proof unfold_locales
  fix cb :: circuit_breaker and ep ep' ev
  show "circuit_config (fst (circuit_act cb ep ev)) = circuit_config cb"
    by (cases ev) (auto simp: circuit_config_def circuit_allow_def record_success_def
        record_failure_def split_beta split: option.splits)
  show "circuit_entry (fst (circuit_act cb ep ev)) ep
      = fst (entry_act (circuit_config cb) (circuit_entry cb ep) ev)"
    by (cases ev) (auto simp: circuit_entry_def circuit_allow_def record_success_def
        record_failure_def entry_or_def split_beta split: option.splits)
  show "snd (circuit_act cb ep ev) = snd (entry_act (circuit_config cb) (circuit_entry cb ep) ev)"
    by (cases ev) (auto simp: circuit_allow_def split_beta)
  show "circuit_entry (fst (circuit_act cb ep ev)) ep' = circuit_entry cb ep'" if "ep' \<noteq> ep"
    using that by (cases ev) (auto simp: circuit_entry_def circuit_allow_def record_success_def
        record_failure_def entry_or_def split_beta split: option.splits)
qed

lemma entry_inv_act: "entry_inv cb e \<Longrightarrow> entry_inv cb (fst (entry_act cb e ev))"
  by (cases ev) (auto simp: split_beta entry_inv_allow entry_inv_success entry_inv_failure)

lemma abs_act:
  "entry_inv cb e \<Longrightarrow> spec_step (abs_config cb) (abs_entry e) ev
     = (abs_entry (fst (entry_act cb e ev)), snd (entry_act cb e ev))"
  by (cases ev) (simp_all add: split_beta abs_allow abs_success abs_failure del: abs_entry.simps)

lemma abs_run:
  "entry_inv cb e \<Longrightarrow>
     abs_entry (fst (run_local (entry_act cb) e es))
       = fst (run_local (spec_step (abs_config cb)) (abs_entry e) es) \<and>
     snd (run_local (entry_act cb) e es)
       = snd (run_local (spec_step (abs_config cb)) (abs_entry e) es)"
proof (induction es arbitrary: e)
  case (Cons ev es)
  show ?case
    using Cons.IH [OF entry_inv_act [OF Cons.prems, of ev]] abs_act [OF Cons.prems, of ev]
    by (simp add: split_beta Let_def del: abs_entry.simps)
qed simp

section \<open>The invariant of the breaker\<close>

lemma circuit_inv_entry: "circuit_inv cb \<Longrightarrow> entry_inv cb (circuit_entry cb ep)"
  by (simp add: circuit_inv_def circuit_entry_def entry_or_def split: option.splits)

lemma circuit_inv_new [simp]: "circuit_inv (circuit_new f r h)"
  by (simp add: circuit_inv_def circuit_new_def)

lemma circuit_inv_iff: "circuit_inv cb \<longleftrightarrow> (\<forall>ep. entry_inv cb (circuit_entry cb ep))"
  by (auto simp: circuit_inv_def circuit_entry_def entry_or_def split: option.splits)

lemma circuit_inv_act: 
  assumes "circuit_inv cb" shows "circuit_inv (fst (circuit_act cb ep ev))"
proof -
  let ?cb = "fst (circuit_act cb ep ev)"
  have "entry_inv ?cb (circuit_entry ?cb ep')" for ep'
    using assms breaker.entry_act [of cb ep ev] breaker.entry_other [of ep' ep cb ev]
      entry_inv_act [of "circuit_config cb" "circuit_entry cb ep" ev]
    by (cases "ep' = ep")
      (auto simp: entry_inv_same_config [OF same_config_act] circuit_inv_iff)
  then show ?thesis by (simp add: circuit_inv_iff)
qed

lemma circuit_inv_run: "circuit_inv cb \<Longrightarrow> circuit_inv (fst (run_keyed circuit_act cb evs))"
proof (induction evs arbitrary: cb)
  case (Cons x evs)
  then show ?case using circuit_inv_act [of cb "fst x" "snd x"]
    by (cases x) (simp add: split_beta Let_def)
qed simp

lemma circuit_reachable_inv: "circuit_reachable cb \<Longrightarrow> circuit_inv cb"
  by (induction rule: circuit_reachable.induct) (auto intro: circuit_inv_act)

lemma circuit_reachable_run:
  "circuit_reachable cb \<Longrightarrow> circuit_reachable (fst (run_keyed circuit_act cb evs))"
proof (induction evs arbitrary: cb)
  case (Cons x evs)
  then show ?case using circuit_reachable.act [of cb "fst x" "snd x"]
    by (cases x) (simp add: split_beta Let_def)
qed simp

inductive_cases circuit_reachableE: "circuit_reachable cb"

lemma get_state_abs:
  "circuit_get_state cb ep =
     (case abs_circuit cb ep of AClosed _ \<Rightarrow> Closed | AOpen _ \<Rightarrow> Open | AHalf _ \<Rightarrow> HalfOpen)"
  by (auto simp: circuit_get_state_def abs_circuit_def circuit_entry_def entry_or_def
      endpoint_circuit_default_def split: option.splits circuit_state.splits)

text \<open>Any interleaving of operations, seen from one endpoint, is a run of its abstract machine.\<close>

lemma breaker_simulation:
  assumes "circuit_inv cb"
  shows "abs_circuit (fst (run_keyed circuit_act cb evs)) ep
      = fst (run_local (spec_step (abs_config cb)) (abs_circuit cb ep) (for_key ep evs))"
    and "for_key ep (snd (run_keyed circuit_act cb evs))
      = snd (run_local (spec_step (abs_config cb)) (abs_circuit cb ep) (for_key ep evs))"
  using abs_run [OF circuit_inv_entry [OF assms, of ep], of "for_key ep evs"]
    breaker.run_project [of cb evs ep]
  by (simp_all add: abs_circuit_def entry_act_config del: abs_entry.simps)

section \<open>Runs of the abstract breaker\<close>

lemma spec_open_failures:
  "fst (run_local (spec_step cfg) (AOpen t) (map Failure ts)) = AOpen (last (t # ts))"
proof (induction ts arbitrary: t)
  case (Cons u ts)
  then show ?case by (cases cfg) (simp add: split_beta Let_def)
qed simp

lemma spec_closed_failures:
  "fst (run_local (spec_step (thr, tmo, hmax)) (AClosed n) (map Failure ts)) =
     (if ts \<noteq> [] \<and> thr \<le> n + length ts then AOpen (last ts) else AClosed (n + length ts))"
proof (induction ts arbitrary: n)
  case (Cons t ts)
  show ?case
    using Cons.IH [of "n + 1"] by (auto simp: split_beta Let_def spec_open_failures)
qed simp

lemma spec_half_allows:
  "run_local (spec_step (thr, tmo, hmax)) (AHalf k) (map Allow ts) =
     (AHalf (k + min (length ts) (hmax - k)),
      map Some (replicate (min (length ts) (hmax - k)) True @ replicate (length ts - (hmax - k)) False))"
proof (induction ts arbitrary: k)
  case (Cons t ts)
  show ?case
  proof (cases "k < hmax")
    case True
    then have "hmax - k = Suc (hmax - (k + 1))" by simp
    with True show ?thesis by (simp add: Cons.IH del: diff_Suc_Suc)
  next
    case False
    then show ?thesis by (simp add: Cons.IH)
  qed
qed simp

text \<open>A request within \<open>tmo\<close> of the instant \<open>t\<close>, or a success report at any time.\<close>

fun early :: "instant \<Rightarrow> nat \<Rightarrow> circuit_event \<Rightarrow> bool" where
  "early t tmo (Allow now) = (now - t < tmo)"
| "early t tmo Success = True"
| "early t tmo (Failure now) = False"

lemma spec_open_early:
  "\<forall>ev \<in> set es. early t tmo ev \<Longrightarrow>
     fst (run_local (spec_step (thr, tmo, hmax)) (AOpen t) es) = AOpen t \<and>
     Some True \<notin> set (snd (run_local (spec_step (thr, tmo, hmax)) (AOpen t) es))"
proof (induction es)
  case (Cons ev es)
  then show ?case by (cases ev) (auto simp: split_beta Let_def)
qed simp

lemma abs_circuit_open:
  "circuit_inv cb \<Longrightarrow> circuit_get_state cb ep = Open \<Longrightarrow>
     \<exists>t. abs_circuit cb ep = AOpen t \<and> ec_last_failure (circuit_entry cb ep) = Some t"
  using circuit_inv_entry [of cb ep]
  by (auto simp: get_state_abs abs_circuit_def entry_inv_def split: circuit_state.splits)

lemma abs_circuit_half:
  "circuit_get_state cb ep = HalfOpen \<Longrightarrow>
     abs_circuit cb ep = AHalf (unat (ec_half_open_calls (circuit_entry cb ep)))"
  by (auto simp: get_state_abs abs_circuit_def split: circuit_state.splits)

section \<open>What the breaker guarantees\<close>

text \<open>
  C1. The circuit breaker refines its abstract specification. In any run of \<open>allow\<close>,
  \<open>record_success\<close> and \<open>record_failure\<close> over any endpoints, the state of an endpoint and the
  answers it gets are those of an abstract three-state breaker fed with that endpoint's operations
  alone: the map, the wrapping counters and the other endpoints have no influence.
\<close>

theorem circuit_refines_spec:
  assumes "circuit_reachable cb"
  shows "abs_circuit (fst (run_keyed circuit_act cb evs)) ep
      = fst (run_local (spec_step (abs_config cb)) (abs_circuit cb ep) (for_key ep evs)) \<and>
    for_key ep (snd (run_keyed circuit_act cb evs))
      = snd (run_local (spec_step (abs_config cb)) (abs_circuit cb ep) (for_key ep evs))"
  using breaker_simulation [OF circuit_reachable_inv [OF assms]] by simp

theorem circuit_refines_spec_witness:
  "circuit_reachable (circuit_new 1 1 1) \<and>
   for_key ''a'' (snd (run_keyed circuit_act (circuit_new 1 1 1)
       [(''a'', Failure 5), (''b'', Allow 6), (''a'', Allow 7)]))
     = snd (run_local (spec_step (abs_config (circuit_new 1 1 1)))
         (abs_circuit (circuit_new 1 1 1) ''a'') [Failure 5, Allow 7])"
  using circuit_refines_spec [OF circuit_reachable.start [of 1 1 1],
      of "[(''a'', Failure 5), (''b'', Allow 6), (''a'', Allow 7)]" "''a''"]
    circuit_reachable.start [of 1 1 1]
  by simp

text \<open>
  C18. The entries of every breaker the hub can build stay well formed: a closed circuit has counted
  fewer failures than the threshold, an open or half-open one always knows when it last failed (so
  the branch of \<open>allow\<close> that refuses for want of a timestamp is never taken), and a half-open one
  has admitted between one call and the configured maximum. The failure counter may wrap around
  after \<open>2 ^ 32\<close> failures without ever breaking this.
\<close>

theorem circuit_invariant:
  assumes "circuit_reachable cb" and "cb_state cb ep = Some e"
  shows "(ec_state e = Closed \<longrightarrow> ec_failures e = 0 \<or> ec_failures e < cb_failure_threshold cb) \<and>
    (ec_state e \<noteq> Closed \<longrightarrow> ec_last_failure e \<noteq> None) \<and>
    (ec_state e = HalfOpen \<longrightarrow> 1 \<le> ec_half_open_calls e \<and>
       ec_half_open_calls e \<le> max 1 (cb_half_open_max_calls cb))"
proof -
  have "entry_inv cb e"
    using circuit_reachable_inv [OF assms(1)] assms(2) by (simp add: circuit_inv_def)
  then show ?thesis
    by (auto simp: entry_inv_def le_max_iff_disj split: circuit_state.splits)
qed

theorem circuit_invariant_witness:
  "circuit_reachable (fst (circuit_act (circuit_new 2 1 1) ''a'' (Failure 9))) \<and>
   ec_failures (circuit_entry (fst (circuit_act (circuit_new 2 1 1) ''a'' (Failure 9))) ''a'') = 1 \<and>
   (1 = (0 :: u32) \<or> 1 < (2 :: u32))"
proof -
  let ?cb = "fst (circuit_act (circuit_new 2 1 1) ''a'' (Failure 9))"
  let ?e = "endpoint_circuit_default\<lparr>ec_failures := 1, ec_last_failure := Some 9\<rparr>"
  have r: "circuit_reachable ?cb" by (rule circuit_reachable.act [OF circuit_reachable.start])
  have e: "cb_state ?cb ''a'' = Some ?e"
    by (simp add: record_failure_def failure_entry_def circuit_entry_def entry_or_def circuit_new_def
        endpoint_circuit_default_def Let_def word_le_nat_alt)
  from circuit_invariant [OF r e] r e show ?thesis
    by (simp add: circuit_entry_def entry_or_def endpoint_circuit_default_def
        record_failure_def circuit_new_def)
qed

text \<open>
  C27. The breaker trips after exactly the configured number of consecutive failures. A success on a
  circuit that is not open starts the count afresh, and the failures that follow it open the
  circuit if and only if there are at least \<open>failure_threshold\<close> of them (and at least one).
\<close>

theorem circuit_trips_exactly:
  assumes "circuit_reachable cb" and "circuit_get_state cb ep \<noteq> Open"
  shows "circuit_get_state
      (fst (run_keyed circuit_act cb ((ep, Success) # map (\<lambda>t. (ep, Failure t)) ts))) ep
    = (if ts \<noteq> [] \<and> unat (cb_failure_threshold cb) \<le> length ts then Open else Closed)"
proof -
  have "fst (spec_step (abs_config cb) (abs_circuit cb ep) Success) = AClosed 0"
    using assms(2)
    by (cases "abs_circuit cb ep") (auto simp: get_state_abs abs_config_def)
  then show ?thesis
    using breaker_simulation(1) [OF circuit_reachable_inv [OF assms(1)]]
    by (simp add: get_state_abs split_beta Let_def spec_closed_failures abs_config_def
        del: run_keyed.simps)
qed

theorem circuit_trips_exactly_witness:
  "circuit_get_state (fst (run_keyed circuit_act (circuit_new 2 1 1)
     [(''a'', Success), (''a'', Failure 3), (''a'', Failure 4)])) ''a'' = Open"
  using circuit_trips_exactly [OF circuit_reachable.start [of 2 1 1], of "''a''" "[3, 4]"]
  by (simp add: circuit_get_state_def circuit_new_def)

text \<open>
  C26. An open circuit admits nothing before its recovery timeout has passed: whatever mix of
  requests and late success reports arrives before \<open>last_failure + recovery_timeout\<close>, the circuit
  stays open and no request for the endpoint is let through.
\<close>

theorem circuit_open_blocks:
  assumes "circuit_reachable cb" and "circuit_get_state cb ep = Open"
    and "ec_last_failure (circuit_entry cb ep) = Some t"
    and "\<forall>ev \<in> set (for_key ep evs). early t (cb_recovery_timeout cb) ev"
  shows "circuit_get_state (fst (run_keyed circuit_act cb evs)) ep = Open \<and>
    Some True \<notin> set (for_key ep (snd (run_keyed circuit_act cb evs)))"
proof -
  have "abs_circuit cb ep = AOpen t"
    using abs_circuit_open [OF circuit_reachable_inv [OF assms(1)] assms(2)] assms(3) by simp
  then show ?thesis
    using breaker_simulation [OF circuit_reachable_inv [OF assms(1)], where ep = ep and evs = evs]
      spec_open_early [OF assms(4)]
    by (simp add: get_state_abs abs_config_def)
qed

theorem circuit_open_blocks_witness:
  "let cb = fst (circuit_act (circuit_new 1 1 1) ''a'' (Failure 9)) in
   circuit_get_state cb ''a'' = Open \<and>
   Some True \<notin> set (for_key ''a'' (snd (run_keyed circuit_act cb [(''a'', Allow 10), (''a'', Success)])))"
proof -
  let ?cb = "fst (circuit_act (circuit_new 1 1 1) ''a'' (Failure 9))"
  have "circuit_reachable ?cb" by (rule circuit_reachable.act [OF circuit_reachable.start])
  moreover have "circuit_get_state ?cb ''a'' = Open"
    and "ec_last_failure (circuit_entry ?cb ''a'') = Some 9"
    and "cb_recovery_timeout ?cb = nanos_per_sec"
    by (simp_all add: record_failure_def failure_entry_def circuit_entry_def entry_or_def
        circuit_new_def endpoint_circuit_default_def circuit_get_state_def)
  ultimately show ?thesis
    using circuit_open_blocks [of ?cb "''a''" 9 "[(''a'', Allow 10), (''a'', Success)]"]
    by (simp add: nanos_per_sec_def del: run_keyed.simps circuit_act.simps)
qed

text \<open>
  C21. The half-open budget, exactly. A half-open circuit that hears no outcome admits the requests
  that arrive until \<open>half_open_max_calls\<close> have been admitted since it became half-open, and refuses
  every later one, at whatever time it comes: time alone never reopens the budget. A caller that
  takes a slot and reports no outcome therefore keeps it for ever.
\<close>

theorem circuit_half_open_budget:
  assumes "circuit_reachable cb" and "circuit_get_state cb ep = HalfOpen"
  defines "left \<equiv> unat (cb_half_open_max_calls cb) - unat (ec_half_open_calls (circuit_entry cb ep))"
  shows "for_key ep (snd (run_keyed circuit_act cb (map (\<lambda>t. (ep, Allow t)) ts)))
      = map Some (replicate (min (length ts) left) True @ replicate (length ts - left) False) \<and>
    circuit_get_state (fst (run_keyed circuit_act cb (map (\<lambda>t. (ep, Allow t)) ts))) ep = HalfOpen"
  using breaker_simulation [OF circuit_reachable_inv [OF assms(1)], where ep = ep]
    abs_circuit_half [OF assms(2)]
  by (simp add: abs_config_def spec_half_allows left_def get_state_abs)

theorem circuit_half_open_budget_witness:
  "let cb = fst (run_keyed circuit_act (circuit_new 1 0 2) [(''a'', Failure 9), (''a'', Allow 9)]) in
   circuit_get_state cb ''a'' = HalfOpen \<and>
   for_key ''a'' (snd (run_keyed circuit_act cb [(''a'', Allow 10), (''a'', Allow 11), (''a'', Allow (10 ^ 20))]))
     = [Some True, Some False, Some False]"
proof -
  let ?cb = "fst (run_keyed circuit_act (circuit_new 1 0 2) [(''a'', Failure 9), (''a'', Allow 9)])"
  have "circuit_reachable ?cb" by (rule circuit_reachable_run [OF circuit_reachable.start])
  moreover have "circuit_get_state ?cb ''a'' = HalfOpen"
    and "ec_half_open_calls (circuit_entry ?cb ''a'') = 1" and "cb_half_open_max_calls ?cb = 2"
    by (simp_all add: record_failure_def failure_entry_def circuit_entry_def entry_or_def
        circuit_new_def endpoint_circuit_default_def circuit_get_state_def circuit_allow_def
        allow_entry_def)
  ultimately have "for_key ''a'' (snd (run_keyed circuit_act ?cb
      (map (\<lambda>t. (''a'', Allow t)) [10, 11, 10 ^ 20])))
    = map Some [True, False, False]"
    using circuit_half_open_budget [of ?cb "''a''" "[10, 11, 10 ^ 20]"]
    by (simp del: run_keyed.simps circuit_act.simps list.map)
  then show ?thesis
    using \<open>circuit_get_state ?cb ''a'' = HalfOpen\<close>
    by (simp add: Let_def del: run_keyed.simps circuit_act.simps)
qed

end
