(* ===== verification/Endpoints.thy ===== *)
theory Endpoints
  imports Config
begin

text \<open>
  AI endpoints and their health: \<open>src/ai/endpoints.rs\<close> and the probe engine of \<open>src/ai/probe.rs\<close>.
  The answer of an endpoint to a health request is a parameter, with the moment it arrived; the map of
  endpoints is shared with the routers, the discovery engines and the proxy.
\<close>

section \<open>Endpoints\<close>

datatype endpoint_type = RouterType | InferenceType | MemoryType | AgentType | ApiType

fun show_endpoint_type :: "endpoint_type \<Rightarrow> string" where
  "show_endpoint_type RouterType = ''router''"
| "show_endpoint_type InferenceType = ''inference''"
| "show_endpoint_type MemoryType = ''memory''"
| "show_endpoint_type AgentType = ''agent''"
| "show_endpoint_type ApiType = ''api''"

definition parse_endpoint_type :: "string \<Rightarrow> endpoint_type result" where
  "parse_endpoint_type s =
     (if s = ''router'' then Inr RouterType
      else if s = ''inference'' then Inr InferenceType
      else if s = ''memory'' then Inr MemoryType
      else if s = ''agent'' then Inr AgentType
      else if s = ''api'' then Inr ApiType
      else Inl (''unknown endpoint type: '' @ s))"

datatype health_status = Healthy | Degraded | Offline

record endpoint_health =
  eh_status :: health_status
  eh_last_checked :: datetime
  eh_offline_since :: "datetime option"
  eh_consecutive_failures :: u32
  eh_probe_latency_ms :: u64
  eh_last_error :: "string option"

record ai_endpoint =
  ep_id :: string
  ep_name :: string
  ep_url :: string
  ep_endpoint_type :: endpoint_type
  ep_weight :: real
  ep_tags :: "string list"
  ep_headers :: "string \<rightharpoonup> string"
  ep_health :: endpoint_health

type_synonym endpoints = "(string, ai_endpoint) dashmap"

definition health_default :: "datetime \<Rightarrow> endpoint_health" where
  "health_default now =
     \<lparr>eh_status = Healthy, eh_last_checked = now, eh_offline_since = None,
      eh_consecutive_failures = 0, eh_probe_latency_ms = 0, eh_last_error = None\<rparr>"

definition endpoint_from_config :: "uuid \<Rightarrow> datetime \<Rightarrow> endpoint_config \<Rightarrow> ai_endpoint result" where
  "endpoint_from_config new_id now cfg =
     (case parse_endpoint_type (epc_endpoint_type cfg) of
        Inl e \<Rightarrow> Inl e
      | Inr endpoint_type \<Rightarrow> Inr
          \<lparr>ep_id = epc_name cfg @ ''-'' @ show_uuid new_id, ep_name = epc_name cfg, ep_url = epc_url cfg,
           ep_endpoint_type = endpoint_type, ep_weight = epc_weight cfg, ep_tags = epc_tags cfg,
           ep_headers = epc_headers cfg, ep_health = health_default now\<rparr>)"

text \<open>The daemon registers the configured endpoints and skips those it cannot read.\<close>

fun register_endpoints :: "endpoints \<Rightarrow> (uuid \<times> datetime \<times> endpoint_config) list \<Rightarrow> endpoints" where
  "register_endpoints eps [] = eps"
| "register_endpoints eps ((new_id, now, cfg) # cfgs) =
     (case endpoint_from_config new_id now cfg of
        Inr ep \<Rightarrow> register_endpoints (eps(ep_id ep \<mapsto> ep)) cfgs
      | Inl e \<Rightarrow> register_endpoints eps cfgs)"

section \<open>Probes\<close>

text \<open>The result of a request: a status code with its text, or the error of the HTTP client.\<close>

datatype http_result = HttpOk u16 string | HttpErr string

fun is_success :: "http_result \<Rightarrow> bool" where
  "is_success (HttpOk code txt) = (200 \<le> code \<and> code < 300)"
| "is_success (HttpErr e) = False"

record probe_reply =
  rp_latency_ms :: u64
  rp_now :: datetime
  rp_result :: http_result

definition health_url :: "string \<Rightarrow> string" where
  "health_url url = trim_end_slashes url @ ''/health''"

definition failed_health :: "datetime \<Rightarrow> string \<Rightarrow> endpoint_health \<Rightarrow> endpoint_health" where
  "failed_health now err h =
     (let h1 = h\<lparr>eh_consecutive_failures := eh_consecutive_failures h + 1\<rparr>;
          h2 = (if eh_consecutive_failures h1 \<ge> 3
                then (let h' = (if eh_status h1 \<noteq> Offline then h1\<lparr>eh_offline_since := Some now\<rparr> else h1)
                      in h'\<lparr>eh_status := Offline\<rparr>)
                else h1\<lparr>eh_status := Degraded\<rparr>)
      in h2\<lparr>eh_last_error := Some err\<rparr>)"

definition update_health :: "endpoint_health \<Rightarrow> probe_reply \<Rightarrow> endpoint_health" where
  "update_health h0 reply =
     (let now = rp_now reply;
          h = h0\<lparr>eh_last_checked := now, eh_probe_latency_ms := rp_latency_ms reply\<rparr>
      in case rp_result reply of
           HttpOk code txt \<Rightarrow>
             if 200 \<le> code \<and> code < 300
             then h\<lparr>eh_consecutive_failures := 0, eh_status := Healthy, eh_offline_since := None,
                    eh_last_error := None\<rparr>
             else failed_health now (''HTTP '' @ txt) h
         | HttpErr e \<Rightarrow> failed_health now e h)"

text \<open>One turn of the loop, after the reply: the entry may have been removed meanwhile.\<close>

definition probe_one :: "endpoints \<Rightarrow> string \<Rightarrow> probe_reply \<Rightarrow> endpoints" where
  "probe_one eps i reply =
     (case eps i of
        None \<Rightarrow> eps
      | Some ep \<Rightarrow> eps(i \<mapsto> ep\<lparr>ep_health := update_health (ep_health ep) reply\<rparr>))"

fun probe_targets :: "(string \<Rightarrow> probe_reply) \<Rightarrow> (string \<times> string) list \<Rightarrow> endpoints \<Rightarrow> endpoints" where
  "probe_targets get [] eps = eps"
| "probe_targets get ((i, url) # targets) eps =
     probe_targets get targets (probe_one eps i (get (health_url url)))"

definition probe_all :: "string list \<Rightarrow> (string \<Rightarrow> probe_reply) \<Rightarrow> endpoints \<Rightarrow> endpoints" where
  "probe_all ks get eps = probe_targets get (collect ks (\<lambda>i ep. (i, ep_url ep)) eps) eps"

definition long_offline :: "int \<Rightarrow> datetime \<Rightarrow> ai_endpoint \<Rightarrow> bool" where
  "long_offline max_offline_secs now ep \<longleftrightarrow>
     eh_status (ep_health ep) = Offline \<and>
     num_seconds (now - or_default (eh_offline_since (ep_health ep)) (eh_last_checked (ep_health ep)))
       > max_offline_secs"

definition prune_offline :: "string list \<Rightarrow> int \<Rightarrow> datetime \<Rightarrow> endpoints \<Rightarrow> endpoints \<times> nat" where
  "prune_offline ks max_offline_secs now eps =
     (let to_remove = filter_keys ks (\<lambda>_ ep. long_offline max_offline_secs now ep) eps
      in (remove_keys to_remove eps, length to_remove))"

section \<open>The state machine of an endpoint's health\<close>

text \<open>Probes of one endpoint, in order.\<close>

definition probe_health :: "endpoint_health \<Rightarrow> probe_reply list \<Rightarrow> endpoint_health" where
  "probe_health h replies = foldl update_health h replies"

text \<open>The failures at the end of a list of replies, in order.\<close>

definition trailing_failures :: "probe_reply list \<Rightarrow> probe_reply list" where
  "trailing_failures rs = rev (takeWhile (\<lambda>r. \<not> is_success (rp_result r)) (rev rs))"

fun error_text :: "http_result \<Rightarrow> string" where
  "error_text (HttpOk code txt) = ''HTTP '' @ txt"
| "error_text (HttpErr e) = e"

lemma update_health_cases:
  "update_health h r =
     (let h' = h\<lparr>eh_last_checked := rp_now r, eh_probe_latency_ms := rp_latency_ms r\<rparr>
      in if is_success (rp_result r)
         then h'\<lparr>eh_consecutive_failures := 0, eh_status := Healthy, eh_offline_since := None,
                 eh_last_error := None\<rparr>
         else failed_health (rp_now r) (error_text (rp_result r)) h')"
  by (cases "rp_result r") (simp_all add: update_health_def Let_def)

text \<open>The health that a run of failures, after the last success, stands for.\<close>

definition health_after :: "probe_reply list \<Rightarrow> endpoint_health \<Rightarrow> bool" where
  "health_after fs h \<longleftrightarrow>
     eh_consecutive_failures h = of_nat (length fs) \<and>
     eh_status h = (if fs = [] then Healthy else if length fs < 3 then Degraded else Offline) \<and>
     eh_offline_since h = (if length fs < 3 then None else Some (rp_now (fs ! 2))) \<and>
     eh_last_error h = (if fs = [] then None else Some (error_text (rp_result (last fs))))"

lemma health_after_success:
  "is_success (rp_result r) \<Longrightarrow> health_after [] (update_health h r)"
  by (simp add: health_after_def update_health_cases Let_def)

lemma health_after_failure:
  assumes "health_after fs h" and "\<not> is_success (rp_result r)" and "length fs + 1 < 2 ^ 32"
  shows "health_after (fs @ [r]) (update_health h r)"
proof -
  have n: "eh_consecutive_failures h + 1 = of_nat (length fs + 1)"
    using assms(1) by (simp add: health_after_def)
  have "unat (of_nat (length fs + 1) :: u32) = length fs + 1"
    using assms(3) by (rule unat_of_nat_u32)
  then have ge3: "(3 :: u32) \<le> of_nat (length fs + 1) \<longleftrightarrow> 2 \<le> length fs"
    by (simp add: word_le_nat_alt del: of_nat_Suc of_nat_add)
  consider "length fs = 0" | "length fs = 1" | "length fs = 2" | "3 \<le> length fs" by linarith
  then show ?thesis
    using assms(1,2) n ge3
    by cases (auto simp: health_after_def update_health_cases failed_health_def Let_def nth_append
        simp del: of_nat_Suc of_nat_add)
qed

lemma trailing_failures_snoc:
  "trailing_failures (rs @ [r]) = (if is_success (rp_result r) then [] else trailing_failures rs @ [r])"
  by (simp add: trailing_failures_def)

lemma trailing_failures_length: "length (trailing_failures rs) \<le> length rs"
  by (simp add: trailing_failures_def) (metis length_rev length_takeWhile_le)

lemma probe_health_after:
  "length rs < 2 ^ 32 \<Longrightarrow> health_after (trailing_failures rs) (probe_health (health_default t) rs)"
proof (induction rs rule: rev_induct)
  case Nil
  then show ?case by (simp add: trailing_failures_def probe_health_def health_default_def health_after_def)
next
  case (snoc r rs)
  have "length (trailing_failures rs) + 1 < 2 ^ 32"
    using trailing_failures_length [of rs] snoc.prems by simp
  with snoc show ?case
    by (simp add: trailing_failures_snoc probe_health_def health_after_success health_after_failure)
qed

section \<open>Probing and pruning the map\<close>

lemma probe_targets_apply:
  "distinct ks \<Longrightarrow> set ks \<subseteq> dom eps0 \<Longrightarrow>
     probe_targets get (collect ks (\<lambda>i ep. (i, ep_url ep)) eps0) eps k =
       (if k \<in> set ks
        then map_option (\<lambda>ep. ep\<lparr>ep_health :=
               update_health (ep_health ep) (get (health_url (ep_url (the (eps0 k)))))\<rparr>) (eps k)
        else eps k)"
  by (induction ks arbitrary: eps) (auto simp: probe_one_def split: option.splits)

lemma probe_all_apply:
  "iterates ks eps \<Longrightarrow> probe_all ks get eps k =
     map_option (\<lambda>ep. ep\<lparr>ep_health := update_health (ep_health ep) (get (health_url (ep_url ep)))\<rparr>) (eps k)"
  by (cases "eps k") (auto simp: probe_all_def probe_targets_apply iterates_def dom_def)

lemma probe_all_iterates: "iterates ks eps \<Longrightarrow> iterates ks (probe_all ks get eps)"
  by (auto simp: iterates_def probe_all_apply [unfolded iterates_def] dom_def)

text \<open>Several rounds of the probe task; round \<open>n\<close> gets the answers \<open>gets ! n\<close>.\<close>

definition probe_rounds :: "string list \<Rightarrow> (string \<Rightarrow> probe_reply) list \<Rightarrow> endpoints \<Rightarrow> endpoints" where
  "probe_rounds ks gets eps = foldl (\<lambda>eps get. probe_all ks get eps) eps gets"

lemma probe_rounds_apply:
  assumes "iterates ks eps" and "eps k = Some ep"
  shows "probe_rounds ks gets eps k =
    Some (ep\<lparr>ep_health := probe_health (ep_health ep) (map (\<lambda>get. get (health_url (ep_url ep))) gets)\<rparr>)"
  using assms
proof (induction gets arbitrary: eps ep)
  case (Cons get gets)
  let ?ep = "ep\<lparr>ep_health := update_health (ep_health ep) (get (health_url (ep_url ep)))\<rparr>"
  have "probe_all ks get eps k = Some ?ep" using Cons.prems by (simp add: probe_all_apply)
  from Cons.IH [OF probe_all_iterates [OF Cons.prems(1)] this] show ?case
    by (simp add: probe_rounds_def probe_health_def)
qed (simp add: probe_rounds_def probe_health_def)

definition offline_sweep :: "int \<Rightarrow> datetime \<Rightarrow> endpoints \<Rightarrow> endpoints" where
  "offline_sweep mx now eps = retain (\<lambda>_ ep. \<not> long_offline mx now ep) eps"

lemma long_offline_mono: "now \<le> now' \<Longrightarrow> long_offline mx now ep \<Longrightarrow> long_offline mx now' ep"
  unfolding long_offline_def
  by (meson diff_right_mono num_seconds_mono order_less_le_trans)

interpretation offline: swept_map "offline_sweep mx" "\<lambda>eps. eps" "long_offline mx" for mx
  by unfold_locales (auto simp: offline_sweep_def long_offline_mono)

lemma prune_offline_sweep:
  "iterates ks eps \<Longrightarrow> fst (prune_offline ks mx now eps) = offline_sweep mx now eps"
  by (simp add: prune_offline_def Let_def remove_filtered_keys offline_sweep_def)

lemma probe_rounds_iterates: "iterates ks eps \<Longrightarrow> iterates ks (probe_rounds ks gets eps)"
  by (induction gets arbitrary: eps) (simp_all add: probe_rounds_def probe_all_iterates)

section \<open>Properties\<close>

text \<open>
  Reading the name of an endpoint type is the inverse of printing it, and accepts nothing else.
\<close>

theorem endpoint_type_roundtrip:
  "parse_endpoint_type s = Inr ty \<longleftrightarrow> s = show_endpoint_type ty"
  by (cases ty) (auto simp: parse_endpoint_type_def)

text \<open>
  C38. The health of an endpoint after any number of probe rounds (below \<open>2^32\<close>) is a function of the
  failures since its last successful probe: none, it is healthy; one or two, degraded; three or more,
  offline since the third of them. A success wipes the slate clean, and the last error is that of the
  last failure.
\<close>

theorem probe_rounds_health:
  assumes "iterates ks eps" and "eps k = Some ep" and "ep_health ep = health_default t"
    and "length gets < 2 ^ 32"
    and "fs = trailing_failures (map (\<lambda>get. get (health_url (ep_url ep))) gets)"
  shows "\<exists>h. probe_rounds ks gets eps k = Some (ep\<lparr>ep_health := h\<rparr>) \<and>
    eh_consecutive_failures h = of_nat (length fs) \<and>
    eh_status h = (if fs = [] then Healthy else if length fs < 3 then Degraded else Offline) \<and>
    eh_offline_since h = (if length fs < 3 then None else Some (rp_now (fs ! 2))) \<and>
    eh_last_error h = (if fs = [] then None else Some (error_text (rp_result (last fs))))"
  using probe_rounds_apply [OF assms(1,2), of gets] assms(3,4)
    probe_health_after [of "map (\<lambda>get. get (health_url (ep_url ep))) gets" t]
  by (auto simp: health_after_def assms(5))

definition sample_endpoint :: "string \<Rightarrow> ai_endpoint" where
  "sample_endpoint i =
     \<lparr>ep_id = i, ep_name = i, ep_url = ''http://h/'', ep_endpoint_type = ApiType, ep_weight = 1,
      ep_tags = [], ep_headers = Map.empty, ep_health = health_default 0\<rparr>"

definition refused :: "datetime \<Rightarrow> probe_reply" where
  "refused now = \<lparr>rp_latency_ms = 1, rp_now = now, rp_result = HttpErr ''refused''\<rparr>"

theorem probe_rounds_health_witness:
  "\<exists>h. probe_rounds [''e''] [\<lambda>_. refused 10, \<lambda>_. refused 20, \<lambda>_. refused 30, \<lambda>_. refused 40]
      [''e'' \<mapsto> sample_endpoint ''e''] ''e'' = Some (sample_endpoint ''e''\<lparr>ep_health := h\<rparr>) \<and>
    eh_status h = Offline \<and> eh_offline_since h = Some 30"
proof -
  have "iterates [''e''] [''e'' \<mapsto> sample_endpoint ''e'']" by (simp add: iterates_def)
  from probe_rounds_health [OF this, where k = "''e''" and ep = "sample_endpoint ''e''" and t = 0 and
      gets = "[\<lambda>_. refused 10, \<lambda>_. refused 20, \<lambda>_. refused 30, \<lambda>_. refused 40]", OF _ _ _ refl]
  show ?thesis by (fastforce simp: sample_endpoint_def trailing_failures_def refused_def)
qed

text \<open>
  Probing and pruning together: in whatever order the two tasks visit the map, a pruning after any
  rounds of probes removes an endpoint exactly when its last three or more probes failed and the third
  of those failures is more than the limit ago.
\<close>

theorem prune_offline_exact:
  assumes "iterates ks eps" and "eps k = Some ep" and "ep_health ep = health_default t"
    and "length gets < 2 ^ 32" and "iterates ks' (probe_rounds ks gets eps)"
    and "fs = trailing_failures (map (\<lambda>get. get (health_url (ep_url ep))) gets)"
  shows "fst (prune_offline ks' mx now (probe_rounds ks gets eps)) k = None \<longleftrightarrow>
    3 \<le> length fs \<and> num_seconds (now - rp_now (fs ! 2)) > mx"
proof -
  have "health_after fs (probe_health (ep_health ep) (map (\<lambda>get. get (health_url (ep_url ep))) gets))"
    unfolding assms(3,6) using assms(4) by (intro probe_health_after) simp
  then have "long_offline mx now (ep\<lparr>ep_health :=
        probe_health (ep_health ep) (map (\<lambda>get. get (health_url (ep_url ep))) gets)\<rparr>) \<longleftrightarrow>
      3 \<le> length fs \<and> num_seconds (now - rp_now (fs ! 2)) > mx"
    by (auto simp: long_offline_def health_after_def)
  then show ?thesis
    by (simp add: prune_offline_sweep [OF assms(5)] offline_sweep_def retain_none_iff
        probe_rounds_apply [OF assms(1,2)])
qed

theorem prune_offline_exact_witness:
  "fst (prune_offline [''e''] 600 (700 * 1000000000) (probe_rounds [''e'']
      [\<lambda>_. refused 10, \<lambda>_. refused 20, \<lambda>_. refused 30] [''e'' \<mapsto> sample_endpoint ''e''])) ''e'' = None"
proof -
  have i: "iterates [''e''] [''e'' \<mapsto> sample_endpoint ''e'']" by (simp add: iterates_def)
  from prune_offline_exact [OF i, where k = "''e''" and ep = "sample_endpoint ''e''" and t = 0 and
      gets = "[\<lambda>_. refused 10, \<lambda>_. refused 20, \<lambda>_. refused 30]", OF _ _ _ probe_rounds_iterates [OF i] refl]
  show ?thesis
    by (simp add: sample_endpoint_def trailing_failures_def refused_def num_seconds_def)
qed

end
