(* ===== verification/Proxy.thy ===== *)
theory Proxy
  imports Circuit QRouter Endpoints "HOL-Library.AList"
begin

text \<open>
  The OpenAI-compatible proxy of \<open>src/proxy.rs\<close>: choosing an endpoint for a chat completion, forwarding
  it, and reporting the outcome to the quantum router and the circuit breaker; the stream wrapper that
  reports the outcome of a streamed answer; the list of models. The HTTP client and the serialisation
  of requests are parameters: what a POST of the body to a URL gives back.
\<close>

section \<open>Requests and state\<close>

record chat_message =
  cm_role :: string
  cm_content :: string
  cm_name :: "string option"

record chat_request =
  cr_model :: string
  cr_messages :: "chat_message list"
  cr_stream :: bool
  cr_temperature :: "real option"
  cr_max_tokens :: "u32 option"
  cr_tools :: "json list option"
  cr_extra :: json

record proxy_state =
  px_endpoints :: endpoints
  px_quantum :: "quantum_router option"
  px_default_model :: string
  px_model_aliases :: "string \<rightharpoonup> string"
  px_circuit :: "circuit_breaker option"

text \<open>The answer to a POST: no answer at all, or a status with a body that decodes as JSON or not.\<close>

datatype upstream = UpstreamError string | UpstreamReply u16 "json result"

text \<open>What one request reads from outside. \<open>pe_ks\<close> and \<open>pe_states\<close> are the orders in which the endpoint
  map and the conversation's states are iterated, \<open>pe_elapsed\<close> is the measured latency.\<close>

record proxy_env =
  pe_ks :: "string list"
  pe_states :: "string list"
  pe_instant :: instant
  pe_now :: datetime
  pe_rng :: rng
  pe_msg_id :: uuid
  pe_conversation :: uuid
  pe_elapsed :: u64
  pe_to_value :: "chat_request \<Rightarrow> json option"
  pe_to_string :: "chat_request \<Rightarrow> string option"
  pe_post :: "string \<Rightarrow> (string \<rightharpoonup> string) \<Rightarrow> string \<Rightarrow> upstream"

section \<open>Choosing an endpoint\<close>

definition resolve_model :: "proxy_state \<Rightarrow> string \<Rightarrow> string" where
  "resolve_model st model =
     (if model = '''' then px_default_model st
      else case px_model_aliases st model of Some aliased \<Rightarrow> aliased | None \<Rightarrow> model)"

definition proxy_message :: "proxy_env \<Rightarrow> chat_request \<Rightarrow> message" where
  "proxy_message env req =
     with_data (message_new (pe_msg_id env) (pe_conversation env) (pe_now env) ''proxy'' ''/ai/inference''
       ''llm_request'') (pe_to_value env req)"

text \<open>The filter over the endpoints; the breaker is asked about every endpoint that is not offline.\<close>

fun proxy_candidates ::
    "instant \<Rightarrow> endpoints \<Rightarrow> string list \<Rightarrow> circuit_breaker option \<Rightarrow> circuit_breaker option \<times> string list" where
  "proxy_candidates now eps [] cb = (cb, [])"
| "proxy_candidates now eps (k # ks) cb =
     (case eps k of
        None \<Rightarrow> proxy_candidates now eps ks cb
      | Some e \<Rightarrow>
          if eh_status (ep_health e) \<noteq> Offline
          then (let (cb1, ok) = (case cb of
                      Some c \<Rightarrow> (let (c', ok) = circuit_allow c now (ep_id e) in (Some c', ok))
                    | None \<Rightarrow> (None, True));
                    (cb2, ids) = proxy_candidates now eps ks cb1
                in (cb2, if ok then ep_id e # ids else ids))
          else proxy_candidates now eps ks cb)"

definition proxy_select ::
    "proxy_env \<Rightarrow> quantum_router option \<Rightarrow> message \<Rightarrow> string list \<Rightarrow> quantum_router option \<times> string option" where
  "proxy_select env quantum msg candidates =
     (case quantum of
        Some q \<Rightarrow>
          (let (q', selected) = quantum_route (pe_rng env) q (pe_now env) msg candidates in (Some q', selected))
      | None \<Rightarrow> (None, case candidates of [] \<Rightarrow> None | c # _ \<Rightarrow> Some c))"

section \<open>Forwarding\<close>

definition observe_outcome ::
    "proxy_env \<Rightarrow> message \<Rightarrow> string \<Rightarrow> bool \<Rightarrow> quantum_router option \<Rightarrow> quantum_router option" where
  "observe_outcome env msg endpoint_id success quantum =
     map_option (\<lambda>q. fst (quantum_observe (pe_states env) q (pe_now env) (m_conversation_id msg) endpoint_id
       success (pe_elapsed env))) quantum"

definition record_outcome ::
    "instant \<Rightarrow> string \<Rightarrow> bool \<Rightarrow> circuit_breaker option \<Rightarrow> circuit_breaker option" where
  "record_outcome now endpoint_id success circuit =
     map_option (\<lambda>c. if success then record_success c endpoint_id else record_failure c now endpoint_id) circuit"

definition status_success :: "u16 \<Rightarrow> bool" where
  "status_success code \<longleftrightarrow> 200 \<le> code \<and> code < 300"

text \<open>The wrapper around a streamed answer.\<close>

record observing_stream =
  os_conversation :: uuid
  os_endpoint :: string
  os_observed :: bool
  os_success :: bool

datatype proxy_answer =
    AnswerJson u16 json
  | AnswerStream u16 observing_stream

definition inject_metadata :: "ai_endpoint \<Rightarrow> string \<Rightarrow> u64 \<Rightarrow> json \<Rightarrow> json" where
  "inject_metadata endpoint endpoint_id latency j =
     (case j of
        JObject kvs \<Rightarrow>
          JObject (AList.update ''xfiles_latency_ms'' (JNumber (NInt (uint latency)))
            (AList.update ''xfiles_endpoint_id'' (JString endpoint_id)
              (AList.update ''xfiles_routed_to'' (JString (ep_name endpoint)) kvs)))
      | _ \<Rightarrow> j)"

definition completions_url :: "ai_endpoint \<Rightarrow> string" where
  "completions_url endpoint = trim_end_slashes (ep_url endpoint) @ ''/v1/chat/completions''"

definition error_json :: "string \<Rightarrow> json" where
  "error_json e = JObject [(''error'', JString e)]"

text \<open>The body of an answer that has arrived.\<close>

definition buffered_answer ::
    "ai_endpoint \<Rightarrow> string \<Rightarrow> u64 \<Rightarrow> u16 \<Rightarrow> json result \<Rightarrow> proxy_answer" where
  "buffered_answer endpoint endpoint_id latency code body =
     (case body of
        Inr j \<Rightarrow>
          AnswerJson (if 100 \<le> code \<and> code < 1000 then code else 502)
            (inject_metadata endpoint endpoint_id latency j)
      | Inl e \<Rightarrow> AnswerJson 502 (error_json (''failed to decode upstream response: '' @ e)))"

text \<open>The whole handler: the new state, the URL that was contacted (if any), and the answer.\<close>

definition chat_completions ::
    "proxy_env \<Rightarrow> proxy_state \<Rightarrow> chat_request \<Rightarrow> proxy_state \<times> string option \<times> proxy_answer" where
  "chat_completions env st req0 =
     (let req = req0\<lparr>cr_model := resolve_model st (cr_model req0)\<rparr>;
          msg = proxy_message env req;
          (circuit, candidates) = proxy_candidates (pe_instant env) (px_endpoints st) (pe_ks env) (px_circuit st);
          (quantum, selected) = proxy_select env (px_quantum st) msg candidates;
          st1 = st\<lparr>px_circuit := circuit, px_quantum := quantum\<rparr>
      in case selected of
           None \<Rightarrow> (st1, None, AnswerJson 503 (error_json ''no healthy AI endpoints available''))
         | Some endpoint_id \<Rightarrow>
             (case px_endpoints st endpoint_id of
                None \<Rightarrow> (st1, None, AnswerJson 503 (error_json ''selected endpoint no longer exists''))
              | Some endpoint \<Rightarrow>
                  (case pe_post env (completions_url endpoint) (ep_headers endpoint)
                          (or_default (pe_to_string env req) '''') of
                     UpstreamError e \<Rightarrow>
                       (st1\<lparr>px_quantum := observe_outcome env msg endpoint_id False (px_quantum st1),
                            px_circuit := record_outcome (pe_instant env) endpoint_id False (px_circuit st1)\<rparr>,
                        Some (completions_url endpoint),
                        AnswerJson 502 (error_json (''upstream error: '' @ e)))
                   | UpstreamReply code body \<Rightarrow>
                       (let success = status_success code;
                            st2 = (if \<not> cr_stream req
                              then st1\<lparr>px_quantum := observe_outcome env msg endpoint_id success (px_quantum st1)\<rparr>
                              else st1);
                            st3 = st2\<lparr>px_circuit := record_outcome (pe_instant env) endpoint_id success (px_circuit st2)\<rparr>
                        in (st3, Some (completions_url endpoint),
                            if cr_stream req
                            then AnswerStream code
                              \<lparr>os_conversation = m_conversation_id msg, os_endpoint = endpoint_id,
                               os_observed = False, os_success = success\<rparr>
                            else buffered_answer endpoint endpoint_id (pe_elapsed env) code body)))))"

section \<open>The observed stream\<close>

text \<open>What polling the upstream body gives, and what each poll knows of clocks and iteration order.\<close>

datatype poll = Pending | EndOfBody | Chunk "u8 list" | ChunkError string

record poll_env =
  pp_states :: "string list"
  pp_now :: datetime
  pp_elapsed :: u64

definition observe_stream ::
    "poll_env \<Rightarrow> quantum_router option \<Rightarrow> observing_stream \<Rightarrow> bool \<Rightarrow> quantum_router option" where
  "observe_stream env quantum s success =
     map_option (\<lambda>q. fst (quantum_observe (pp_states env) q (pp_now env) (os_conversation s) (os_endpoint s)
       success (pp_elapsed env))) quantum"

definition poll_next ::
    "poll_env \<Rightarrow> quantum_router option \<Rightarrow> observing_stream \<Rightarrow> poll \<Rightarrow>
     quantum_router option \<times> observing_stream \<times> poll" where
  "poll_next env quantum s p =
     (case p of
        EndOfBody \<Rightarrow>
          if \<not> os_observed s
          then (observe_stream env quantum s (os_success s), s\<lparr>os_observed := True\<rparr>, EndOfBody)
          else (quantum, s, EndOfBody)
      | ChunkError e \<Rightarrow>
          if \<not> os_observed s
          then (observe_stream env quantum s False, s\<lparr>os_observed := True\<rparr>, ChunkError e)
          else (quantum, s, ChunkError e)
      | other \<Rightarrow> (quantum, s, other))"

fun poll_all ::
    "quantum_router option \<Rightarrow> observing_stream \<Rightarrow> (poll_env \<times> poll) list \<Rightarrow>
     quantum_router option \<times> observing_stream \<times> poll list" where
  "poll_all quantum s [] = (quantum, s, [])"
| "poll_all quantum s ((env, p) # ps) =
     (let (q1, s1, r) = poll_next env quantum s p; (q2, s2, rs) = poll_all q1 s1 ps in (q2, s2, r # rs))"

section \<open>The models\<close>

fun show_health :: "health_status \<Rightarrow> string" where
  "show_health Healthy = ''healthy''"
| "show_health Degraded = ''degraded''"
| "show_health Offline = ''offline''"

definition model_entry :: "ai_endpoint \<Rightarrow> json" where
  "model_entry ep =
     JObject [(''id'', JString (ep_name ep @ ''/'' @ ep_id ep)), (''object'', JString ''model''),
       (''owned_by'', JString (ep_name ep)), (''xfiles_url'', JString (ep_url ep)),
       (''xfiles_type'', JString (show_endpoint_type (ep_endpoint_type ep))),
       (''xfiles_health'', JString (show_health (eh_status (ep_health ep))))]"

fun list_models_from :: "string list \<Rightarrow> endpoints \<Rightarrow> json list" where
  "list_models_from [] eps = []"
| "list_models_from (k # ks) eps =
     (case eps k of
        None \<Rightarrow> list_models_from ks eps
      | Some ep \<Rightarrow>
          if eh_status (ep_health ep) = Offline then list_models_from ks eps
          else model_entry ep # list_models_from ks eps)"

definition list_models :: "string list \<Rightarrow> endpoints \<Rightarrow> json" where
  "list_models ks eps =
     JObject [(''object'', JString ''list''), (''data'', JArray (list_models_from ks eps))]"

section \<open>Choosing\<close>

definition endpoints_keyed :: "endpoints \<Rightarrow> bool" where
  "endpoints_keyed eps \<longleftrightarrow> (\<forall>k e. eps k = Some e \<longrightarrow> ep_id e = k)"

definition online :: "endpoints \<Rightarrow> string \<Rightarrow> bool" where
  "online eps k \<longleftrightarrow> (\<exists>e. eps k = Some e \<and> eh_status (ep_health e) \<noteq> Offline)"

definition admitted :: "instant \<Rightarrow> circuit_breaker option \<Rightarrow> string \<Rightarrow> bool" where
  "admitted now cb k \<longleftrightarrow> (case cb of Some c \<Rightarrow> snd (circuit_allow c now k) | None \<Rightarrow> True)"

text \<open>The breaker after it has been asked about the endpoints in \<open>K\<close>.\<close>

definition asked :: "instant \<Rightarrow> string set \<Rightarrow> circuit_breaker \<Rightarrow> circuit_breaker" where
  "asked now K c = c\<lparr>cb_state := \<lambda>k. if k \<in> K then Some (fst (allow_entry c now (circuit_entry c k)))
                                  else cb_state c k\<rparr>"

lemma allow_entry_cong:
  "cb_recovery_timeout c = cb_recovery_timeout c' \<Longrightarrow> cb_half_open_max_calls c = cb_half_open_max_calls c' \<Longrightarrow>
     allow_entry c now e = allow_entry c' now e"
  by (simp add: allow_entry_def split: circuit_state.split option.split)

lemma allow_asked:
  "k \<notin> K \<Longrightarrow> circuit_allow (asked now K c) now k = (asked now (insert k K) c, snd (circuit_allow c now k))"
  by (auto simp: circuit_allow_def split_beta Let_def asked_def circuit_entry_def entry_or_def
      allow_entry_cong [of "c\<lparr>cb_state := s\<rparr>" c for s] fun_eq_iff)

lemma proxy_candidates_asked:
  assumes "endpoints_keyed eps"
  shows "distinct ks \<Longrightarrow> set ks \<inter> K = {} \<Longrightarrow>
    proxy_candidates now eps ks (map_option (asked now K) cb) =
      (map_option (asked now (K \<union> {k \<in> set ks. online eps k})) cb,
       filter (\<lambda>k. online eps k \<and> admitted now cb k) ks)"
proof (induction ks arbitrary: K)
  case (Cons k ks)
  have eq: "K \<union> {j. (j = k \<or> j \<in> set ks) \<and> online eps j} =
      (if online eps k then insert k K else K) \<union> {j \<in> set ks. online eps j}" by auto
  show ?case
  proof (cases "online eps k")
    case True
    then obtain e where e: "eps k = Some e" "eh_status (ep_health e) \<noteq> Offline" "ep_id e = k"
      using assms by (auto simp: online_def endpoints_keyed_def)
    show ?thesis
      using Cons.IH [of "insert k K"] Cons.prems True e eq
      by (cases cb) (simp_all add: allow_asked admitted_def)
  next
    case False
    then show ?thesis using Cons.IH [of K] Cons.prems eq
      by (cases "eps k") (auto simp: online_def)
  qed
qed simp

lemma asked_none [simp]: "asked now {} c = c"
  by (simp add: asked_def)

lemma proxy_candidates_eq:
  assumes "endpoints_keyed eps" and "iterates ks eps"
  shows "proxy_candidates now eps ks cb =
    (map_option (asked now (Collect (online eps))) cb, filter (\<lambda>k. online eps k \<and> admitted now cb k) ks)"
proof -
  have "{k \<in> set ks. online eps k} = Collect (online eps)"
    using assms(2) by (auto simp: iterates_def online_def)
  then show ?thesis
    using proxy_candidates_asked [OF assms(1), of ks "{}" now cb] assms(2)
    by (cases cb) (simp_all add: iterates_def)
qed

lemma proxy_select_member:
  assumes "quantum \<noteq> None \<longrightarrow> rng_ok (pe_rng env)"
  shows "case snd (proxy_select env quantum msg cands) of None \<Rightarrow> cands = [] | Some k \<Rightarrow> k \<in> set cands"
proof (cases quantum)
  case None
  then show ?thesis by (cases cands) (auto simp: proxy_select_def)
next
  case (Some q)
  then have r: "rng_ok (pe_rng env)" using assms by simp
  show ?thesis
  proof (cases "cands = []")
    case True
    then show ?thesis using Some by (simp add: proxy_select_def quantum_route_def)
  next
    case False
    obtain ep where "sample_endpoint_from (pe_rng env) (qc_exploration_rate (qr_config q)) cands
        (snd (route_distribution q (pe_now env) msg cands)) = Some ep" and "ep \<in> set cands"
      using sample_endpoint_from_candidates [OF r False route_distribution_fst] by metis
    with quantum_route_nonempty [OF False] Some show ?thesis
      by (auto simp: proxy_select_def split_beta Let_def)
  qed
qed

text \<open>The outcome of the upstream request, and the two courses a request can take.\<close>

definition upstream_success :: "upstream \<Rightarrow> bool" where
  "upstream_success up = (case up of UpstreamReply code body \<Rightarrow> status_success code | UpstreamError e \<Rightarrow> False)"

definition chosen_request :: "proxy_state \<Rightarrow> chat_request \<Rightarrow> chat_request" where
  "chosen_request st req = req\<lparr>cr_model := resolve_model st (cr_model req)\<rparr>"

definition posted :: "proxy_env \<Rightarrow> proxy_state \<Rightarrow> chat_request \<Rightarrow> ai_endpoint \<Rightarrow> upstream" where
  "posted env st req e =
     pe_post env (completions_url e) (ep_headers e) (or_default (pe_to_string env (chosen_request st req)) '''')"

lemma chat_completions_courses:
  assumes "endpoints_keyed (px_endpoints st)" and "iterates (pe_ks env) (px_endpoints st)"
    and "px_quantum st \<noteq> None \<longrightarrow> rng_ok (pe_rng env)"
  shows
    "(\<forall>k. online (px_endpoints st) k \<longrightarrow> \<not> admitted (pe_instant env) (px_circuit st) k) \<and>
     fst (snd (chat_completions env st req)) = None \<and>
     snd (snd (chat_completions env st req)) = AnswerJson 503 (error_json ''no healthy AI endpoints available'') \<and>
     px_circuit (fst (chat_completions env st req)) =
       map_option (asked (pe_instant env) (Collect (online (px_endpoints st)))) (px_circuit st)
   \<or> (\<exists>k e. px_endpoints st k = Some e \<and> online (px_endpoints st) k \<and>
      admitted (pe_instant env) (px_circuit st) k \<and>
      fst (snd (chat_completions env st req)) = Some (completions_url e) \<and>
      px_circuit (fst (chat_completions env st req)) =
        record_outcome (pe_instant env) k (upstream_success (posted env st req e))
          (map_option (asked (pe_instant env) (Collect (online (px_endpoints st)))) (px_circuit st)))"
    (is "?none \<or> ?some")
proof -
  let ?msg = "proxy_message env (chosen_request st req)"
  let ?cands = "filter (\<lambda>k. online (px_endpoints st) k \<and> admitted (pe_instant env) (px_circuit st) k) (pe_ks env)"
  note cands = proxy_candidates_eq [OF assms(1,2), of "pe_instant env" "px_circuit st"]
  note sel = proxy_select_member [where msg = ?msg and cands = ?cands, OF assms(3)]
  show ?thesis
  proof (cases "snd (proxy_select env (px_quantum st) ?msg ?cands)")
    case None
    then have "?cands = []" using sel by simp
    then have "\<forall>k. online (px_endpoints st) k \<longrightarrow> \<not> admitted (pe_instant env) (px_circuit st) k"
      using assms(2) by (auto simp: filter_empty_conv iterates_def online_def dom_def)
    then have ?none
      using None cands by (simp add: chat_completions_def Let_def split_beta chosen_request_def)
    then show ?thesis ..
  next
    case (Some k)
    then have k: "online (px_endpoints st) k" "admitted (pe_instant env) (px_circuit st) k"
      using sel by auto
    then obtain e where e: "px_endpoints st k = Some e" by (auto simp: online_def)
    have ?some
      using Some k e cands
      by (intro exI [of _ k] exI [of _ e])
        (auto simp: chat_completions_def Let_def split_beta chosen_request_def posted_def
          upstream_success_def split: upstream.split)
    then show ?thesis ..
  qed
qed

section \<open>Properties\<close>

text \<open>
  C9. A chat completion is forwarded to at most one endpoint, one that is not offline and that the
  breaker admits; it is answered with 503 without contacting anything exactly when there is none.
\<close>

theorem proxy_contacts_admitted:
  assumes "endpoints_keyed (px_endpoints st)" and "iterates (pe_ks env) (px_endpoints st)"
    and "px_quantum st \<noteq> None \<longrightarrow> rng_ok (pe_rng env)"
    and "chat_completions env st req = (st', url, answer)"
  shows "case url of
      None \<Rightarrow> answer = AnswerJson 503 (error_json ''no healthy AI endpoints available'') \<and>
        (\<nexists>k. online (px_endpoints st) k \<and> admitted (pe_instant env) (px_circuit st) k)
    | Some u \<Rightarrow> \<exists>k e. px_endpoints st k = Some e \<and> eh_status (ep_health e) \<noteq> Offline \<and>
        admitted (pe_instant env) (px_circuit st) k \<and> u = completions_url e"
  using chat_completions_courses [OF assms(1-3), of req, unfolded assms(4) fst_conv snd_conv]
proof (elim disjE exE conjE)
  fix k e
  assume "px_endpoints st k = Some e" and "online (px_endpoints st) k"
    and "admitted (pe_instant env) (px_circuit st) k" and "url = Some (completions_url e)"
  then show ?thesis by (auto simp: online_def intro!: exI [of _ k])
qed auto

text \<open>
  What a request does to the breaker: every endpoint that is not offline is asked for admission,
  so a half-open one loses a trial call, but only the endpoint that is contacted gets an outcome
  recorded; offline endpoints are left alone.
\<close>

theorem proxy_breaker_effect:
  assumes "endpoints_keyed (px_endpoints st)" and "iterates (pe_ks env) (px_endpoints st)"
    and "px_quantum st \<noteq> None \<longrightarrow> rng_ok (pe_rng env)"
    and "px_circuit st = Some c" and "chat_completions env st req = (st', Some u, answer)"
  shows "\<exists>k e c'. px_endpoints st k = Some e \<and> u = completions_url e \<and> px_circuit st' = Some c' \<and>
    (\<forall>j. cb_state c' j =
       (if j = k
        then Some ((if upstream_success (posted env st req e) then success_entry
                    else failure_entry c (pe_instant env))
               (fst (allow_entry c (pe_instant env) (circuit_entry c j))))
        else if online (px_endpoints st) j
        then Some (fst (allow_entry c (pe_instant env) (circuit_entry c j)))
        else cb_state c j))"
proof -
  let ?now = "pe_instant env"
  let ?c1 = "asked ?now (Collect (online (px_endpoints st))) c"
  from chat_completions_courses [OF assms(1-3), of req, unfolded assms(5)]
  obtain k e where e: "px_endpoints st k = Some e" "online (px_endpoints st) k" "u = completions_url e"
    and c': "px_circuit st' = record_outcome ?now k (upstream_success (posted env st req e)) (Some ?c1)"
    using assms(4) by auto
  have entry: "circuit_entry ?c1 k = fst (allow_entry c ?now (circuit_entry c k))"
    using e(2) by (simp add: asked_def circuit_entry_def [of "_\<lparr>cb_state := _\<rparr>"] entry_or_def)
  have fe: "failure_entry ?c1 ?now x = failure_entry c ?now x" for x
    by (simp add: failure_entry_def asked_def Let_def)
  let ?c' = "if upstream_success (posted env st req e) then record_success ?c1 k else record_failure ?c1 ?now k"
  have "cb_state ?c' j =
       (if j = k
        then Some ((if upstream_success (posted env st req e) then success_entry else failure_entry c ?now)
               (fst (allow_entry c ?now (circuit_entry c j))))
        else if online (px_endpoints st) j then Some (fst (allow_entry c ?now (circuit_entry c j)))
        else cb_state c j)" for j
    using e(2) entry fe by (auto simp: record_success_def record_failure_def) (auto simp: asked_def)
  then show ?thesis using e c' by (auto simp: record_outcome_def)
qed

definition two_endpoints :: endpoints where
  "two_endpoints = [''a'' \<mapsto> sample_endpoint ''a'', ''b'' \<mapsto> sample_endpoint ''b'']"

definition sample_proxy :: "circuit_breaker option \<Rightarrow> proxy_state" where
  "sample_proxy cb =
     \<lparr>px_endpoints = two_endpoints, px_quantum = None, px_default_model = ''m'',
      px_model_aliases = Map.empty, px_circuit = cb\<rparr>"

definition sample_proxy_env :: "upstream \<Rightarrow> proxy_env" where
  "sample_proxy_env up =
     \<lparr>pe_ks = [''a'', ''b''], pe_states = [''a''], pe_instant = 0, pe_now = 0, pe_rng = first_rng, pe_msg_id = 1,
      pe_conversation = 2, pe_elapsed = 5, pe_to_value = \<lambda>_. None, pe_to_string = \<lambda>_. Some ''{}'',
      pe_post = \<lambda>_ _ _. up\<rparr>"

definition sample_chat :: chat_request where
  "sample_chat =
     \<lparr>cr_model = '''', cr_messages = [], cr_stream = False, cr_temperature = None, cr_max_tokens = None,
      cr_tools = None, cr_extra = JNull\<rparr>"

lemma sample_proxy_ok:
  "endpoints_keyed (px_endpoints (sample_proxy cb))"
  "iterates (pe_ks (sample_proxy_env up)) (px_endpoints (sample_proxy cb))"
  "px_quantum (sample_proxy cb) \<noteq> None \<longrightarrow> rng_ok (pe_rng (sample_proxy_env up))"
  by (auto simp: sample_proxy_def sample_proxy_env_def two_endpoints_def endpoints_keyed_def iterates_def
      sample_endpoint_def)

lemma sample_online: "online (px_endpoints (sample_proxy cb)) ''a''"
  by (simp add: online_def sample_proxy_def two_endpoints_def sample_endpoint_def health_default_def)

theorem proxy_contacts_admitted_witness:
  "\<exists>k e. px_endpoints (sample_proxy None) k = Some e \<and>
     fst (snd (chat_completions (sample_proxy_env (UpstreamError ''refused'')) (sample_proxy None) sample_chat))
       = Some (completions_url e)"
proof -
  let ?r = "chat_completions (sample_proxy_env (UpstreamError ''refused'')) (sample_proxy None) sample_chat"
  have "?r = (fst ?r, fst (snd ?r), snd (snd ?r))" by simp
  note p = proxy_contacts_admitted [OF sample_proxy_ok this]
  show ?thesis
  proof (cases "fst (snd ?r)")
    case None
    then have "\<not> (online (px_endpoints (sample_proxy None)) ''a'' \<and>
        admitted (pe_instant (sample_proxy_env (UpstreamError ''refused''))) (px_circuit (sample_proxy None)) ''a'')"
      using p by auto
    then show ?thesis using sample_online by (simp add: admitted_def sample_proxy_def)
  next
    case (Some u)
    then show ?thesis using p by auto
  qed
qed

lemma sample_contacted:
  "chat_completions (sample_proxy_env up) (sample_proxy (Some (circuit_new f r h))) sample_chat = (s, None, x) \<Longrightarrow> False"
proof -
  assume "chat_completions (sample_proxy_env up) (sample_proxy (Some (circuit_new f r h))) sample_chat = (s, None, x)"
  note run = this
  let ?st = "sample_proxy (Some (circuit_new f r h))" and ?env = "sample_proxy_env up"
  have ok: "endpoints_keyed (px_endpoints ?st)" "iterates (pe_ks ?env) (px_endpoints ?st)"
    "px_quantum ?st \<noteq> None \<longrightarrow> rng_ok (pe_rng ?env)"
    by (rule sample_proxy_ok)+
  from chat_completions_courses [OF ok, of sample_chat, unfolded run fst_conv snd_conv]
  have "\<not> admitted (pe_instant (sample_proxy_env up)) (px_circuit (sample_proxy (Some (circuit_new f r h)))) ''a''"
    using sample_online by simp
  then show False
    by (simp add: admitted_def sample_proxy_def circuit_new_def circuit_allow_def circuit_entry_def entry_or_def
        allow_entry_def endpoint_circuit_default_def)
qed

theorem proxy_breaker_effect_witness:
  "\<exists>c'. px_circuit (fst (chat_completions (sample_proxy_env (UpstreamError ''refused''))
       (sample_proxy (Some (circuit_new 3 60 1))) sample_chat)) = Some c' \<and> cb_state c' ''a'' \<noteq> None"
proof -
  let ?up = "UpstreamError ''refused''" and ?st = "sample_proxy (Some (circuit_new 3 60 1))"
  let ?r = "chat_completions (sample_proxy_env ?up) ?st sample_chat"
  obtain u where u: "fst (snd ?r) = Some u"
    using sample_contacted [of ?up 3 60 1 "fst ?r" "snd (snd ?r)"] by (cases "fst (snd ?r)") (auto simp: prod_eq_iff)
  have r: "?r = (fst ?r, Some u, snd (snd ?r))" by (simp flip: u)
  have c: "px_circuit ?st = Some (circuit_new 3 60 1)" by (simp add: sample_proxy_def)
  from proxy_breaker_effect [OF sample_proxy_ok c r] obtain k c'
    where "px_circuit (fst ?r) = Some c'"
      and "\<forall>j. j = k \<or> online (px_endpoints ?st) j \<longrightarrow> cb_state c' j \<noteq> None"
    by (smt (verit) option.distinct(1))
  then show ?thesis using sample_online by blast
qed

definition ends_stream :: "poll \<Rightarrow> bool" where
  "ends_stream p \<longleftrightarrow> p = EndOfBody \<or> (\<exists>e. p = ChunkError e)"

lemma poll_all_observed:
  "os_observed s \<Longrightarrow> poll_all q s ps = (q, s, map snd ps)"
  by (induction ps) (auto simp: poll_next_def split: poll.splits)

text \<open>
  C17. However often and in whatever pattern a streamed answer is polled, the caller sees exactly what
  the upstream body gave, and the quantum router is told of the outcome exactly once, at the first end
  or error, as a success only at an end of a response with a success status; a stream that is dropped
  before either is never reported.
\<close>

theorem stream_observed_once:
  assumes "\<not> os_observed s"
  shows "poll_all q s ps =
    (case find (\<lambda>x. ends_stream (snd x)) ps of
       None \<Rightarrow> (q, s, map snd ps)
     | Some (env, p) \<Rightarrow>
         (observe_stream env q s (p = EndOfBody \<and> os_success s), s\<lparr>os_observed := True\<rparr>, map snd ps))"
  using assms
proof (induction ps)
  case (Cons x ps)
  obtain env p where x: "x = (env, p)" by force
  have "poll_all q' (s\<lparr>os_observed := True\<rparr>) ps = (q', s\<lparr>os_observed := True\<rparr>, map snd ps)" for q'
    by (rule poll_all_observed) simp
  then show ?case using Cons x
    by (cases p) (auto simp: poll_next_def ends_stream_def split: option.splits)
qed simp

theorem stream_observed_once_witness:
  "snd (snd (poll_all None \<lparr>os_conversation = 1, os_endpoint = ''e'', os_observed = False, os_success = True\<rparr>
     [(\<lparr>pp_states = [], pp_now = 0, pp_elapsed = 0\<rparr>, Chunk [1]),
      (\<lparr>pp_states = [], pp_now = 0, pp_elapsed = 0\<rparr>, EndOfBody)])) = [Chunk [1], EndOfBody]"
  by (subst stream_observed_once) (simp_all add: ends_stream_def)

text \<open>
  The proxy does not learn from the outcomes it reports. Every request is a message of a fresh
  conversation, so whatever a reachable quantum router has observed, the distribution a request is
  sampled from is the uniform one.
\<close>

theorem proxy_never_learns:
  assumes "quantum_reachable cfg n q" and "qr_state q (pe_conversation env) = None" and "cands \<noteq> []"
  shows "snd (proxy_select env (Some q) (proxy_message env req) cands) =
    sample_endpoint_from (pe_rng env) (qc_exploration_rate cfg) cands
      (map (\<lambda>c. (c, 1 / real (length cands))) cands)"
proof -
  let ?msg = "proxy_message env req" and ?u = "map (\<lambda>c. (c, 1 / real (length cands))) cands"
  have cid: "m_conversation_id ?msg = pe_conversation env"
    by (simp add: proxy_message_def with_data_def message_new_def)
  have "sum_list (map snd ?u) = 1"
    using assms(3) by (simp add: comp_def sum_list_triv)
  then have norm: "renormalize ?u = ?u" by (rule renormalize_normalized)
  have base: "snd (base_distribution now (length cands) (conversation_new now c) cands) = ?u" for now c
    by (simp add: base_distribution_eq conversation_new_def)
  have "snd (route_distribution q (pe_now env) ?msg cands) = ?u"
    using assms(2) norm base quantum_reachable_entanglement [OF assms(1)]
    by (simp add: route_distribution_def Let_def split_beta get_or_create_def cid apply_entanglement_new)
  then show ?thesis
    using assms(3) quantum_reachable_config [OF assms(1)]
    by (auto simp: proxy_select_def quantum_route_def Let_def split_beta)
qed

theorem proxy_never_learns_witness:
  "snd (proxy_select (sample_proxy_env (UpstreamError '''')) (Some (fst (quantum_observe [''a'']
      (quantum_router_new quantum_config_default) 5 1 ''a'' False 100)))
    (proxy_message (sample_proxy_env (UpstreamError '''')) sample_chat) [''a'', ''b''])
   = sample_endpoint_from first_rng (qc_exploration_rate quantum_config_default) [''a'', ''b'']
       [(''a'', 1 / 2), (''b'', 1 / 2)]"
proof -
  let ?fresh = "quantum_router_new quantum_config_default"
  let ?q = "fst (quantum_observe [''a''] ?fresh 5 1 ''a'' False 100)"
  let ?env = "sample_proxy_env (UpstreamError '''')"
  have o: "endpoint_order [''a''] ?fresh 1 ''a''"
    by (simp add: endpoint_order_def quantum_router_new_def quantum_states_new_def)
  have r: "quantum_reachable quantum_config_default (Suc 0) ?q"
    by (rule quantum_reachable.step [OF quantum_reachable.start quantum_step.observe [OF o]])
  have n: "qr_state ?q (pe_conversation ?env) = None"
    by (simp add: quantum_observe_def Let_def split_beta get_or_create_def states_update_def
        quantum_router_new_def quantum_states_new_def sample_proxy_env_def)
  have c: "[''a'', ''b''] \<noteq> []" by simp
  show ?thesis
    unfolding proxy_never_learns [OF r n c] by (simp add: sample_proxy_env_def)
qed

text \<open>The list of models has one entry per endpoint that is not offline.\<close>

lemma list_models_online:
  "iterates ks eps \<Longrightarrow> set (list_models_from ks eps) =
     {model_entry ep | k ep. eps k = Some ep \<and> eh_status (ep_health ep) \<noteq> Offline}"
proof -
  assume "iterates ks eps"
  moreover have "set (list_models_from ks eps) =
     {model_entry ep | k ep. k \<in> set ks \<and> eps k = Some ep \<and> eh_status (ep_health ep) \<noteq> Offline}"
    by (induction ks) (auto split: option.splits)
  ultimately show ?thesis by (auto simp: iterates_def)
qed

end
