(* ===== verification/Event.thy ===== *)
theory Event
  imports Message
begin

text \<open>
  The structured events of \<open>src/event.rs\<close>: severities, kinds, the event and its builders. What an
  emitter with a persisting sink does with an event is in \<open>Store\<close>.
\<close>

datatype event_severity = SevDebug | SevInfo | SevWarn | SevError

datatype event_kind =
    MessageRouted | MessageDelivered | MessageFailed | EndpointHealthChanged
  | CircuitBreakerTripped | CircuitBreakerReset | AgentConnected | AgentDisconnected
  | QuantumStateUpdated | McpToolCalled | RateLimitHit | SystemStartup | SystemShutdown

text \<open>The derived \<open>Debug\<close> forms, which the store keeps.\<close>

fun show_severity :: "event_severity \<Rightarrow> string" where
  "show_severity SevDebug = ''Debug''"
| "show_severity SevInfo = ''Info''"
| "show_severity SevWarn = ''Warn''"
| "show_severity SevError = ''Error''"

fun show_kind :: "event_kind \<Rightarrow> string" where
  "show_kind MessageRouted = ''MessageRouted''"
| "show_kind MessageDelivered = ''MessageDelivered''"
| "show_kind MessageFailed = ''MessageFailed''"
| "show_kind EndpointHealthChanged = ''EndpointHealthChanged''"
| "show_kind CircuitBreakerTripped = ''CircuitBreakerTripped''"
| "show_kind CircuitBreakerReset = ''CircuitBreakerReset''"
| "show_kind AgentConnected = ''AgentConnected''"
| "show_kind AgentDisconnected = ''AgentDisconnected''"
| "show_kind QuantumStateUpdated = ''QuantumStateUpdated''"
| "show_kind McpToolCalled = ''McpToolCalled''"
| "show_kind RateLimitHit = ''RateLimitHit''"
| "show_kind SystemStartup = ''SystemStartup''"
| "show_kind SystemShutdown = ''SystemShutdown''"

record event =
  ev_id :: uuid
  ev_timestamp :: datetime
  ev_kind :: event_kind
  ev_severity :: event_severity
  ev_source :: string
  ev_message :: string
  ev_conversation_id :: "uuid option"
  ev_endpoint_id :: "string option"
  ev_agent_id :: "string option"
  ev_metadata :: "string \<rightharpoonup> json"

definition event_new :: "uuid \<Rightarrow> datetime \<Rightarrow> event_kind \<Rightarrow> string \<Rightarrow> string \<Rightarrow> event" where
  "event_new new_id now kind source txt =
     \<lparr>ev_id = new_id, ev_timestamp = now, ev_kind = kind, ev_severity = SevInfo, ev_source = source,
      ev_message = txt, ev_conversation_id = None, ev_endpoint_id = None, ev_agent_id = None,
      ev_metadata = Map.empty\<rparr>"

definition event_with_severity :: "event \<Rightarrow> event_severity \<Rightarrow> event" where
  "event_with_severity e s = e\<lparr>ev_severity := s\<rparr>"

definition event_with_conversation :: "event \<Rightarrow> uuid \<Rightarrow> event" where
  "event_with_conversation e cid = e\<lparr>ev_conversation_id := Some cid\<rparr>"

definition event_with_endpoint :: "event \<Rightarrow> string \<Rightarrow> event" where
  "event_with_endpoint e i = e\<lparr>ev_endpoint_id := Some i\<rparr>"

definition event_with_agent :: "event \<Rightarrow> string \<Rightarrow> event" where
  "event_with_agent e i = e\<lparr>ev_agent_id := Some i\<rparr>"

text \<open>\<open>value\<close> is the result of \<open>serde_json::to_value\<close>; a failure leaves the event as it is.\<close>

definition event_with_metadata :: "event \<Rightarrow> string \<Rightarrow> json option \<Rightarrow> event" where
  "event_with_metadata e key val =
     (case val of Some v \<Rightarrow> e\<lparr>ev_metadata := (ev_metadata e)(key \<mapsto> v)\<rparr> | None \<Rightarrow> e)"

lemma show_severity_inject: "show_severity s = show_severity t \<longleftrightarrow> s = t"
  by (cases s; cases t) simp_all

lemma show_kind_inject: "show_kind k = show_kind l \<Longrightarrow> k = l"
  by (cases k) (cases l, simp_all)+

lemma event_builders_keep_id [simp]:
  "ev_id (event_with_severity e s) = ev_id e"
  "ev_id (event_with_conversation e cid) = ev_id e"
  "ev_id (event_with_endpoint e i) = ev_id e"
  "ev_id (event_with_agent e i) = ev_id e"
  "ev_id (event_with_metadata e k v) = ev_id e"
  by (simp_all add: event_with_severity_def event_with_conversation_def event_with_endpoint_def
      event_with_agent_def event_with_metadata_def split: option.split)

end
