(* ===== verification/Store.thy ===== *)
theory Store
  imports Event QState "HOL-Library.List_Lexorder" "HOL-Library.Char_ord"
begin

text \<open>
  The persistence layer of \<open>src/store.rs\<close> over the tables of \<open>migrations/\<close>: each table is the list of
  its rows in insertion order, each SQL statement the function on rows it stands for. A text column
  compares byte by byte. The text forms of times, identifiers and JSON are made and read by libraries:
  the parameter \<open>codec\<close>. Failures of the connection itself are outside the model.
\<close>

section \<open>Tables\<close>

record codec =
  show_time :: "datetime \<Rightarrow> string"
  read_time :: "string \<Rightarrow> datetime result"
  read_uuid :: "string \<Rightarrow> uuid result"
  json_text :: "json \<Rightarrow> string"
  read_json :: "string \<Rightarrow> json result"
  headers_text :: "(string \<rightharpoonup> string) \<Rightarrow> string"
  read_headers :: "string \<Rightarrow> (string \<rightharpoonup> string) result"
  quantum_text :: "quantum_metadata \<Rightarrow> string"
  read_quantum :: "string \<Rightarrow> quantum_metadata result"

record message_row =
  mw_id :: string
  mw_parent_id :: "string option"
  mw_conversation_id :: string
  mw_timestamp :: string
  mw_sender :: string
  mw_sender_ns :: string
  mw_path :: string
  mw_msg_type :: string
  mw_data :: string
  mw_headers :: string
  mw_quantum :: "string option"
  mw_delivery_status :: string
  mw_delivered_at :: "string option"

record quantum_row =
  qw_conversation_id :: string
  qw_endpoint_id :: string
  qw_real_amplitude :: real
  qw_imag_amplitude :: real
  qw_pulls :: int
  qw_total_reward :: real
  qw_updated_at :: string

record feedback_row =
  fw_message_id :: string
  fw_endpoint_id :: string
  fw_success :: bool
  fw_latency_ms :: int
  fw_quality_score :: "real option"
  fw_error_kind :: "string option"
  fw_metadata :: "string option"

record attempt_row =
  aw_message_id :: string
  aw_endpoint_id :: "string option"
  aw_agent_id :: "string option"
  aw_status :: string
  aw_error :: "string option"

record history_row =
  hw_endpoint_id :: string
  hw_endpoint_name :: string
  hw_url :: string
  hw_event_type :: string
  hw_status :: "string option"
  hw_latency_ms :: "int option"

record event_row =
  vw_id :: string
  vw_timestamp :: string
  vw_kind :: string
  vw_severity :: string
  vw_source :: string
  vw_message :: string
  vw_conversation_id :: "string option"
  vw_endpoint_id :: "string option"
  vw_agent_id :: "string option"
  vw_metadata :: string

record store =
  so_messages :: "message_row list"
  so_quantum :: "quantum_row list"
  so_feedback :: "feedback_row list"
  so_attempts :: "attempt_row list"
  so_history :: "history_row list"
  so_events :: "event_row list"

definition store_new :: store where
  "store_new =
     \<lparr>so_messages = [], so_quantum = [], so_feedback = [], so_attempts = [], so_history = [], so_events = []\<rparr>"

text \<open>\<open>ORDER BY key DESC\<close>, rows with equal keys in scan order; \<open>LIMIT\<close>, where a negative limit is none.\<close>

definition order_desc :: "('a \<Rightarrow> 'k :: linorder) \<Rightarrow> 'a list \<Rightarrow> 'a list" where
  "order_desc f xs = rev (sort_key f (rev xs))"

definition sql_limit :: "int \<Rightarrow> 'a list \<Rightarrow> 'a list" where
  "sql_limit n xs = (if n < 0 then xs else take (nat n) xs)"

text \<open>\<open>collect\<close> of results: the first error, or all the values.\<close>

fun collect_results :: "'a result list \<Rightarrow> 'a list result" where
  "collect_results [] = Inr []"
| "collect_results (Inl e # rs) = Inl e"
| "collect_results (Inr x # rs) = map_sum id ((#) x) (collect_results rs)"

section \<open>Messages\<close>

definition message_row_of :: "codec \<Rightarrow> message \<Rightarrow> message_row" where
  "message_row_of cd msg =
     \<lparr>mw_id = show_uuid (m_id msg), mw_parent_id = map_option show_uuid (m_parent_id msg),
      mw_conversation_id = show_uuid (m_conversation_id msg), mw_timestamp = show_time cd (m_timestamp msg),
      mw_sender = m_sender msg, mw_sender_ns = m_sender_ns msg, mw_path = m_path msg,
      mw_msg_type = m_msg_type msg, mw_data = json_text cd (m_data msg),
      mw_headers = headers_text cd (m_headers msg), mw_quantum = map_option (quantum_text cd) (m_quantum msg),
      mw_delivery_status = ''pending'', mw_delivered_at = None\<rparr>"

text \<open>The identifier is the primary key.\<close>

definition insert_message :: "codec \<Rightarrow> store \<Rightarrow> message \<Rightarrow> store \<times> unit result" where
  "insert_message cd st msg =
     (let row = message_row_of cd msg
      in if mw_id row \<in> mw_id ` set (so_messages st)
         then (st, Inl ''UNIQUE constraint failed: messages.id'')
         else (st\<lparr>so_messages := so_messages st @ [row]\<rparr>, Inr ()))"

definition ok_of :: "'a result \<Rightarrow> 'a option" where
  "ok_of r = (case r of Inr x \<Rightarrow> Some x | Inl e \<Rightarrow> None)"

definition message_of_row :: "codec \<Rightarrow> message_row \<Rightarrow> message result" where
  "message_of_row cd row =
     (case read_uuid cd (mw_id row) of
        Inl e \<Rightarrow> Inl e
      | Inr new_id \<Rightarrow>
          (case read_uuid cd (mw_conversation_id row) of
             Inl e \<Rightarrow> Inl e
           | Inr cid \<Rightarrow>
               (case read_time cd (mw_timestamp row) of
                  Inl e \<Rightarrow> Inl e
                | Inr t \<Rightarrow>
                    Inr \<lparr>m_id = new_id,
                         m_parent_id = Option.bind (mw_parent_id row) (\<lambda>s. ok_of (read_uuid cd s)),
                         m_conversation_id = cid, m_timestamp = t, m_sender = mw_sender row,
                         m_sender_ns = mw_sender_ns row, m_path = mw_path row, m_msg_type = mw_msg_type row,
                         m_data = (case read_json cd (mw_data row) of Inr j \<Rightarrow> j | Inl e \<Rightarrow> JNull),
                         m_headers = (case read_headers cd (mw_headers row) of Inr h \<Rightarrow> h | Inl e \<Rightarrow> Map.empty),
                         m_quantum = Option.bind (mw_quantum row) (\<lambda>q. ok_of (read_quantum cd q))\<rparr>)))"

definition get_messages_by_conversation ::
    "codec \<Rightarrow> store \<Rightarrow> uuid \<Rightarrow> int \<Rightarrow> message list result" where
  "get_messages_by_conversation cd st cid limit =
     collect_results (map (message_of_row cd)
       (sql_limit limit (order_desc mw_timestamp
         (filter (\<lambda>r. mw_conversation_id r = show_uuid cid) (so_messages st)))))"

text \<open>\<open>GROUP BY\<close>: the conversations in the order of their first rows.\<close>

definition conversations_of :: "message_row list \<Rightarrow> string list" where
  "conversations_of rows = rev (remdups (rev (map mw_conversation_id rows)))"

definition rows_of :: "message_row list \<Rightarrow> string \<Rightarrow> message_row list" where
  "rows_of rows cid = filter (\<lambda>r. mw_conversation_id r = cid) rows"

definition list_conversations :: "codec \<Rightarrow> store \<Rightarrow> int \<Rightarrow> (uuid \<times> int) list result" where
  "list_conversations cd st limit =
     collect_results (map (\<lambda>(cid, count). map_sum id (\<lambda>u. (u, count)) (read_uuid cd cid))
       (sql_limit limit
         (map (\<lambda>cid. (cid, int (length (rows_of (so_messages st) cid))))
           (order_desc (\<lambda>cid. Max (mw_timestamp ` set (rows_of (so_messages st) cid)))
             (conversations_of (so_messages st))))))"

definition update_delivery_status :: "codec \<Rightarrow> datetime \<Rightarrow> store \<Rightarrow> uuid \<Rightarrow> string \<Rightarrow> store" where
  "update_delivery_status cd now st message_id status =
     st\<lparr>so_messages := map (\<lambda>r. if mw_id r = show_uuid message_id
          then r\<lparr>mw_delivery_status := status, mw_delivered_at := Some (show_time cd now)\<rparr> else r)
        (so_messages st)\<rparr>"

definition insert_delivery_attempt ::
    "store \<Rightarrow> uuid \<Rightarrow> string option \<Rightarrow> string option \<Rightarrow> string \<Rightarrow> string option \<Rightarrow> store" where
  "insert_delivery_attempt st message_id endpoint_id agent_id status err =
     st\<lparr>so_attempts := so_attempts st @ [\<lparr>aw_message_id = show_uuid message_id, aw_endpoint_id = endpoint_id,
        aw_agent_id = agent_id, aw_status = status, aw_error = err\<rparr>]\<rparr>"

section \<open>Quantum state\<close>

definition quantum_row_of :: "codec \<Rightarrow> datetime \<Rightarrow> uuid \<Rightarrow> string \<Rightarrow> endpoint_state \<Rightarrow> quantum_row" where
  "quantum_row_of cd now cid endpoint_id s =
     \<lparr>qw_conversation_id = show_uuid cid, qw_endpoint_id = endpoint_id,
      qw_real_amplitude = am_re (es_amplitude s), qw_imag_amplitude = am_im (es_amplitude s),
      qw_pulls = sint (es_pulls s), qw_total_reward = es_total_reward s, qw_updated_at = show_time cd now\<rparr>"

text \<open>\<open>INSERT .. ON CONFLICT(conversation_id, endpoint_id) DO UPDATE\<close>.\<close>

fun upsert_row :: "quantum_row \<Rightarrow> quantum_row list \<Rightarrow> quantum_row list" where
  "upsert_row new [] = [new]"
| "upsert_row new (r # rs) =
     (if qw_conversation_id r = qw_conversation_id new \<and> qw_endpoint_id r = qw_endpoint_id new
      then r\<lparr>qw_real_amplitude := qw_real_amplitude new, qw_imag_amplitude := qw_imag_amplitude new,
              qw_pulls := qw_pulls new, qw_total_reward := qw_total_reward new,
              qw_updated_at := qw_updated_at new\<rparr> # rs
      else r # upsert_row new rs)"

definition save_quantum_state ::
    "codec \<Rightarrow> datetime \<Rightarrow> store \<Rightarrow> uuid \<Rightarrow> string \<Rightarrow> endpoint_state \<Rightarrow> store" where
  "save_quantum_state cd now st cid endpoint_id s =
     st\<lparr>so_quantum := upsert_row (quantum_row_of cd now cid endpoint_id s) (so_quantum st)\<rparr>"

definition state_of_row :: "datetime \<Rightarrow> quantum_row \<Rightarrow> endpoint_state" where
  "state_of_row now row =
     \<lparr>es_amplitude = amplitude_new (qw_real_amplitude row) (qw_imag_amplitude row),
      es_pulls = word_of_int (qw_pulls row), es_total_reward = qw_total_reward row, es_last_updated = now\<rparr>"

fun insert_states :: "datetime \<Rightarrow> quantum_row list \<Rightarrow> (string \<rightharpoonup> endpoint_state) \<Rightarrow> (string \<rightharpoonup> endpoint_state)" where
  "insert_states now [] m = m"
| "insert_states now (row # rows) m = insert_states now rows (m(qw_endpoint_id row \<mapsto> state_of_row now row))"

definition load_quantum_state :: "datetime \<Rightarrow> store \<Rightarrow> uuid \<Rightarrow> (string \<rightharpoonup> endpoint_state)" where
  "load_quantum_state now st cid =
     insert_states now (filter (\<lambda>r. qw_conversation_id r = show_uuid cid) (so_quantum st)) Map.empty"

section \<open>Feedback, history and events\<close>

definition insert_feedback :: "codec \<Rightarrow> store \<Rightarrow> feedback_event \<Rightarrow> store" where
  "insert_feedback cd st fe =
     st\<lparr>so_feedback := so_feedback st @ [\<lparr>fw_message_id = show_uuid (fe_message_id fe),
        fw_endpoint_id = fe_endpoint_id fe, fw_success = fe_success fe, fw_latency_ms = sint (fe_latency_ms fe),
        fw_quality_score = fe_quality_score fe, fw_error_kind = fe_error_kind fe,
        fw_metadata = map_option (json_text cd) (fe_metadata fe)\<rparr>]\<rparr>"

text \<open>\<open>AVG\<close> of no rows is \<open>NULL\<close>, which does not decode as an \<open>f64\<close>.\<close>

definition get_feedback_stats :: "store \<Rightarrow> string \<Rightarrow> (u64 \<times> real) result" where
  "get_feedback_stats st endpoint_id =
     (let rows = filter (\<lambda>r. fw_endpoint_id r = endpoint_id \<and> fw_success r) (so_feedback st);
          count = length rows
      in if rows = [] then Inl ''unexpected null''
         else Inr (word_of_int (int count),
                   real_of_int (sum_list (map fw_latency_ms rows)) / real count))"

definition log_endpoint_event ::
    "store \<Rightarrow> string \<Rightarrow> string \<Rightarrow> string \<Rightarrow> string \<Rightarrow> string option \<Rightarrow> u64 option \<Rightarrow> store" where
  "log_endpoint_event st endpoint_id endpoint_name url event_type status latency_ms =
     st\<lparr>so_history := so_history st @ [\<lparr>hw_endpoint_id = endpoint_id, hw_endpoint_name = endpoint_name,
        hw_url = url, hw_event_type = event_type, hw_status = status,
        hw_latency_ms = map_option sint latency_ms\<rparr>]\<rparr>"

definition event_row_of :: "codec \<Rightarrow> ((string \<rightharpoonup> json) \<Rightarrow> string) \<Rightarrow> event \<Rightarrow> event_row" where
  "event_row_of cd metadata_text e =
     \<lparr>vw_id = show_uuid (ev_id e), vw_timestamp = show_time cd (ev_timestamp e),
      vw_kind = show_kind (ev_kind e), vw_severity = show_severity (ev_severity e),
      vw_source = ev_source e, vw_message = ev_message e,
      vw_conversation_id = map_option show_uuid (ev_conversation_id e),
      vw_endpoint_id = ev_endpoint_id e, vw_agent_id = ev_agent_id e,
      vw_metadata = metadata_text (ev_metadata e)\<rparr>"

definition insert_event ::
    "codec \<Rightarrow> ((string \<rightharpoonup> json) \<Rightarrow> string) \<Rightarrow> store \<Rightarrow> event \<Rightarrow> store \<times> unit result" where
  "insert_event cd metadata_text st e =
     (let row = event_row_of cd metadata_text e
      in if vw_id row \<in> vw_id ` set (so_events st)
         then (st, Inl ''UNIQUE constraint failed: events.id'')
         else (st\<lparr>so_events := so_events st @ [row]\<rparr>, Inr ()))"

text \<open>\<open>TracingEventEmitter::emit\<close> with a \<open>StoreEventSink\<close>: a failed write is only logged. \<open>sink\<close> says whether
  the emitter was built with the sink and runs inside the runtime.\<close>

definition emit :: "codec \<Rightarrow> ((string \<rightharpoonup> json) \<Rightarrow> string) \<Rightarrow> bool \<Rightarrow> store \<Rightarrow> event \<Rightarrow> store" where
  "emit cd metadata_text sink st e = (if sink then fst (insert_event cd metadata_text st e) else st)"

section \<open>Sorting and collecting\<close>

lemma order_desc_cong:
  "(\<And>x y. x \<in> set xs \<Longrightarrow> y \<in> set xs \<Longrightarrow> f x \<le> f y \<longleftrightarrow> g x \<le> g y) \<Longrightarrow> order_desc f xs = order_desc g xs"
  unfolding order_desc_def by (subst sort_key_cong [of "rev xs" f g]) auto

lemma order_desc_map: "order_desc f (map h xs) = map h (order_desc (\<lambda>x. f (h x)) xs)"
  by (simp only: order_desc_def rev_map sort_key_map)

lemma set_order_desc [simp]: "set (order_desc f xs) = set xs"
  by (simp add: order_desc_def)

lemma distinct_order_desc [simp]: "distinct (order_desc f xs) \<longleftrightarrow> distinct xs"
  by (simp add: order_desc_def)

lemma length_order_desc [simp]: "length (order_desc f xs) = length xs"
  by (simp add: order_desc_def)

lemma sql_limit_map: "sql_limit n (map f xs) = map f (sql_limit n xs)"
  by (simp add: sql_limit_def take_map)

lemma set_sql_limit: "set (sql_limit n xs) \<subseteq> set xs"
  by (auto simp: sql_limit_def dest: in_set_takeD)

lemma collect_results_inr: "(\<And>x. x \<in> set xs \<Longrightarrow> f x = Inr (g x)) \<Longrightarrow> collect_results (map f xs) = Inr (map g xs)"
  by (induction xs) auto

section \<open>Messages come back\<close>

text \<open>The codec reads the texts of this message.\<close>

definition reads_back :: "codec \<Rightarrow> message \<Rightarrow> bool" where
  "reads_back cd m \<longleftrightarrow>
     read_uuid cd (show_uuid (m_id m)) = Inr (m_id m) \<and>
     read_uuid cd (show_uuid (m_conversation_id m)) = Inr (m_conversation_id m) \<and>
     (case m_parent_id m of Some p \<Rightarrow> read_uuid cd (show_uuid p) = Inr p | None \<Rightarrow> True) \<and>
     read_time cd (show_time cd (m_timestamp m)) = Inr (m_timestamp m) \<and>
     read_json cd (json_text cd (m_data m)) = Inr (m_data m) \<and>
     read_headers cd (headers_text cd (m_headers m)) = Inr (m_headers m) \<and>
     (case m_quantum m of Some q \<Rightarrow> read_quantum cd (quantum_text cd q) = Inr q | None \<Rightarrow> True)"

lemma message_of_row_of: "reads_back cd m \<Longrightarrow> message_of_row cd (message_row_of cd m) = Inr m"
  by (cases m; cases "m_parent_id m"; cases "m_quantum m")
    (auto simp: reads_back_def message_of_row_def message_row_of_def ok_of_def)

definition insert_messages :: "codec \<Rightarrow> store \<Rightarrow> message list \<Rightarrow> store" where
  "insert_messages cd st msgs = foldl (\<lambda>st m. fst (insert_message cd st m)) st msgs"

lemma insert_messages_rows:
  "distinct (map m_id msgs) \<Longrightarrow> (\<forall>m \<in> set msgs. show_uuid (m_id m) \<notin> mw_id ` set (so_messages st)) \<Longrightarrow>
     so_messages (insert_messages cd st msgs) = so_messages st @ map (message_row_of cd) msgs"
proof (induction msgs arbitrary: st)
  case (Cons m msgs)
  have "so_messages (fst (insert_message cd st m)) = so_messages st @ [message_row_of cd m]"
    using Cons.prems(2) by (simp add: insert_message_def Let_def) (simp add: message_row_of_def)
  moreover have "mw_id (message_row_of cd m) = show_uuid (m_id m)" by (simp add: message_row_of_def)
  moreover from this have "\<forall>m' \<in> set msgs. show_uuid (m_id m') \<notin> mw_id ` set (so_messages (fst (insert_message cd st m)))"
    using Cons.prems calculation by (simp, metis image_eqI)
  ultimately show ?case using Cons.IH [of "fst (insert_message cd st m)"] Cons.prems(1)
    by (simp add: insert_messages_def)
qed (simp add: insert_messages_def)

lemma stored_rows:
  "distinct (map m_id msgs) \<Longrightarrow> so_messages (insert_messages cd store_new msgs) = map (message_row_of cd) msgs"
  by (simp add: insert_messages_rows store_new_def)

lemma row_conversation [simp]: "mw_conversation_id (message_row_of cd m) = show_uuid (m_conversation_id m)"
  by (simp add: message_row_of_def)

lemma row_timestamp [simp]: "mw_timestamp (message_row_of cd m) = show_time cd (m_timestamp m)"
  by (simp add: message_row_of_def)

lemma get_after_insert:
  assumes "distinct (map m_id msgs)" and "\<forall>m \<in> set msgs. reads_back cd m"
    and "\<forall>m \<in> set msgs. \<forall>m' \<in> set msgs.
      show_time cd (m_timestamp m) \<le> show_time cd (m_timestamp m') \<longleftrightarrow> m_timestamp m \<le> m_timestamp m'"
  shows "get_messages_by_conversation cd (insert_messages cd store_new msgs) cid limit =
    Inr (sql_limit limit (order_desc m_timestamp (filter (\<lambda>m. m_conversation_id m = cid) msgs)))"
proof -
  let ?ms = "filter (\<lambda>m. m_conversation_id m = cid) msgs"
  have f: "filter (\<lambda>r. mw_conversation_id r = show_uuid cid) (so_messages (insert_messages cd store_new msgs))
      = map (message_row_of cd) ?ms"
    by (simp add: stored_rows [OF assms(1)] filter_map comp_def)
  have "order_desc (\<lambda>m. show_time cd (m_timestamp m)) ?ms = order_desc m_timestamp ?ms"
    using assms(3) by (intro order_desc_cong) auto
  then have "sql_limit limit (order_desc mw_timestamp (map (message_row_of cd) ?ms))
      = map (message_row_of cd) (sql_limit limit (order_desc m_timestamp ?ms))"
    by (simp add: order_desc_map sql_limit_map)
  then have "get_messages_by_conversation cd (insert_messages cd store_new msgs) cid limit =
      collect_results (map (\<lambda>m. message_of_row cd (message_row_of cd m)) (sql_limit limit (order_desc m_timestamp ?ms)))"
    by (simp add: get_messages_by_conversation_def f comp_def)
  also have "\<dots> = Inr (map (\<lambda>m. m) (sql_limit limit (order_desc m_timestamp ?ms)))"
    using assms(2) set_sql_limit [of limit "order_desc m_timestamp ?ms"]
    by (intro collect_results_inr message_of_row_of) auto
  finally show ?thesis by simp
qed

section \<open>Properties\<close>

text \<open>
  C22. Messages with distinct identifiers are read back from the store unchanged: those of the asked
  conversation, latest first, at most \<open>limit\<close> of them; provided the libraries read what they wrote and
  the text of a time sorts as the time.
\<close>

theorem store_messages_roundtrip:
  assumes "distinct (map m_id msgs)" and "\<forall>m \<in> set msgs. reads_back cd m"
    and "\<forall>m \<in> set msgs. \<forall>m' \<in> set msgs.
      show_time cd (m_timestamp m) \<le> show_time cd (m_timestamp m') \<longleftrightarrow> m_timestamp m \<le> m_timestamp m'"
  shows "get_messages_by_conversation cd (insert_messages cd store_new msgs) cid limit =
    Inr (sql_limit limit (order_desc m_timestamp (filter (\<lambda>m. m_conversation_id m = cid) msgs)))"
  by (rule get_after_insert [OF assms])

definition sample_codec :: codec where
  "sample_codec =
     \<lparr>show_time = (\<lambda>t. if t = 0 then ''0'' else ''1''), read_time = (\<lambda>s. if s = ''0'' then Inr 0 else Inr 1),
      read_uuid = (\<lambda>s. if s = show_uuid 1 then Inr 1 else if s = show_uuid 2 then Inr 2
                        else if s = show_uuid 9 then Inr 9 else Inl ''invalid''),
      json_text = (\<lambda>_. ''null''), read_json = (\<lambda>_. Inr JNull), headers_text = (\<lambda>_. ''{}''),
      read_headers = (\<lambda>_. Inr Map.empty), quantum_text = (\<lambda>_. ''null''),
      read_quantum = (\<lambda>_. Inl ''invalid'')\<rparr>"

definition two_messages :: "message list" where
  "two_messages = [message_new 1 9 0 ''me'' ''/p'' ''first'', message_new 2 9 1 ''me'' ''/p'' ''second'']"

lemma two_messages_ok:
  "distinct (map m_id two_messages)"
  "\<forall>m \<in> set two_messages. reads_back sample_codec m"
  "\<forall>m \<in> set two_messages. \<forall>m' \<in> set two_messages.
     show_time sample_codec (m_timestamp m) \<le> show_time sample_codec (m_timestamp m')
       \<longleftrightarrow> m_timestamp m \<le> m_timestamp m'"
  by (simp_all add: two_messages_def message_new_def reads_back_def sample_codec_def)

theorem store_messages_roundtrip_witness:
  "get_messages_by_conversation sample_codec (insert_messages sample_codec store_new two_messages) 9 1
     = Inr [message_new 2 9 1 ''me'' ''/p'' ''second'']"
  unfolding store_messages_roundtrip [OF two_messages_ok]
  by (simp add: two_messages_def message_new_def order_desc_def sql_limit_def)

text \<open>The state saved last under a key.\<close>

type_synonym saved = "datetime \<times> uuid \<times> string \<times> endpoint_state"

definition save_all :: "codec \<Rightarrow> store \<Rightarrow> saved list \<Rightarrow> store" where
  "save_all cd st saves = foldl (\<lambda>st (now, cid, ep, s). save_quantum_state cd now st cid ep s) st saves"

definition last_saved :: "saved list \<Rightarrow> uuid \<Rightarrow> string \<Rightarrow> endpoint_state option" where
  "last_saved saves cid ep = map_of (rev (map (\<lambda>(now, c, e, s). ((c, e), s)) saves)) (cid, ep)"

definition key_of :: "quantum_row \<Rightarrow> string \<times> string" where
  "key_of r = (qw_conversation_id r, qw_endpoint_id r)"

definition values_of :: "quantum_row \<Rightarrow> real \<times> real \<times> int \<times> real" where
  "values_of r = (qw_real_amplitude r, qw_imag_amplitude r, qw_pulls r, qw_total_reward r)"

definition saved_values :: "quantum_row list \<Rightarrow> string \<times> string \<rightharpoonup> real \<times> real \<times> int \<times> real" where
  "saved_values rows = map_of (map (\<lambda>r. (key_of r, values_of r)) rows)"

lemma upsert_values: "saved_values (upsert_row new rs) = (saved_values rs)(key_of new \<mapsto> values_of new)"
  by (induction rs) (auto simp: saved_values_def key_of_def values_of_def fun_upd_twist)

lemma upsert_keys: "key_of ` set (upsert_row new rs) = insert (key_of new) (key_of ` set rs)"
  by (induction rs) (auto simp: key_of_def)

lemma upsert_distinct: "distinct (map key_of rs) \<Longrightarrow> distinct (map key_of (upsert_row new rs))"
  using upsert_keys by (induction rs) (auto simp: key_of_def)

lemma insert_states_apply:
  "insert_states now rows m = m ++ map_of (rev (map (\<lambda>r. (qw_endpoint_id r, state_of_row now r)) rows))"
  by (induction rows arbitrary: m) auto

lemma map_of_rev_distinct: "distinct (map fst xs) \<Longrightarrow> map_of (rev xs) = map_of xs"
  by (rule sym, rule map_of_eqI) (auto simp: map_of_eq_Some_iff rev_map simp flip: rev_map)

definition state_of_values :: "datetime \<Rightarrow> real \<times> real \<times> int \<times> real \<Rightarrow> endpoint_state" where
  "state_of_values now v =
     (case v of (re, im, pulls, reward) \<Rightarrow>
        \<lparr>es_amplitude = amplitude_new re im, es_pulls = word_of_int pulls, es_total_reward = reward,
         es_last_updated = now\<rparr>)"

lemma load_values:
  assumes "distinct (map key_of (so_quantum st))"
  shows "load_quantum_state now st cid ep =
    map_option (state_of_values now) (saved_values (so_quantum st) (show_uuid cid, ep))"
proof -
  let ?P = "\<lambda>r. qw_conversation_id r = show_uuid cid"
  have "distinct (map qw_endpoint_id (filter ?P rows))" if "distinct (map key_of rows)" for rows
    using that by (induction rows) (auto simp: key_of_def image_iff)
  then have d: "distinct (map fst (map (\<lambda>r. (qw_endpoint_id r, state_of_row now r)) (filter ?P (so_quantum st))))"
    using assms by (simp add: comp_def)
  have "map_of (map (\<lambda>r. (qw_endpoint_id r, state_of_row now r)) (filter ?P rows)) ep =
      map_option (state_of_values now) (saved_values rows (show_uuid cid, ep))" for rows
    by (induction rows)
      (auto simp: saved_values_def key_of_def values_of_def state_of_row_def state_of_values_def)
  then show ?thesis
    by (simp add: load_quantum_state_def insert_states_apply map_of_rev_distinct [OF d] del: map_map)
qed

lemma save_all_rows:
  assumes "distinct (map key_of (so_quantum st))"
  shows "distinct (map key_of (so_quantum (save_all cd st saves))) \<and>
    saved_values (so_quantum (save_all cd st saves)) (show_uuid cid, ep) =
      (case last_saved saves cid ep of
         None \<Rightarrow> saved_values (so_quantum st) (show_uuid cid, ep)
       | Some s \<Rightarrow> Some (am_re (es_amplitude s), am_im (es_amplitude s), sint (es_pulls s), es_total_reward s))"
  using assms
proof (induction saves arbitrary: st)
  case (Cons x saves)
  obtain now c e s where x: "x = (now, c, e, s)" by (cases x) auto
  let ?st = "save_quantum_state cd now st c e s"
  have d: "distinct (map key_of (so_quantum ?st))"
    using Cons.prems by (simp add: save_quantum_state_def upsert_distinct)
  have v: "saved_values (so_quantum ?st) = (saved_values (so_quantum st))((show_uuid c, e) \<mapsto>
      (am_re (es_amplitude s), am_im (es_amplitude s), sint (es_pulls s), es_total_reward s))"
    by (simp add: save_quantum_state_def upsert_values)
      (simp add: quantum_row_of_def key_of_def values_of_def)
  show ?case using Cons.IH [OF d] v x
    by (auto simp: save_all_def last_saved_def map_add_def split: option.splits)
qed (simp add: save_all_def last_saved_def)

text \<open>
  C23. After any saves, loading a conversation gives for each endpoint the state saved last for it,
  amplitude, pulls (all 64 bits) and reward, and nothing for the others; only the time of the last
  update is not restored.
\<close>

theorem store_quantum_roundtrip:
  "load_quantum_state now (save_all cd store_new saves) cid ep =
     map_option (\<lambda>s. s\<lparr>es_last_updated := now\<rparr>) (last_saved saves cid ep)"
proof -
  have s: "saved_values (so_quantum store_new) k = None" and d: "distinct (map key_of (so_quantum store_new))" for k
    by (simp_all add: store_new_def saved_values_def)
  note r = save_all_rows [OF d, of cd saves cid ep]
  show ?thesis
    unfolding load_values [OF conjunct1 [OF r]] conjunct2 [OF r] s
    by (auto simp: state_of_values_def amplitude_new_def split: option.split)
qed

text \<open>
  The success statistics of an endpoint are the number of its successful feedback events and the
  mean of their latencies; with no such event the call fails instead of returning zero.
\<close>

theorem feedback_stats_exact:
  "get_feedback_stats (foldl (insert_feedback cd) store_new fs) ep =
    (let ls = map (\<lambda>f. sint (fe_latency_ms f)) (filter (\<lambda>f. fe_endpoint_id f = ep \<and> fe_success f) fs)
     in if ls = [] then Inl ''unexpected null''
        else Inr (word_of_nat (length ls), real_of_int (sum_list ls) / real (length ls)))"
proof -
  have rows: "map (\<lambda>r. (fw_endpoint_id r, fw_success r, fw_latency_ms r)) (so_feedback (foldl (insert_feedback cd) st fs))
      = map (\<lambda>r. (fw_endpoint_id r, fw_success r, fw_latency_ms r)) (so_feedback st) @
        map (\<lambda>f. (fe_endpoint_id f, fe_success f, sint (fe_latency_ms f))) fs" for st
    by (induction fs arbitrary: st) (simp_all add: insert_feedback_def)
  have pick: "map fw_latency_ms (filter (\<lambda>r. fw_endpoint_id r = ep \<and> fw_success r) rs) =
      map (snd \<circ> snd) (filter (\<lambda>x. fst x = ep \<and> fst (snd x)) (map (\<lambda>r. (fw_endpoint_id r, fw_success r, fw_latency_ms r)) rs))" for rs
    by (induction rs) simp_all
  have ls: "map fw_latency_ms (filter (\<lambda>r. fw_endpoint_id r = ep \<and> fw_success r)
        (so_feedback (foldl (insert_feedback cd) store_new fs)))
      = map (\<lambda>f. sint (fe_latency_ms f)) (filter (\<lambda>f. fe_endpoint_id f = ep \<and> fe_success f) fs)"
    unfolding pick rows by (simp add: store_new_def filter_map comp_def)
  have len: "length (filter (\<lambda>r. fw_endpoint_id r = ep \<and> fw_success r)
        (so_feedback (foldl (insert_feedback cd) store_new fs)))
      = length (filter (\<lambda>f. fe_endpoint_id f = ep \<and> fe_success f) fs)"
    using arg_cong [OF ls, of length] by simp
  show ?thesis
    unfolding get_feedback_stats_def Let_def ls len
    by (simp only: length_map length_0_conv [symmetric] len of_int_of_nat_eq)
qed

section \<open>Conversations\<close>

lemma remdups_map_inj: "inj f \<Longrightarrow> remdups (map f xs) = map f (remdups xs)"
  by (induction xs) (auto dest: injD)

lemma Max_image_mono:
  assumes "finite A" and "A \<noteq> {}" and "\<And>x y. x \<in> A \<Longrightarrow> y \<in> A \<Longrightarrow> x \<le> y \<Longrightarrow> h x \<le> h y"
  shows "Max (h ` A) = h (Max A)"
  using assms by (intro Max_eqI) (auto intro!: assms(3) Max_in Max_ge)

definition in_conversation :: "message list \<Rightarrow> uuid \<Rightarrow> message list" where
  "in_conversation msgs cid = filter (\<lambda>m. m_conversation_id m = cid) msgs"

definition last_time :: "message list \<Rightarrow> uuid \<Rightarrow> datetime" where
  "last_time msgs cid = Max (m_timestamp ` set (in_conversation msgs cid))"

lemma latest_time_text:
  assumes "\<forall>m \<in> set msgs. \<forall>m' \<in> set msgs.
      show_time cd (m_timestamp m) \<le> show_time cd (m_timestamp m') \<longleftrightarrow> m_timestamp m \<le> m_timestamp m'"
    and "cid \<in> m_conversation_id ` set msgs"
  shows "Max (mw_timestamp ` set (rows_of (map (message_row_of cd) msgs) (show_uuid cid)))
      = show_time cd (last_time msgs cid) \<and>
    last_time msgs cid \<in> m_timestamp ` set msgs"
proof -
  let ?A = "m_timestamp ` set (in_conversation msgs cid)"
  have "mw_timestamp ` set (rows_of (map (message_row_of cd) msgs) (show_uuid cid)) = show_time cd ` ?A"
    by (force simp: rows_of_def in_conversation_def filter_map image_image)
  moreover have "?A \<noteq> {}" using assms(2) by (auto simp: in_conversation_def)
  moreover have "Max (show_time cd ` ?A) = show_time cd (Max ?A)"
    using assms \<open>?A \<noteq> {}\<close> by (intro Max_image_mono) (auto simp: in_conversation_def)
  moreover have "Max ?A \<in> ?A" using \<open>?A \<noteq> {}\<close> by (intro Max_in) auto
  moreover have "?A \<subseteq> m_timestamp ` set msgs" by (auto simp: in_conversation_def)
  ultimately show ?thesis unfolding last_time_def by (metis subsetD)
qed

text \<open>
  C4. The list of conversations has each conversation of the stored messages once, the most recently
  active first, with the number of its messages, cut off after \<open>limit\<close> conversations.
\<close>

theorem store_conversations_exact:
  assumes "distinct (map m_id msgs)" and "\<forall>m \<in> set msgs. reads_back cd m"
    and "\<forall>m \<in> set msgs. \<forall>m' \<in> set msgs.
      show_time cd (m_timestamp m) \<le> show_time cd (m_timestamp m') \<longleftrightarrow> m_timestamp m \<le> m_timestamp m'"
  shows "list_conversations cd (insert_messages cd store_new msgs) limit =
    Inr (map (\<lambda>cid. (cid, int (length (in_conversation msgs cid))))
      (sql_limit limit (order_desc (last_time msgs) (rev (remdups (rev (map m_conversation_id msgs)))))))"
proof -
  let ?rows = "map (message_row_of cd) msgs" and ?cids = "rev (remdups (rev (map m_conversation_id msgs)))"
  have inj: "inj show_uuid" by (simp add: inj_def)
  have c: "conversations_of ?rows = map show_uuid ?cids"
  proof -
    have "map mw_conversation_id ?rows = map show_uuid (map m_conversation_id msgs)" by simp
    then show ?thesis by (simp only: conversations_of_def rev_map remdups_map_inj [OF inj])
  qed
  have len: "length (rows_of ?rows (show_uuid cid)) = length (in_conversation msgs cid)" for cid
    by (simp add: rows_of_def in_conversation_def filter_map comp_def)
  have ord: "order_desc (\<lambda>u. Max (mw_timestamp ` set (rows_of ?rows (show_uuid u)))) ?cids
      = order_desc (last_time msgs) ?cids"
  proof (rule order_desc_cong)
    fix x y assume "x \<in> set ?cids" and "y \<in> set ?cids"
    then have x: "x \<in> m_conversation_id ` set msgs" and y: "y \<in> m_conversation_id ` set msgs" by auto
    note tx = latest_time_text [OF assms(3) x] and ty = latest_time_text [OF assms(3) y]
    show "Max (mw_timestamp ` set (rows_of ?rows (show_uuid x))) \<le> Max (mw_timestamp ` set (rows_of ?rows (show_uuid y)))
        \<longleftrightarrow> last_time msgs x \<le> last_time msgs y"
      using assms(3) tx ty by auto
  qed
  have "list_conversations cd (insert_messages cd store_new msgs) limit =
      collect_results (map (\<lambda>u. map_sum id (\<lambda>v. (v, int (length (in_conversation msgs u)))) (read_uuid cd (show_uuid u)))
        (sql_limit limit (order_desc (last_time msgs) ?cids)))"
    by (simp add: list_conversations_def stored_rows [OF assms(1)] c order_desc_map sql_limit_map ord len comp_def)
  also have "\<dots> = Inr (map (\<lambda>cid. (cid, int (length (in_conversation msgs cid))))
      (sql_limit limit (order_desc (last_time msgs) ?cids)))"
  proof (rule collect_results_inr)
    fix u assume "u \<in> set (sql_limit limit (order_desc (last_time msgs) ?cids))"
    then have "u \<in> m_conversation_id ` set msgs" using set_sql_limit by fastforce
    then show "map_sum id (\<lambda>v. (v, int (length (in_conversation msgs u)))) (read_uuid cd (show_uuid u))
        = Inr (u, int (length (in_conversation msgs u)))"
      using assms(2) by (auto simp: reads_back_def)
  qed
  finally show ?thesis .
qed

theorem store_conversations_exact_witness:
  "list_conversations sample_codec (insert_messages sample_codec store_new two_messages) 100 = Inr [(9, 2)]"
  unfolding store_conversations_exact [OF two_messages_ok]
  by (simp add: two_messages_def message_new_def order_desc_def sql_limit_def in_conversation_def)

text \<open>A message is stored once: a second one with its identifier is refused and changes nothing.\<close>

lemma insert_message_twice:
  "insert_message cd (fst (insert_message cd st m)) m' =
     (if m_id m' = m_id m then (fst (insert_message cd st m), Inl ''UNIQUE constraint failed: messages.id'')
      else insert_message cd (fst (insert_message cd st m)) m')"
  by (auto simp: insert_message_def message_row_of_def Let_def)

end
