(* ===== verification/Mcp.thy ===== *)
theory Mcp
  imports Endpoints
begin

text \<open>
  The registry of MCP clients and its index of tools, \<open>src/mcp.rs\<close>. The HTTP client with its JSON
  decoder is a parameter: \<open>get_manifest url\<close> is what a GET of the URL and the decoding of a successful
  answer as a manifest give, \<open>post_json url body\<close> what a POST and the decoding of its answer give.
\<close>

section \<open>State and operations\<close>

record mcp_tool =
  tool_name :: string
  tool_description :: string
  tool_input_schema :: json

record mcp_manifest =
  mm_tools :: "mcp_tool list"
  mm_resources :: "string list"
  mm_prompts :: "string list"

record mcp_http =
  get_manifest :: "string \<Rightarrow> mcp_manifest result"
  post_json :: "string \<Rightarrow> json \<Rightarrow> json result"

type_synonym mcp_client = ai_endpoint

record mcp_registry =
  mr_clients :: "(string, mcp_client) dashmap"
  mr_tool_index :: "(string, string) dashmap"

definition discover_tools :: "mcp_http \<Rightarrow> mcp_client \<Rightarrow> mcp_tool list result" where
  "discover_tools http c =
     (case get_manifest http (trim_end_slashes (ep_url c) @ ''/mcp/tools'') of
        Inl e \<Rightarrow> Inl e
      | Inr manifest \<Rightarrow> Inr (mm_tools manifest))"

definition call_tool :: "mcp_http \<Rightarrow> mcp_client \<Rightarrow> string \<Rightarrow> json \<Rightarrow> json result" where
  "call_tool http c name arguments =
     post_json http (trim_end_slashes (ep_url c) @ ''/mcp/tools/'' @ name @ ''/call'') arguments"

definition requested_tool :: "message \<Rightarrow> string" where
  "requested_tool msg =
     or_default (Option.bind (json_get (m_data msg) ''tool'') json_as_str) ''unknown''"

definition client_route_message :: "mcp_http \<Rightarrow> mcp_client \<Rightarrow> message \<Rightarrow> json option result" where
  "client_route_message http c msg =
     (if m_msg_type msg \<noteq> ''mcp_tool_call'' then Inr None
      else (let args = or_default (json_get (m_data msg) ''arguments'') JNull
            in case call_tool http c (requested_tool msg) args of
                 Inl e \<Rightarrow> Inl e
               | Inr result \<Rightarrow> Inr (Some result)))"

definition mcp_new :: mcp_registry where
  "mcp_new = \<lparr>mr_clients = Map.empty, mr_tool_index = Map.empty\<rparr>"

definition mcp_register :: "mcp_registry \<Rightarrow> ai_endpoint \<Rightarrow> mcp_registry" where
  "mcp_register reg endpoint = reg\<lparr>mr_clients := (mr_clients reg)(ep_id endpoint \<mapsto> endpoint)\<rparr>"

definition mcp_get :: "mcp_registry \<Rightarrow> string \<Rightarrow> mcp_client option" where
  "mcp_get reg endpoint_id = mr_clients reg endpoint_id"

fun discover_keys ::
    "mcp_http \<Rightarrow> string list \<Rightarrow> (string, mcp_client) dashmap \<Rightarrow> (string, mcp_tool list) dashmap \<Rightarrow>
     (string, mcp_tool list) dashmap" where
  "discover_keys http [] clients results = results"
| "discover_keys http (i # ids) clients results =
     (case clients i of
        None \<Rightarrow> discover_keys http ids clients results
      | Some c \<Rightarrow> (case discover_tools http c of
          Inr tools \<Rightarrow> discover_keys http ids clients (results(i \<mapsto> tools))
        | Inl e \<Rightarrow> discover_keys http ids clients results))"

definition discover_all :: "mcp_http \<Rightarrow> string list \<Rightarrow> mcp_registry \<Rightarrow> (string, mcp_tool list) dashmap" where
  "discover_all http ks reg = discover_keys http ks (mr_clients reg) Map.empty"

text \<open>The tools of one endpoint: a name that is taken stays with the endpoint that has it.\<close>

fun index_tools :: "string \<Rightarrow> mcp_tool list \<Rightarrow> (string, string) dashmap \<Rightarrow> (string, string) dashmap" where
  "index_tools i [] index = index"
| "index_tools i (tool # tools) index =
     (case index (tool_name tool) of
        Some _ \<Rightarrow> index_tools i tools index
      | None \<Rightarrow> index_tools i tools (index(tool_name tool \<mapsto> i)))"

fun index_keys ::
    "mcp_http \<Rightarrow> string list \<Rightarrow> (string, mcp_client) dashmap \<Rightarrow> (string, string) dashmap \<Rightarrow>
     (string, string) dashmap" where
  "index_keys http [] clients index = index"
| "index_keys http (i # ids) clients index =
     (case clients i of
        None \<Rightarrow> index_keys http ids clients index
      | Some c \<Rightarrow> (case discover_tools http c of
          Inr tools \<Rightarrow> index_keys http ids clients (index_tools i tools index)
        | Inl e \<Rightarrow> index_keys http ids clients index))"

definition discover_and_index :: "mcp_http \<Rightarrow> string list \<Rightarrow> mcp_registry \<Rightarrow> mcp_registry" where
  "discover_and_index http ks reg =
     reg\<lparr>mr_tool_index := index_keys http ks (mr_clients reg) Map.empty\<rparr>"

definition find_endpoint_for_tool :: "mcp_registry \<Rightarrow> string \<Rightarrow> string option" where
  "find_endpoint_for_tool reg name = mr_tool_index reg name"

definition call_tool_by_name :: "mcp_http \<Rightarrow> mcp_registry \<Rightarrow> string \<Rightarrow> json \<Rightarrow> json option result" where
  "call_tool_by_name http reg name arguments =
     (case find_endpoint_for_tool reg name of
        None \<Rightarrow> Inr None
      | Some endpoint_id \<Rightarrow> (case mr_clients reg endpoint_id of
          None \<Rightarrow> Inr None
        | Some c \<Rightarrow> (case call_tool http c name arguments of
            Inl e \<Rightarrow> Inl e
          | Inr result \<Rightarrow> Inr (Some result))))"

section \<open>The index\<close>

text \<open>Whether an endpoint answers with a manifest that lists the tool.\<close>

definition provides :: "mcp_http \<Rightarrow> (string, mcp_client) dashmap \<Rightarrow> string \<Rightarrow> string \<Rightarrow> bool" where
  "provides http clients name i \<longleftrightarrow>
     (case clients i of
        None \<Rightarrow> False
      | Some c \<Rightarrow> (case discover_tools http c of
          Inl e \<Rightarrow> False
        | Inr tools \<Rightarrow> name \<in> tool_name ` set tools))"

lemma index_tools_apply:
  "index_tools i tools index name =
     (case index name of
        Some j \<Rightarrow> Some j
      | None \<Rightarrow> if name \<in> tool_name ` set tools then Some i else None)"
proof (induction tools arbitrary: index name)
  case (Cons tool tools)
  show ?case
    by (cases "index (tool_name tool)"; cases "index name"; cases "name = tool_name tool") (simp_all add: Cons)
qed (simp split: option.splits)

lemma index_keys_apply:
  "index_keys http ks clients index name =
     (case index name of
        Some j \<Rightarrow> Some j
      | None \<Rightarrow> (case filter (provides http clients name) ks of [] \<Rightarrow> None | i # _ \<Rightarrow> Some i))"
proof (induction ks arbitrary: index)
  case (Cons i ids)
  show ?case
  proof (cases "clients i")
    case None
    then have "\<not> provides http clients name i" by (simp add: provides_def)
    then show ?thesis using None by (cases "index name") (simp_all add: Cons.IH)
  next
    case (Some c)
    then have "provides http clients name i \<longleftrightarrow>
        (\<exists>tools. discover_tools http c = Inr tools \<and> name \<in> tool_name ` set tools)"
      by (simp add: provides_def split: sum.split)
    then show ?thesis using Some
      by (cases "discover_tools http c"; cases "index name") (simp_all add: Cons.IH index_tools_apply)
  qed
qed (simp split: option.splits)

lemma discover_keys_apply:
  "distinct ks \<Longrightarrow> discover_keys http ks clients results i =
     (case (if i \<in> set ks then clients i else None) of
        None \<Rightarrow> results i
      | Some c \<Rightarrow> (case discover_tools http c of Inr tools \<Rightarrow> Some tools | Inl e \<Rightarrow> results i))"
  by (induction http ks clients results rule: discover_keys.induct) (auto split: option.splits sum.splits)

section \<open>Properties\<close>

text \<open>
  The index sends a tool to the endpoint, first in the order of discovery, whose manifest lists it,
  and knows no other tool; when only one endpoint lists it the order does not matter. Calling the tool
  by name posts the arguments to that endpoint, once, and calling an unknown tool does nothing.
\<close>

theorem mcp_index_exact:
  assumes "iterates ks (mr_clients reg)" and "reg' = discover_and_index http ks reg"
  shows "find_endpoint_for_tool reg' name =
      (case filter (provides http (mr_clients reg) name) ks of [] \<Rightarrow> None | i # _ \<Rightarrow> Some i) \<and>
    (\<forall>i. provides http (mr_clients reg) name i \<and> (\<forall>j. provides http (mr_clients reg) name j \<longrightarrow> j = i) \<longrightarrow>
      find_endpoint_for_tool reg' name = Some i) \<and>
    (\<forall>i c. find_endpoint_for_tool reg' name = Some i \<and> mr_clients reg i = Some c \<longrightarrow>
      call_tool_by_name http reg' name args = map_sum (\<lambda>e. e) Some
        (post_json http (trim_end_slashes (ep_url c) @ ''/mcp/tools/'' @ name @ ''/call'') args)) \<and>
    (find_endpoint_for_tool reg' name = None \<longrightarrow> call_tool_by_name http reg' name args = Inr None)"
proof -
  let ?P = "provides http (mr_clients reg) name"
  have f: "find_endpoint_for_tool reg' name = (case filter ?P ks of [] \<Rightarrow> None | i # _ \<Rightarrow> Some i)"
    by (simp add: assms(2) find_endpoint_for_tool_def discover_and_index_def index_keys_apply)
  have unique: "find_endpoint_for_tool reg' name = Some i" if i: "?P i" and u: "\<forall>j. ?P j \<longrightarrow> j = i" for i
  proof -
    have "i \<in> set ks" using i assms(1) by (auto simp: provides_def iterates_def split: option.splits)
    then have "i \<in> set (filter ?P ks)" using i by simp
    then obtain i' rest where e: "filter ?P ks = i' # rest" by (cases "filter ?P ks") auto
    then have "i' \<in> set (filter ?P ks)" by simp
    then have "?P i'" by simp
    then show ?thesis using u by (simp add: f e)
  qed
  have c: "mr_clients reg' = mr_clients reg" by (simp add: assms(2) discover_and_index_def)
  have known: "call_tool_by_name http reg' name args = map_sum (\<lambda>e. e) Some
      (post_json http (trim_end_slashes (ep_url c) @ ''/mcp/tools/'' @ name @ ''/call'') args)"
    if "find_endpoint_for_tool reg' name = Some i \<and> mr_clients reg i = Some c" for i c
    using that by (simp add: call_tool_by_name_def call_tool_def c split: sum.split)
  have unknown: "call_tool_by_name http reg' name args = Inr None"
    if "find_endpoint_for_tool reg' name = None"
    using that by (simp add: call_tool_by_name_def)
  show ?thesis
    by (rule conjI [OF f conjI [OF _ conjI]]; intro allI impI) (erule known unknown | (erule conjE, erule unique, assumption))+
qed

definition search_http :: mcp_http where
  "search_http =
     \<lparr>get_manifest = (\<lambda>url. if url = ''http://b/mcp/tools''
        then Inr \<lparr>mm_tools = [\<lparr>tool_name = ''search'', tool_description = '''', tool_input_schema = JNull\<rparr>],
                  mm_resources = [], mm_prompts = []\<rparr>
        else Inl ''refused''),
      post_json = (\<lambda>url body. if url = ''http://b/mcp/tools/search/call'' then Inr body else Inl ''refused'')\<rparr>"

theorem mcp_index_exact_witness:
  "let reg = mcp_register (mcp_register mcp_new (sample_endpoint ''a'')) (sample_endpoint ''b''\<lparr>ep_url := ''http://b/''\<rparr>)
   in find_endpoint_for_tool (discover_and_index search_http [''a'', ''b''] reg) ''search'' = Some ''b''"
proof -
  let ?reg = "mcp_register (mcp_register mcp_new (sample_endpoint ''a'')) (sample_endpoint ''b''\<lparr>ep_url := ''http://b/''\<rparr>)"
  have "iterates [''a'', ''b''] (mr_clients ?reg)"
    by (auto simp: iterates_def mcp_register_def mcp_new_def sample_endpoint_def)
  from mcp_index_exact [OF this refl, of search_http "''search''"] show ?thesis
    by (simp add: provides_def mcp_register_def mcp_new_def sample_endpoint_def discover_tools_def
        search_http_def trim_end_slashes_def)
qed

end
