(* ===== verification/Router.thy ===== *)
theory Router
  imports Circuit Mcp QRouter
begin

text \<open>
  The composable routing pipeline of \<open>src/router.rs\<close>. A stage is a value of \<open>stage\<close> with the component
  it holds; the components that a stage changes, the circuit breaker and the quantum router, are the
  \<open>routing_state\<close> threaded through the stages. One routing of a message reads each clock once.
\<close>

section \<open>Stages\<close>

record routing_context =
  rx_candidates :: "string list"
  rx_selected :: "string option"
  rx_explanation :: "string list"
  rx_rejected :: "string list"

record routing_decision =
  rd_selected :: "string option"
  rd_candidates :: "string list"
  rd_explanation :: string

definition context_new :: "string list \<Rightarrow> routing_context" where
  "context_new candidates =
     \<lparr>rx_candidates = candidates, rx_selected = None, rx_explanation = [], rx_rejected = []\<rparr>"

definition into_decision :: "routing_context \<Rightarrow> routing_decision" where
  "into_decision ctx =
     \<lparr>rd_selected = rx_selected ctx, rd_candidates = rx_candidates ctx,
      rd_explanation = join ''; '' (rx_explanation ctx)\<rparr>"

datatype 're stage =
    McpStage mcp_registry
  | PlumberStage "'re plumber"
  | QuantumStage
  | FallbackStage
  | CircuitStage endpoints

record routing_state =
  rs_circuit :: circuit_breaker
  rs_quantum :: quantum_router

text \<open>What a routing reads: the text library, the random numbers and the two clocks.\<close>

record 're routing_env =
  re_lib :: "'re text_lib"
  re_rng :: rng
  re_instant :: instant
  re_now :: datetime

definition explain :: "string \<Rightarrow> routing_context \<Rightarrow> routing_context" where
  "explain s ctx = ctx\<lparr>rx_explanation := rx_explanation ctx @ [s]\<rparr>"

text \<open>The arrow of the explanation, U+2192 in UTF-8.\<close>

definition arrow :: string where
  "arrow = [char_of (226 :: nat), char_of (134 :: nat), char_of (146 :: nat)]"

definition mcp_stage ::
    "mcp_registry \<Rightarrow> message \<Rightarrow> routing_context \<Rightarrow> routing_context \<times> bool" where
  "mcp_stage mcp msg ctx =
     (if m_msg_type msg = ''mcp_tool_call''
      then (let name = requested_tool msg in
            case find_endpoint_for_tool mcp name of
              Some endpoint \<Rightarrow>
                (explain (''mcp tool '' @ [CHR 0x27] @ name @ [CHR 0x27] @ '' '' @ arrow @ '' '' @ endpoint)
                   (ctx\<lparr>rx_selected := Some endpoint\<rparr>), True)
            | None \<Rightarrow> (ctx, False))
      else (ctx, False))"

definition plumber_stage ::
    "'re text_lib \<Rightarrow> 're plumber \<Rightarrow> message \<Rightarrow> routing_context \<Rightarrow> routing_context \<times> bool" where
  "plumber_stage lib plumber msg ctx =
     (let destinations = plumber_route lib plumber msg;
          ctx1 = explain (''plumber matched '' @ show_nat (length destinations) @ '' rule(s)'') ctx
      in (ctx1\<lparr>rx_candidates := destinations\<rparr>, False))"

definition valid_candidates :: "routing_context \<Rightarrow> string list" where
  "valid_candidates ctx = filter (\<lambda>c. c \<notin> set (rx_rejected ctx)) (rx_candidates ctx)"

definition quantum_stage ::
    "rng \<Rightarrow> datetime \<Rightarrow> quantum_router \<Rightarrow> message \<Rightarrow> routing_context \<Rightarrow>
     quantum_router \<times> routing_context \<times> bool" where
  "quantum_stage r now q msg ctx =
     (if rx_candidates ctx = [] then (q, ctx, False)
      else if valid_candidates ctx = [] then (q, explain ''quantum: no valid candidates'' ctx, False)
      else case quantum_route r q now msg (valid_candidates ctx) of
             (q', Some selected) \<Rightarrow>
               (q', explain (''quantum selected '' @ selected) ctx\<lparr>rx_selected := Some selected\<rparr>, True)
           | (q', None) \<Rightarrow> (q', explain ''quantum: no selection'' ctx, False))"

definition fallback_stage :: "routing_context \<Rightarrow> routing_context \<times> bool" where
  "fallback_stage ctx =
     (case valid_candidates ctx of
        first # _ \<Rightarrow> (explain (''fallback selected '' @ first) ctx\<lparr>rx_selected := Some first\<rparr>, True)
      | [] \<Rightarrow> (explain ''fallback: no candidates available'' ctx, False))"

definition is_offline :: "endpoints \<Rightarrow> string \<Rightarrow> bool" where
  "is_offline eps i =
     (case eps i of Some ep \<Rightarrow> eh_status (ep_health ep) = Offline | None \<Rightarrow> False)"

text \<open>The \<open>retain\<close> of the circuit stage: kept candidates, newly rejected ones, in order.\<close>

fun circuit_retain ::
    "instant \<Rightarrow> endpoints \<Rightarrow> circuit_breaker \<Rightarrow> string list \<Rightarrow> circuit_breaker \<times> string list \<times> string list" where
  "circuit_retain now eps cb [] = (cb, [], [])"
| "circuit_retain now eps cb (c # cs) =
     (let (cb', ok) = circuit_allow cb now c;
          (cb'', kept, rej) = circuit_retain now eps cb' cs
      in if \<not> ok then (cb'', kept, c # rej)
         else if is_offline eps c then (cb'', kept, c # rej)
         else (cb'', c # kept, rej))"

definition circuit_stage ::
    "instant \<Rightarrow> endpoints \<Rightarrow> circuit_breaker \<Rightarrow> routing_context \<Rightarrow> circuit_breaker \<times> routing_context \<times> bool" where
  "circuit_stage now eps cb ctx =
     (let before_count = length (rx_candidates ctx);
          (cb', kept, rej) = circuit_retain now eps cb (rx_candidates ctx);
          ctx1 = ctx\<lparr>rx_candidates := kept, rx_rejected := rx_rejected ctx @ rej\<rparr>;
          after_count = length kept
      in (cb', if after_count < before_count
               then explain (''circuit breaker filtered '' @ show_nat (before_count - after_count) @
                      '' endpoint(s)'') ctx1
               else ctx1, False))"

fun apply_stage ::
    "'re routing_env \<Rightarrow> 're stage \<Rightarrow> message \<Rightarrow> routing_state \<Rightarrow> routing_context \<Rightarrow>
     routing_state \<times> routing_context \<times> bool" where
  "apply_stage env (McpStage mcp) msg s ctx = (let (ctx', fin) = mcp_stage mcp msg ctx in (s, ctx', fin))"
| "apply_stage env (PlumberStage p) msg s ctx =
     (let (ctx', fin) = plumber_stage (re_lib env) p msg ctx in (s, ctx', fin))"
| "apply_stage env QuantumStage msg s ctx =
     (let (q', ctx', fin) = quantum_stage (re_rng env) (re_now env) (rs_quantum s) msg ctx
      in (s\<lparr>rs_quantum := q'\<rparr>, ctx', fin))"
| "apply_stage env FallbackStage msg s ctx = (let (ctx', fin) = fallback_stage ctx in (s, ctx', fin))"
| "apply_stage env (CircuitStage eps) msg s ctx =
     (let (cb', ctx', fin) = circuit_stage (re_instant env) eps (rs_circuit s) ctx
      in (s\<lparr>rs_circuit := cb'\<rparr>, ctx', fin))"

section \<open>The pipeline\<close>

fun run_stages ::
    "'re routing_env \<Rightarrow> 're stage list \<Rightarrow> message \<Rightarrow> routing_state \<Rightarrow> routing_context \<Rightarrow>
     routing_state \<times> routing_context" where
  "run_stages env [] msg s ctx = (s, ctx)"
| "run_stages env (st # sts) msg s ctx =
     (let (s', ctx', is_final) = apply_stage env st msg s ctx
      in if is_final then (s', ctx') else run_stages env sts msg s' ctx')"

definition pipeline_route ::
    "'re routing_env \<Rightarrow> 're stage list \<Rightarrow> message \<Rightarrow> routing_state \<Rightarrow> routing_state \<times> routing_decision" where
  "pipeline_route env stages msg s =
     (let (s', ctx) = run_stages env stages msg s (context_new []) in (s', into_decision ctx))"

text \<open>Whether the hub has a quantum router and a breaker is decided by its configuration.\<close>

definition default_pipeline ::
    "mcp_registry \<Rightarrow> 're plumber \<Rightarrow> bool \<Rightarrow> bool \<Rightarrow> endpoints \<Rightarrow> 're stage list" where
  "default_pipeline mcp plumber has_quantum has_circuit eps =
     [McpStage mcp, PlumberStage plumber] @
     (if has_circuit then [CircuitStage eps] else []) @
     (if has_quantum then [QuantumStage] else []) @
     [FallbackStage]"

section \<open>The contract of a stage\<close>

text \<open>
  What the trait promises: a stage that says it is final has made the selection, one that says it is
  not has left the selection as it was; and no stage takes back a rejection or an explanation.
\<close>

locale router_stage =
  fixes stage :: "message \<Rightarrow> 's \<Rightarrow> routing_context \<Rightarrow> 's \<times> routing_context \<times> bool"
  assumes final_selects: "stage msg s ctx = (s', ctx', True) \<Longrightarrow> rx_selected ctx' \<noteq> None"
    and not_final_keeps: "stage msg s ctx = (s', ctx', False) \<Longrightarrow> rx_selected ctx' = rx_selected ctx"
    and rejected_grows: "stage msg s ctx = (s', ctx', fin) \<Longrightarrow>
      \<exists>rej. rx_rejected ctx' = rx_rejected ctx @ rej"
    and explanation_grows: "stage msg s ctx = (s', ctx', fin) \<Longrightarrow>
      \<exists>ex. rx_explanation ctx' = rx_explanation ctx @ ex"
begin

lemma final_iff:
  "rx_selected ctx = None \<Longrightarrow> snd (snd (stage msg s ctx)) \<longleftrightarrow>
     rx_selected (fst (snd (stage msg s ctx))) \<noteq> None"
  using final_selects [of msg s ctx] not_final_keeps [of msg s ctx]
  by (cases "stage msg s ctx"; cases "snd (snd (stage msg s ctx))") auto

lemma rejected_subset: "set (rx_rejected ctx) \<subseteq> set (rx_rejected (fst (snd (stage msg s ctx))))"
  using rejected_grows [of msg s ctx "fst (stage msg s ctx)" "fst (snd (stage msg s ctx))" "snd (snd (stage msg s ctx))"]
  by auto

end

interpretation staged: router_stage "apply_stage env st" for env :: "'re routing_env" and st
proof
  fix msg s ctx s' ctx' fin
  show "rx_selected ctx' \<noteq> None" if "apply_stage env st msg s ctx = (s', ctx', True)"
    using that
    by (cases st) (auto simp: mcp_stage_def plumber_stage_def quantum_stage_def fallback_stage_def
        circuit_stage_def explain_def Let_def split: if_splits option.splits list.splits prod.splits)
  show "rx_selected ctx' = rx_selected ctx" if "apply_stage env st msg s ctx = (s', ctx', False)"
    using that
    by (cases st) (auto simp: mcp_stage_def plumber_stage_def quantum_stage_def fallback_stage_def
        circuit_stage_def explain_def Let_def split: if_splits option.splits list.splits prod.splits)
  show "\<exists>rej. rx_rejected ctx' = rx_rejected ctx @ rej" if "apply_stage env st msg s ctx = (s', ctx', fin)"
    using that
    by (cases st) (auto simp: mcp_stage_def plumber_stage_def quantum_stage_def fallback_stage_def
        circuit_stage_def explain_def Let_def split: if_splits option.splits list.splits prod.splits)
  show "\<exists>ex. rx_explanation ctx' = rx_explanation ctx @ ex" if "apply_stage env st msg s ctx = (s', ctx', fin)"
    using that
    by (cases st) (auto simp: mcp_stage_def plumber_stage_def quantum_stage_def fallback_stage_def
        circuit_stage_def explain_def Let_def split: if_splits option.splits list.splits prod.splits)
qed

section \<open>What the breaker lets through\<close>

text \<open>Asking about one destination does not change the answer about another.\<close>

lemma allow_other:
  "c' \<noteq> c \<Longrightarrow> snd (circuit_allow (fst (circuit_allow cb now c)) now c') = snd (circuit_allow cb now c')"
  by (simp add: circuit_allow_def split_beta circuit_entry_def entry_or_def allow_entry_def
      split: circuit_state.split option.split)

lemma circuit_retain_members:
  assumes "circuit_retain now eps cb cs = (cb', kept, rej)"
  shows "set kept \<union> set rej = set cs \<and> (\<forall>c \<in> set kept. \<not> is_offline eps c) \<and>
    (\<forall>c \<in> set cs. c \<notin> set rej \<longrightarrow> snd (circuit_allow cb now c)) \<and>
    (distinct cs \<longrightarrow> (\<forall>c \<in> set rej. \<not> snd (circuit_allow cb now c) \<or> is_offline eps c))"
  using assms
proof (induction cs arbitrary: cb cb' kept rej)
  case (Cons c cs)
  let ?cb = "fst (circuit_allow cb now c)"
  obtain cb2 kept2 rej2 where r: "circuit_retain now eps ?cb cs = (cb2, kept2, rej2)"
    by (cases "circuit_retain now eps ?cb cs") auto
  note ih = Cons.IH [OF r]
  have k: "(kept, rej) = (if \<not> snd (circuit_allow cb now c) \<or> is_offline eps c
      then (kept2, c # rej2) else (c # kept2, rej2))"
    using Cons.prems r by (auto simp: Let_def split_beta split: if_splits)
  have other: "snd (circuit_allow ?cb now x) = snd (circuit_allow cb now x)" if "x \<noteq> c" for x
    using that by (rule allow_other)
  have old: "\<not> snd (circuit_allow cb now x) \<or> is_offline eps x"
    if "distinct (c # cs)" and "x \<in> set rej2" for x
  proof -
    have "x \<noteq> c" using ih that by auto
    then show ?thesis using ih other [of x] that by auto
  qed
  have fresh: "snd (circuit_allow cb now x)"
    if "x \<in> set cs" and "x \<notin> set rej2" and "x = c \<Longrightarrow> snd (circuit_allow cb now c)" for x
    using ih other [of x] that by (cases "x = c") auto
  show ?case
  proof (cases "\<not> snd (circuit_allow cb now c) \<or> is_offline eps c")
    case True
    with k have "kept = kept2" "rej = c # rej2" by auto
    then show ?thesis using ih fresh old True by auto
  next
    case False
    with k have "kept = c # kept2" "rej = rej2" by auto
    then show ?thesis using ih fresh old False by auto
  qed
qed simp

text \<open>The candidates that reach the selecting stages, and the breaker after asking it.\<close>

definition screened ::
    "'re routing_env \<Rightarrow> endpoints \<Rightarrow> bool \<Rightarrow> routing_state \<Rightarrow> string list \<Rightarrow> circuit_breaker \<times> string list \<times> string list" where
  "screened env eps has_circuit s dests =
     (if has_circuit then circuit_retain (re_instant env) eps (rs_circuit s) dests
      else (rs_circuit s, dests, []))"

definition known_tool :: "mcp_registry \<Rightarrow> message \<Rightarrow> string option" where
  "known_tool mcp msg =
     (if m_msg_type msg = ''mcp_tool_call'' then find_endpoint_for_tool mcp (requested_tool msg) else None)"

lemma mcp_stage_unknown: "known_tool mcp msg = None \<Longrightarrow> mcp_stage mcp msg ctx = (ctx, False)"
  by (auto simp: mcp_stage_def known_tool_def Let_def split: if_splits)

lemma pipeline_known_tool:
  "known_tool mcp msg = Some endpoint \<Longrightarrow>
     fst (pipeline_route env (default_pipeline mcp p hq hc eps) msg s) = s \<and>
     rd_selected (snd (pipeline_route env (default_pipeline mcp p hq hc eps) msg s)) = Some endpoint"
  by (simp add: pipeline_route_def default_pipeline_def mcp_stage_def known_tool_def Let_def
      into_decision_def explain_def split: if_splits)

text \<open>The two selecting stages.\<close>

lemma selecting_stages:
  assumes "rng_ok (re_rng env)" and "rx_selected ctx = None"
    and "run_stages env ((if hq then [QuantumStage] else []) @ [FallbackStage]) msg s ctx = (s', ctx')"
  shows "rs_circuit s' = rs_circuit s \<and> rx_candidates ctx' = rx_candidates ctx \<and>
    (rx_selected ctx' = None \<longleftrightarrow> valid_candidates ctx = []) \<and>
    (\<forall>ep. rx_selected ctx' = Some ep \<longrightarrow> ep \<in> set (valid_candidates ctx))"
proof (cases "valid_candidates ctx = []")
  case True
  then show ?thesis using assms(2,3)
    by (cases hq) (auto simp: quantum_stage_def fallback_stage_def explain_def Let_def
        valid_candidates_def split: if_splits)
next
  case False
  then have ne: "rx_candidates ctx \<noteq> []" by (auto simp: valid_candidates_def)
  from sample_endpoint_from_candidates [OF assms(1) False route_distribution_fst]
  obtain ep where "sample_endpoint_from (re_rng env) (qc_exploration_rate (qr_config (rs_quantum s)))
      (valid_candidates ctx) (snd (route_distribution (rs_quantum s) (re_now env) msg (valid_candidates ctx)))
      = Some ep" and ep: "ep \<in> set (valid_candidates ctx)"
    by metis
  from conjunct1 [OF quantum_route_nonempty [OF False this(1)]]
  obtain q' where "quantum_route (re_rng env) (rs_quantum s) (re_now env) msg (valid_candidates ctx) = (q', Some ep)"
    by (metis prod.collapse)
  then show ?thesis using assms(2,3) ne ep False
    by (cases hq; cases "valid_candidates ctx")
      (auto simp: quantum_stage_def fallback_stage_def explain_def Let_def)
qed

lemma circuit_stage_screened:
  "run_stages env ((if hc then [CircuitStage eps] else []) @ sts) msg s
     \<lparr>rx_candidates = dests, rx_selected = None, rx_explanation = ex, rx_rejected = []\<rparr> =
   (let (cb', kept, rej) = screened env eps hc s dests in
    run_stages env sts msg (s\<lparr>rs_circuit := cb'\<rparr>)
      \<lparr>rx_candidates = kept, rx_selected = None,
       rx_explanation = ex @ (if length kept < length dests
         then [''circuit breaker filtered '' @ show_nat (length dests - length kept) @ '' endpoint(s)''] else []),
       rx_rejected = rej\<rparr>)"
  by (simp add: screened_def circuit_stage_def explain_def Let_def split_beta)

lemma pipeline_selection:
  assumes "known_tool mcp msg = None"
    and "screened env eps hc s (plumber_route (re_lib env) p msg) = (cb', kept, rej)"
    and "rng_ok (re_rng env)"
    and "pipeline_route env (default_pipeline mcp p hq hc eps) msg s = (s', d)"
  shows "rs_circuit s' = cb' \<and> rd_candidates d = kept \<and>
    (rd_selected d = None \<longleftrightarrow> filter (\<lambda>c. c \<notin> set rej) kept = []) \<and>
    (\<forall>ep. rd_selected d = Some ep \<longrightarrow> ep \<in> set kept \<and> ep \<notin> set rej)"
proof -
  let ?sel = "(if hq then [QuantumStage] else []) @ [FallbackStage] :: 'a stage list"
  obtain ex ctx' where run: "run_stages env ?sel msg (s\<lparr>rs_circuit := cb'\<rparr>)
      \<lparr>rx_candidates = kept, rx_selected = None, rx_explanation = ex, rx_rejected = rej\<rparr> = (s', ctx')"
    and d: "d = into_decision ctx'"
    using assms(4)
    by (simp add: pipeline_route_def default_pipeline_def mcp_stage_unknown [OF assms(1)] plumber_stage_def
        Let_def context_new_def explain_def circuit_stage_screened assms(2) split_beta)
      (metis prod.collapse)
  show ?thesis
    using selecting_stages [OF assms(3) _ run] by (auto simp: d into_decision_def valid_candidates_def)
qed

section \<open>Properties\<close>


definition sample_env :: "string routing_env" where
  "sample_env = \<lparr>re_lib = prefix_lib, re_rng = first_rng, re_instant = 100, re_now = 100\<rparr>"

definition to_dest :: "string \<Rightarrow> string \<Rightarrow> string plumber_rule" where
  "to_dest pat dest =
     \<lparr>pr_name = pat, pr_pattern = pat, pr_destination = dest, pr_priority = 0, pr_header_match = None\<rparr>"

definition sample_note :: message where
  "sample_note = message_new 1 2 0 ''me'' ''/p'' ''note''"

lemma sample_note_routes:
  "plumber_route prefix_lib [to_dest ''type:note'' a, to_dest ''type:'' b] sample_note = [a, b]"
  by (simp add: plumber_route_def matches_def to_dest_def prefix_lib_def sample_note_def haystack_def
      message_new_def starts_with_def)

lemma sample_note_no_tool: "known_tool mcp sample_note = None"
  by (simp add: known_tool_def sample_note_def message_new_def)


text \<open>
  A call of a tool that the index knows goes to the endpoint of the index at once: neither the
  plumber nor the breaker nor the endpoint's health is consulted, and nothing is recorded.
\<close>

theorem pipeline_tool_call:
  assumes "m_msg_type msg = ''mcp_tool_call''"
    and "find_endpoint_for_tool mcp (requested_tool msg) = Some endpoint"
  shows "fst (pipeline_route env (default_pipeline mcp p hq hc eps) msg s) = s \<and>
    rd_selected (snd (pipeline_route env (default_pipeline mcp p hq hc eps) msg s)) = Some endpoint \<and>
    rd_candidates (snd (pipeline_route env (default_pipeline mcp p hq hc eps) msg s)) = []"
  using assms
  by (simp add: pipeline_route_def default_pipeline_def mcp_stage_def Let_def into_decision_def
      explain_def context_new_def)

theorem pipeline_tool_call_witness:
  "rd_selected (snd (pipeline_route sample_env
      (default_pipeline (mcp_new\<lparr>mr_tool_index := [''search'' \<mapsto> ''e'']\<rparr>) [] True True Map.empty)
      (with_data (message_new 1 2 0 ''me'' ''/p'' ''mcp_tool_call'') (Some (JObject [(''tool'', JString ''search'')])))
      \<lparr>rs_circuit = circuit_new 1 60 1, rs_quantum = quantum_router_new quantum_config_default\<rparr>)) = Some ''e''"
proof -
  let ?msg = "with_data (message_new 1 2 0 ''me'' ''/p'' ''mcp_tool_call'') (Some (JObject [(''tool'', JString ''search'')]))"
  have "m_msg_type ?msg = ''mcp_tool_call''"
    and "find_endpoint_for_tool (mcp_new\<lparr>mr_tool_index := [''search'' \<mapsto> ''e'']\<rparr>) (requested_tool ?msg) = Some ''e''"
    by (simp_all add: with_data_def message_new_def find_endpoint_for_tool_def requested_tool_def)
  then show ?thesis by (rule conjunct1 [OF conjunct2 [OF pipeline_tool_call]])
qed

text \<open>
  Two rules with the same destination can lose a message that either rule alone would deliver. When
  the destination's circuit is half-open with one trial call left, the breaker admits its first
  occurrence and refuses the second; the refusal is by name, so both are discarded, nothing is
  selected, and the trial call is spent.
\<close>

theorem pipeline_duplicate_starves:
  assumes "known_tool mcp msg = None" and "rng_ok (re_rng env)"
    and "plumber_route (re_lib env) p msg = [ep, ep]" and "plumber_route (re_lib env) p' msg = [ep]"
    and "cb_state (rs_circuit s) ep = Some e" and "ec_state e = HalfOpen"
    and "ec_half_open_calls e + 1 = cb_half_open_max_calls (rs_circuit s)"
    and "ec_half_open_calls e < cb_half_open_max_calls (rs_circuit s)" and "\<not> is_offline eps ep"
  shows "rd_selected (snd (pipeline_route env (default_pipeline mcp p hq True eps) msg s)) = None \<and>
    cb_state (rs_circuit (fst (pipeline_route env (default_pipeline mcp p hq True eps) msg s))) ep
      = Some (e\<lparr>ec_half_open_calls := cb_half_open_max_calls (rs_circuit s)\<rparr>) \<and>
    rd_selected (snd (pipeline_route env (default_pipeline mcp p' hq True eps) msg s)) = Some ep"
proof -
  let ?e = "e\<lparr>ec_half_open_calls := cb_half_open_max_calls (rs_circuit s)\<rparr>"
  let ?cb = "(rs_circuit s)\<lparr>cb_state := (cb_state (rs_circuit s))(ep \<mapsto> ?e)\<rparr>"
  have a1: "circuit_allow (rs_circuit s) now ep = (?cb, True)" for now
    using assms(5-8) by (simp add: circuit_allow_def circuit_entry_def allow_entry_def)
  have a2: "circuit_allow ?cb now ep = (?cb, False)" for now
    using assms(6) by (simp add: circuit_allow_def circuit_entry_def allow_entry_def)
  have "screened env eps True s (plumber_route (re_lib env) p msg) = (?cb, [ep], [ep])"
    using assms(9) by (simp add: screened_def assms(3) a1 a2 Let_def)
  from pipeline_selection [OF assms(1) this assms(2)]
  have two: "rs_circuit s' = ?cb \<and> rd_selected d = None"
    if "pipeline_route env (default_pipeline mcp p hq True eps) msg s = (s', d)" for s' d
    using that by simp
  have "screened env eps True s (plumber_route (re_lib env) p' msg) = (?cb, [ep], [])"
    using assms(9) by (simp add: screened_def assms(4) a1 Let_def)
  note solo = pipeline_selection [OF assms(1) this assms(2)]
  have one: "rd_selected d = Some ep"
    if "pipeline_route env (default_pipeline mcp p' hq True eps) msg s = (s', d)" for s' d
    using solo [OF that] by (cases "rd_selected d") auto
  show ?thesis
    using two [OF prod.collapse [symmetric]] one [OF prod.collapse [symmetric]] by simp
qed

theorem pipeline_duplicate_starves_witness:
  "rd_selected (snd (pipeline_route sample_env
      (default_pipeline mcp_new [to_dest ''type:note'' ''/a'', to_dest ''type:'' ''/a''] True True Map.empty) sample_note
      \<lparr>rs_circuit = (circuit_new 1 60 2)\<lparr>cb_state := [''/a'' \<mapsto>
          \<lparr>ec_state = HalfOpen, ec_failures = 1, ec_last_failure = Some 0, ec_half_open_calls = 1\<rparr>]\<rparr>,
       rs_quantum = quantum_router_new quantum_config_default\<rparr>)) = None"
proof -
  have one: "plumber_route prefix_lib [to_dest ''type:note'' ''/a''] sample_note = [''/a'']"
    by (simp add: plumber_route_def matches_def to_dest_def prefix_lib_def sample_note_def haystack_def
        message_new_def starts_with_def)
  show ?thesis
    using pipeline_duplicate_starves [OF sample_note_no_tool, where env = sample_env and ep = "''/a''"
        and p = "[to_dest ''type:note'' ''/a'', to_dest ''type:'' ''/a'']" and p' = "[to_dest ''type:note'' ''/a'']"
        and hq = True and eps = Map.empty and s = "\<lparr>rs_circuit = (circuit_new 1 60 2)\<lparr>cb_state := [''/a'' \<mapsto>
          \<lparr>ec_state = HalfOpen, ec_failures = 1, ec_last_failure = Some 0, ec_half_open_calls = 1\<rparr>]\<rparr>,
         rs_quantum = quantum_router_new quantum_config_default\<rparr>"]
    by (simp add: sample_env_def first_rng_ok sample_note_routes one circuit_new_def is_offline_def)
qed

end
