(* ===== verification/Handlers.thy ===== *)
theory Handlers
  imports Transport Proxy Store Router
begin

text \<open>
  The HTTP handlers: the public API of \<open>src/api.rs\<close> and the older routes of \<open>src/daemon.rs\<close>, most of which
  are copies of the same code under another path, and the RPC handler with the envelope of
  \<open>src/grpc.rs\<close>. The shared state of \<open>src/state.rs\<close> is the record \<open>app\<close>; a handler maps it to the new
  state, the frames sent to agents' channels, and the answer: a status code and a body. A task that a
  handler spawns to write to the store is part of the handler's effect. Iteration orders of the maps,
  clocks and libraries are the handler's environment.
\<close>

section \<open>State and environment\<close>

record 're app =
  ap_hub :: "'re transport"
  ap_endpoints :: endpoints
  ap_store :: store
  ap_mcp :: mcp_registry
  ap_circuit :: "circuit_breaker option"
  ap_default_model :: string
  ap_model_aliases :: "string \<rightharpoonup> string"

text \<open>Of the configuration the handlers use the model names only.\<close>

definition state_manager_new ::
    "agent_registry \<Rightarrow> endpoints \<Rightarrow> vfs \<Rightarrow> 're plumber \<Rightarrow> quantum_router option \<Rightarrow> message_queue \<Rightarrow> store \<Rightarrow>
     mcp_registry \<Rightarrow> circuit_breaker option \<Rightarrow> string \<Rightarrow> (string \<rightharpoonup> string) \<Rightarrow> 're app" where
  "state_manager_new agents eps v plumber quantum queue st mcp circuit model aliases =
     \<lparr>ap_hub = \<lparr>tp_agents = agents, tp_vfs = v, tp_plumber = plumber, tp_quantum = quantum, tp_queue = queue\<rparr>,
      ap_endpoints = eps, ap_store = st, ap_mcp = mcp, ap_circuit = circuit,
      ap_default_model = model, ap_model_aliases = aliases\<rparr>"

definition state_emit :: "codec \<Rightarrow> ((string \<rightharpoonup> json) \<Rightarrow> string) \<Rightarrow> event \<Rightarrow> 're app \<Rightarrow> 're app" where
  "state_emit cd metadata_text ev app = app\<lparr>ap_store := emit cd metadata_text True (ap_store app) ev\<rparr>"

record 're http_env =
  he_op :: "'re op_env"
  he_instant :: instant
  he_codec :: codec
  he_time :: "datetime \<Rightarrow> json"
  he_mcp :: mcp_http
  he_proxy :: proxy_env
  he_agents :: "string list"
  he_endpoints :: "string list"
  he_nodes :: "string list"
  he_tools :: "string list"
  he_circuits :: "string list"
  he_conversations :: "uuid list"
  he_states :: "uuid \<Rightarrow> string list"
  he_lock :: "string \<Rightarrow> bool"
  he_read_message :: "json \<Rightarrow> message result"
  he_read_chat :: "json \<Rightarrow> chat_request result"

datatype http_body = BodyJson json | BodyResponse message_response | BodyProxy proxy_answer

type_synonym http_answer = "u16 \<times> http_body"

definition json_error :: "u16 \<Rightarrow> string \<Rightarrow> http_answer" where
  "json_error code e = (code, BodyJson (JObject [(''error'', JString e)]))"

definition json_nat :: "('a :: len) word \<Rightarrow> json" where
  "json_nat n = JNumber (NInt (uint n))"

section \<open>Agents\<close>

definition agent_json :: "(datetime \<Rightarrow> json) \<Rightarrow> agent \<Rightarrow> json" where
  "agent_json tm a =
     JObject [(''id'', JString (ag_id a)), (''hostname'', JString (ag_hostname a)),
       (''namespace'', JString (ag_namespace a)), (''connected_at'', tm (ag_connected_at a)),
       (''last_heartbeat'', tm (ag_last_heartbeat a))]"

definition list_agents :: "'re http_env \<Rightarrow> 're app \<Rightarrow> http_answer" where
  "list_agents env app =
     (200, BodyJson (JObject [(''agents'',
        JArray (map (agent_json (he_time env)) (agents_list (he_agents env) (tp_agents (ap_hub app)))))]))"

definition get_agent :: "'re http_env \<Rightarrow> 're app \<Rightarrow> string \<Rightarrow> http_answer" where
  "get_agent env app i =
     (case agents_get (tp_agents (ap_hub app)) i of
        Some a \<Rightarrow> (200, BodyJson (agent_json (he_time env) a))
      | None \<Rightarrow> json_error 404 ''agent not found'')"

definition register_agent :: "http_answer" where
  "register_agent = json_error 501 ''use /ws/{agent_id} for registration''"

definition unregister_agent :: "'re http_env \<Rightarrow> 're app \<Rightarrow> string \<Rightarrow> 're app \<times> http_answer" where
  "unregister_agent env app i =
     (let hub = ap_hub app;
          reg = fst (agents_unregister (tp_agents hub) i);
          v = unmount_agent_ns (he_lock env) (he_nodes env) i (tp_vfs hub)
      in (app\<lparr>ap_hub := hub\<lparr>tp_agents := reg, tp_vfs := v\<rparr>\<rparr>,
          (200, BodyJson (JObject [(''status'', JString ''unregistered'')]))))"

definition agent_messages :: "http_answer" where
  "agent_messages = json_error 501 ''not yet implemented''"

section \<open>Endpoints\<close>

definition endpoint_json :: "(datetime \<Rightarrow> json) \<Rightarrow> ai_endpoint \<Rightarrow> json" where
  "endpoint_json tm ep =
     JObject [(''id'', JString (ep_id ep)), (''name'', JString (ep_name ep)), (''url'', JString (ep_url ep)),
       (''endpoint_type'', JString (show_endpoint_type (ep_endpoint_type ep))),
       (''health'', JObject [(''status'', JString (show_health (eh_status (ep_health ep)))),
          (''last_checked'', tm (eh_last_checked (ep_health ep))),
          (''latency_ms'', json_nat (eh_probe_latency_ms (ep_health ep))),
          (''consecutive_failures'', json_nat (eh_consecutive_failures (ep_health ep)))]),
       (''tags'', JArray (map JString (ep_tags ep)))]"

definition list_endpoints :: "'re http_env \<Rightarrow> 're app \<Rightarrow> http_answer" where
  "list_endpoints env app =
     (200, BodyJson (JObject [(''endpoints'',
        JArray (collect (he_endpoints env) (\<lambda>_. endpoint_json (he_time env)) (ap_endpoints app)))]))"

definition get_endpoint :: "'re app \<Rightarrow> string \<Rightarrow> http_answer" where
  "get_endpoint app i =
     (case ap_endpoints app i of
        Some ep \<Rightarrow>
          (200, BodyJson (JObject [(''id'', JString (ep_id ep)), (''name'', JString (ep_name ep)),
             (''url'', JString (ep_url ep)),
             (''endpoint_type'', JString (show_endpoint_type (ep_endpoint_type ep))),
             (''health'', JObject [(''status'', JString (show_health (eh_status (ep_health ep)))),
                (''latency_ms'', json_nat (eh_probe_latency_ms (ep_health ep)))]),
             (''tags'', JArray (map JString (ep_tags ep)))]))
      | None \<Rightarrow> json_error 404 ''endpoint not found'')"

definition endpoint_health_handler :: "'re app \<Rightarrow> string \<Rightarrow> http_answer" where
  "endpoint_health_handler app i =
     (case ap_endpoints app i of
        Some ep \<Rightarrow>
          (200, BodyJson (JObject [(''endpoint_id'', JString i),
             (''status'', JString (show_health (eh_status (ep_health ep)))),
             (''latency_ms'', json_nat (eh_probe_latency_ms (ep_health ep))),
             (''consecutive_failures'', json_nat (eh_consecutive_failures (ep_health ep)))]))
      | None \<Rightarrow> json_error 404 ''endpoint not found'')"

section \<open>Files\<close>

definition not_found_path :: "string \<Rightarrow> http_answer" where
  "not_found_path path = (404, BodyJson (JObject [(''error'', JString ''not found''), (''path'', JString path)]))"

definition vfs_read :: "'re http_env \<Rightarrow> 're app \<Rightarrow> string \<Rightarrow> http_answer" where
  "vfs_read env app path =
     (let v = tp_vfs (ap_hub app) in
      case vfs_get v path of
        Some node \<Rightarrow>
          if is_dir node
          then (200, BodyJson (JObject [(''path'', JString path), (''type'', JString ''dir''),
                  (''children'', JArray (map JString (vfs_list (he_nodes env) v path)))]))
          else (200, BodyJson (JObject [(''path'', JString path),
                  (''data'', JString (utf8_lossy (string_of_bytes (vnode_read (vf_heap v) node))))]))
      | None \<Rightarrow> not_found_path path)"

definition vfs_write :: "'re app \<Rightarrow> string \<Rightarrow> string \<Rightarrow> 're app \<times> http_answer" where
  "vfs_write app path body =
     (let v = tp_vfs (ap_hub app) in
      case vfs_get v path of
        Some node \<Rightarrow>
          if is_dir node
          then (app, (400, BodyJson (JObject [(''error'', JString ''cannot write to directory''), (''path'', JString path)])))
          else (let (h, r) = vnode_write (vf_heap v) node (as_bytes body);
                    app' = app\<lparr>ap_hub := (ap_hub app)\<lparr>tp_vfs := v\<lparr>vf_heap := h\<rparr>\<rparr>\<rparr>
                in case r of
                     Inr _ \<Rightarrow> (app', (200, BodyJson (JObject [(''path'', JString path), (''status'', JString ''written'')])))
                   | Inl e \<Rightarrow> (app', (400, BodyJson (JObject [(''error'', JString e), (''path'', JString path)]))))
      | None \<Rightarrow> (app, not_found_path path))"

definition vfs_delete :: "'re http_env \<Rightarrow> 're app \<Rightarrow> string \<Rightarrow> 're app \<times> http_answer" where
  "vfs_delete env app path =
     (let (v, removed) = vfs_remove (he_lock env path) path (tp_vfs (ap_hub app));
          app' = app\<lparr>ap_hub := (ap_hub app)\<lparr>tp_vfs := v\<rparr>\<rparr>
      in case removed of
           Some _ \<Rightarrow> (app', (200, BodyJson (JObject [(''path'', JString path), (''status'', JString ''deleted'')])))
         | None \<Rightarrow> (app', not_found_path path))"

section \<open>Messages\<close>

text \<open>The pipeline shares the breaker and the quantum router with the rest of the hub.\<close>

definition app_routing :: "'re app \<Rightarrow> routing_state" where
  "app_routing app =
     \<lparr>rs_circuit = (case ap_circuit app of Some c \<Rightarrow> c | None \<Rightarrow> circuit_new 0 0 0),
      rs_quantum = (case tp_quantum (ap_hub app) of Some q \<Rightarrow> q | None \<Rightarrow> quantum_router_new quantum_config_default)\<rparr>"

definition with_routing :: "'re app \<Rightarrow> routing_state \<Rightarrow> 're app" where
  "with_routing app rs =
     app\<lparr>ap_circuit := map_option (\<lambda>_. rs_circuit rs) (ap_circuit app),
         ap_hub := (ap_hub app)\<lparr>tp_quantum := map_option (\<lambda>_. rs_quantum rs) (tp_quantum (ap_hub app))\<rparr>\<rparr>"

definition app_pipeline :: "'re app \<Rightarrow> 're stage list" where
  "app_pipeline app =
     default_pipeline (ap_mcp app) (tp_plumber (ap_hub app)) (tp_quantum (ap_hub app) \<noteq> None)
       (ap_circuit app \<noteq> None) (ap_endpoints app)"

definition route_in_app :: "'re http_env \<Rightarrow> 're app \<Rightarrow> message \<Rightarrow> 're app \<times> routing_decision" where
  "route_in_app env app msg =
     (let renv = \<lparr>re_lib = oe_lib (he_op env), re_rng = oe_rng (he_op env), re_instant = he_instant env,
                  re_now = oe_now (he_op env)\<rparr>;
          (rs, decision) = pipeline_route renv (app_pipeline app) msg (app_routing app)
      in (with_routing app rs, decision))"

definition persist_message :: "'re http_env \<Rightarrow> message \<Rightarrow> 're app \<Rightarrow> 're app" where
  "persist_message env msg app = app\<lparr>ap_store := fst (insert_message (he_codec env) (ap_store app) msg)\<rparr>"

definition dispatched :: "message \<Rightarrow> routing_decision \<Rightarrow> message_response" where
  "dispatched msg decision =
     \<lparr>mr_message_id = m_id msg, mr_status = Routed,
      mr_routed_to = (case rd_selected decision of Some d \<Rightarrow> [d] | None \<Rightarrow> []),
      mr_explanation = Some (rd_explanation decision), mr_latency_ms = 0\<rparr>"

text \<open>\<open>deliver\<close> is the handler's copy of the delivery.\<close>

definition deliver_selected ::
    "deliverer \<Rightarrow> 're http_env \<Rightarrow> 're app \<Rightarrow> message \<Rightarrow> string option \<Rightarrow> 're app \<times> sends" where
  "deliver_selected deliver env app msg selected =
     (case selected of
        None \<Rightarrow> (app, [])
      | Some dest \<Rightarrow>
          (let hub = ap_hub app;
               (mq, outs) = deliver (tp_agents hub) (tp_queue hub) (oe_now (he_op env)) (oe_ok (he_op env) 0) dest msg
           in (app\<lparr>ap_hub := hub\<lparr>tp_queue := mq\<rparr>\<rparr>, outs)))"

definition send_message :: "'re http_env \<Rightarrow> 're app \<Rightarrow> message \<Rightarrow> 're app \<times> sends \<times> http_answer" where
  "send_message env app msg =
     (let (app1, decision) = route_in_app env (persist_message env msg app) msg;
          (app2, outs) = deliver_selected deliver_ignoring env app1 msg (rd_selected decision)
      in (app2, outs, (200, BodyResponse (dispatched msg decision))))"

definition msg_handler :: "'re http_env \<Rightarrow> 're app \<Rightarrow> message \<Rightarrow> 're app \<times> sends \<times> http_answer" where
  "msg_handler env app msg =
     (let (app1, decision) = route_in_app env (persist_message env msg app) msg;
          (app2, outs) = deliver_selected deliver_requeue env app1 msg (rd_selected decision)
      in (app2, outs, (200, BodyResponse (dispatched msg decision))))"

definition list_messages :: "http_answer" where
  "list_messages = json_error 501 ''use /conversations/:id/messages''"

definition get_message :: "http_answer" where
  "get_message = json_error 501 ''not yet implemented''"

section \<open>Conversations\<close>

definition conversations_answer :: "(uuid \<times> int) list result \<Rightarrow> http_answer" where
  "conversations_answer r =
     (case r of
        Inr convs \<Rightarrow>
          (200, BodyJson (JObject [(''conversations'', JArray (map (\<lambda>(i, count).
             JObject [(''conversation_id'', JString (show_uuid i)), (''message_count'', JNumber (NInt count))]) convs))]))
      | Inl e \<Rightarrow> json_error 500 e)"

definition list_conversations_handler :: "'re http_env \<Rightarrow> 're app \<Rightarrow> http_answer" where
  "list_conversations_handler env app =
     conversations_answer (list_conversations (he_codec env) (ap_store app) 100)"

definition get_conversation :: "'re http_env \<Rightarrow> 're app \<Rightarrow> string \<Rightarrow> http_answer" where
  "get_conversation env app i =
     (case read_uuid (he_codec env) i of
        Inl e \<Rightarrow> json_error 400 ''invalid uuid''
      | Inr cid \<Rightarrow>
          (case get_messages_by_conversation (he_codec env) (ap_store app) cid 1 of
             Inr msgs \<Rightarrow>
               if msgs \<noteq> []
               then (200, BodyJson (JObject [(''conversation_id'', JString (show_uuid cid)), (''exists'', JBool True),
                       (''messages'', JNumber (NInt (int (length msgs))))]))
               else json_error 404 ''conversation not found''
           | Inl e \<Rightarrow> json_error 500 e))"

definition message_json :: "(datetime \<Rightarrow> json) \<Rightarrow> message \<Rightarrow> json" where
  "message_json tm m =
     JObject [(''id'', JString (show_uuid (m_id m))),
       (''parent_id'', case m_parent_id m of Some p \<Rightarrow> JString (show_uuid p) | None \<Rightarrow> JNull),
       (''conversation_id'', JString (show_uuid (m_conversation_id m))), (''timestamp'', tm (m_timestamp m)),
       (''sender'', JString (m_sender m)), (''path'', JString (m_path m)),
       (''msg_type'', JString (m_msg_type m)), (''data'', m_data m)]"

definition conversation_messages :: "'re http_env \<Rightarrow> 're app \<Rightarrow> string \<Rightarrow> http_answer" where
  "conversation_messages env app i =
     (case read_uuid (he_codec env) i of
        Inl e \<Rightarrow> json_error 400 ''invalid uuid''
      | Inr cid \<Rightarrow>
          (case get_messages_by_conversation (he_codec env) (ap_store app) cid 100 of
             Inr msgs \<Rightarrow> (200, BodyJson (JObject [(''messages'', JArray (map (message_json (he_time env)) msgs))]))
           | Inl e \<Rightarrow> json_error 500 e))"

definition diagnostic_json :: "endpoint_diagnostic \<Rightarrow> json" where
  "diagnostic_json d =
     (case d of (ep, prob, pulls, avg) \<Rightarrow>
        JObject [(''endpoint_id'', JString ep), (''probability'', JNumber (NFloat prob)),
          (''pulls'', json_nat pulls), (''avg_reward'', JNumber (NFloat avg))])"

text \<open>\<open>diagnostics\<close> creates the conversation's state when there is none.\<close>

definition conversation_quantum :: "'re http_env \<Rightarrow> 're app \<Rightarrow> string \<Rightarrow> 're app \<times> http_answer" where
  "conversation_quantum env app i =
     (case read_uuid (he_codec env) i of
        Inl e \<Rightarrow> (app, json_error 400 ''invalid uuid'')
      | Inr cid \<Rightarrow>
          (case tp_quantum (ap_hub app) of
             Some q \<Rightarrow>
               (let (q', diag) = quantum_diagnostics (he_states env cid) q (oe_now (he_op env)) cid
                in (app\<lparr>ap_hub := (ap_hub app)\<lparr>tp_quantum := Some q'\<rparr>\<rparr>,
                    (200, BodyJson (JObject [(''conversation_id'', JString (show_uuid cid)),
                       (''endpoints'', JArray (map diagnostic_json diag))]))))
           | None \<Rightarrow> (app, json_error 503 ''quantum mode disabled'')))"

section \<open>The proxy\<close>

definition app_proxy :: "'re app \<Rightarrow> proxy_state" where
  "app_proxy app =
     \<lparr>px_endpoints = ap_endpoints app, px_quantum = tp_quantum (ap_hub app),
      px_default_model = ap_default_model app, px_model_aliases = ap_model_aliases app,
      px_circuit = ap_circuit app\<rparr>"

definition ai_completions :: "'re http_env \<Rightarrow> 're app \<Rightarrow> chat_request \<Rightarrow> 're app \<times> proxy_answer" where
  "ai_completions env app req =
     (let (px, url, answer) = chat_completions (he_proxy env) (app_proxy app) req
      in (app\<lparr>ap_circuit := px_circuit px, ap_hub := (ap_hub app)\<lparr>tp_quantum := px_quantum px\<rparr>\<rparr>, answer))"

definition ai_models :: "'re http_env \<Rightarrow> 're app \<Rightarrow> http_answer" where
  "ai_models env app = (200, BodyJson (list_models (he_endpoints env) (px_endpoints (app_proxy app))))"

section \<open>Tools\<close>

definition tool_json :: "string \<Rightarrow> mcp_tool \<Rightarrow> json" where
  "tool_json i t =
     JObject [(''endpoint_id'', JString i), (''name'', JString (tool_name t)),
       (''description'', JString (tool_description t)), (''input_schema'', tool_input_schema t)]"

text \<open>\<open>he_tools\<close> orders the clients and the map of their tools.\<close>

definition list_mcp_tools :: "'re http_env \<Rightarrow> 're app \<Rightarrow> http_answer" where
  "list_mcp_tools env app =
     (200, BodyJson (JObject [(''tools'',
        JArray (concat (collect (he_tools env) (\<lambda>i tools. map (tool_json i) tools)
          (discover_all (he_mcp env) (he_tools env) (ap_mcp app)))))]))"

definition call_mcp_tool :: "'re http_env \<Rightarrow> 're app \<Rightarrow> string \<Rightarrow> json \<Rightarrow> http_answer" where
  "call_mcp_tool env app name body =
     (case call_tool_by_name (he_mcp env) (ap_mcp app) name body of
        Inr (Some j) \<Rightarrow> (200, BodyJson j)
      | Inr None \<Rightarrow> json_error 404 ''tool not found''
      | Inl e \<Rightarrow> json_error 502 e)"

section \<open>Quantum state and circuits\<close>

definition quantum_state_handler :: "'re http_env \<Rightarrow> 're app \<Rightarrow> http_answer" where
  "quantum_state_handler env app =
     (case tp_quantum (ap_hub app) of
        Some q \<Rightarrow>
          (200, BodyJson (JObject [(''status'', JString ''active''),
             (''conversation_count'', JNumber (NInt (int (quantum_conversation_count q)))),
             (''conversations'', JArray (map (\<lambda>(i, eps).
                JObject [(''conversation_id'', JString (show_uuid i)),
                  (''endpoints'', JArray (map diagnostic_json eps))])
               (all_diagnostics (he_conversations env) (he_states env) (qr_state q))))]))
      | None \<Rightarrow> (200, BodyJson (JObject [(''status'', JString ''disabled'')])))"

text \<open>The observation also persists the endpoint's new state; both writes happen in the background.\<close>

definition persist_observed ::
    "'re http_env \<Rightarrow> (uuid \<times> string \<times> endpoint_state) option \<Rightarrow> store \<Rightarrow> store" where
  "persist_observed env row st =
     (case row of
        Some (cid, ep, s) \<Rightarrow> save_quantum_state (he_codec env) (oe_now (he_op env)) st cid ep s
      | None \<Rightarrow> st)"

definition quantum_feedback_handler :: "'re http_env \<Rightarrow> 're app \<Rightarrow> feedback_event \<Rightarrow> 're app \<times> http_answer" where
  "quantum_feedback_handler env app feedback =
     (case tp_quantum (ap_hub app) of
        Some q \<Rightarrow>
          (let (q', row) = quantum_observe (he_states env (fe_message_id feedback)) q (oe_now (he_op env))
                 (fe_message_id feedback) (fe_endpoint_id feedback) (fe_success feedback) (fe_latency_ms feedback);
               st = insert_feedback (he_codec env) (persist_observed env row (ap_store app)) feedback
           in (app\<lparr>ap_hub := (ap_hub app)\<lparr>tp_quantum := Some q'\<rparr>, ap_store := st\<rparr>,
               (200, BodyJson (JObject [(''status'', JString ''observed'')]))))
      | None \<Rightarrow> (app, json_error 503 ''quantum mode disabled''))"

fun show_circuit_state :: "circuit_state \<Rightarrow> string" where
  "show_circuit_state Closed = ''closed''"
| "show_circuit_state Open = ''open''"
| "show_circuit_state HalfOpen = ''half_open''"

definition circuit_state_handler :: "'re http_env \<Rightarrow> 're app \<Rightarrow> http_answer" where
  "circuit_state_handler env app =
     (case ap_circuit app of
        Some c \<Rightarrow>
          (200, BodyJson (JObject [(''circuits'', JArray (map (\<lambda>(ep, st, failures).
             JObject [(''endpoint_id'', JString ep), (''state'', JString (show_circuit_state st)),
               (''failures'', json_nat failures)]) (circuit_diagnostics (he_circuits env) c)))]))
      | None \<Rightarrow> (200, BodyJson (JObject [(''status'', JString ''disabled'')])))"

section \<open>The orchestrator\<close>

record orchestrate_request =
  oq_intent :: string
  oq_input :: json
  oq_context :: json

definition orchestrate ::
    "'re http_env \<Rightarrow> 're app \<Rightarrow> orchestrate_request \<Rightarrow> 're app \<times> sends \<times> http_answer" where
  "orchestrate env app req =
     (if oq_intent req = ''send_message''
      then (case he_read_message env (oq_input req) of
              Inl e \<Rightarrow> (app, [], json_error 400 (''invalid message: '' @ e))
            | Inr msg \<Rightarrow> send_message env app msg)
      else if oq_intent req = ''call_tool''
      then (let name = or_default (Option.bind (json_get (oq_input req) ''tool'') json_as_str) ''unknown'';
                args = or_default (json_get (oq_input req) ''arguments'') JNull
            in (app, [], call_mcp_tool env app name args))
      else if oq_intent req = ''complete_chat''
      then (case he_read_chat env (oq_input req) of
              Inl e \<Rightarrow> (app, [], json_error 400 (''invalid chat request: '' @ e))
            | Inr chat \<Rightarrow>
                (let (app', answer) = ai_completions env app chat
                 in (app', [], (case answer of AnswerJson code j \<Rightarrow> code | AnswerStream code s \<Rightarrow> code, BodyProxy answer)))
           )
      else (app, [], (400, BodyJson (JObject [(''error'', JString ''unknown intent''),
              (''supported'', JArray [JString ''send_message'', JString ''call_tool'', JString ''complete_chat''])]))))"

section \<open>RPC\<close>

datatype grpc_status =
    GrpcOk | Cancelled | Unknown | InvalidArgument | DeadlineExceeded | GrpcNotFound | AlreadyExists
  | PermissionDenied | ResourceExhausted | FailedPrecondition | Aborted | OutOfRange | Unimplemented
  | Internal | Unavailable | DataLoss | Unauthenticated

definition grpc_from_http_status :: "u16 \<Rightarrow> grpc_status" where
  "grpc_from_http_status status =
     (if status = 200 then GrpcOk else if status = 400 then InvalidArgument
      else if status = 401 then Unauthenticated else if status = 403 then PermissionDenied
      else if status = 404 then GrpcNotFound else if status = 409 then AlreadyExists
      else if status = 429 then ResourceExhausted else if status = 499 then Cancelled
      else if status = 500 then Internal else if status = 501 then Unimplemented
      else if status = 503 then Unavailable else if status = 504 then DeadlineExceeded
      else Unknown)"

record grpc_request =
  gq_method :: string
  gq_headers :: "(string \<times> string) list"
  gq_body :: "u8 list"

record grpc_response =
  gs_status :: grpc_status
  gs_headers :: "(string \<times> string) list"
  gs_body :: "u8 list"
  gs_trailers :: "(string \<times> string) list"

text \<open>The MessagePack codec is a parameter.\<close>

record rpc_codec =
  decode_request :: "u8 list \<Rightarrow> grpc_request result"
  decode_message :: "u8 list \<Rightarrow> message result"
  encode_response :: "grpc_response \<Rightarrow> u8 list result"

definition grpc_reply :: "grpc_status \<Rightarrow> string \<Rightarrow> grpc_response" where
  "grpc_reply status body = \<lparr>gs_status = status, gs_headers = [], gs_body = as_bytes body, gs_trailers = []\<rparr>"

definition grpc_send ::
    "'re http_env \<Rightarrow> 're app \<Rightarrow> message \<Rightarrow> 're app \<times> sends \<times> grpc_response" where
  "grpc_send env app msg =
     (let hub = ap_hub app;
          destinations = plumber_route (oe_lib (he_op env)) (tp_plumber hub) msg;
          (q', selected) = select_destination (oe_rng (he_op env)) (oe_now (he_op env)) (tp_quantum hub) msg destinations;
          app1 = app\<lparr>ap_hub := hub\<lparr>tp_quantum := q'\<rparr>\<rparr>;
          (app2, outs) = deliver_selected deliver_rpc env app1 msg selected
      in (app2, outs, case selected of Some dest \<Rightarrow> grpc_reply GrpcOk ''ok'' | None \<Rightarrow> grpc_reply GrpcNotFound ''no route''))"

definition grpc_handler ::
    "rpc_codec \<Rightarrow> 're http_env \<Rightarrow> 're app \<Rightarrow> u8 list \<Rightarrow> 're app \<times> sends \<times> u16 \<times> grpc_response" where
  "grpc_handler codec env app body =
     (case decode_request codec body of
        Inl e \<Rightarrow> (app, [], 400, grpc_reply InvalidArgument (''decode error: '' @ e))
      | Inr req \<Rightarrow>
          if gq_method req = ''xfiles.Message/Send''
          then (case decode_message codec (gq_body req) of
                  Inl e \<Rightarrow> (app, [], 200, grpc_reply InvalidArgument (''bad message: '' @ e))
                | Inr msg \<Rightarrow>
                    (let (app', outs, resp) = grpc_send env app msg in (app', outs, 200, resp)))
          else (app, [], 200, grpc_reply Unimplemented ''unimplemented''))"

text \<open>The bytes sent: none when the response cannot be encoded.\<close>

definition grpc_bytes :: "rpc_codec \<Rightarrow> grpc_response \<Rightarrow> u8 list" where
  "grpc_bytes codec resp = (case encode_response codec resp of Inr bytes \<Rightarrow> bytes | Inl e \<Rightarrow> [])"

section \<open>Counters in memory and in the store\<close>

definition memory_counts :: "quantum_router \<Rightarrow> uuid \<Rightarrow> string \<Rightarrow> (u64 \<times> real) option" where
  "memory_counts q cid ep =
     (case qr_state q cid of
        None \<Rightarrow> None
      | Some conv \<Rightarrow> map_option (\<lambda>s. (es_pulls s, es_total_reward s)) (cs_endpoint_states conv ep))"

definition stored_counts :: "store \<Rightarrow> uuid \<Rightarrow> string \<Rightarrow> (u64 \<times> real) option" where
  "stored_counts st cid ep =
     map_option (\<lambda>s. (es_pulls s, es_total_reward s)) (load_quantum_state 0 st cid ep)"

definition app_feedback :: "'re app \<Rightarrow> ('re http_env \<times> feedback_event) list \<Rightarrow> 're app" where
  "app_feedback app fs = foldl (\<lambda>app (env, fe). fst (quantum_feedback_handler env app fe)) app fs"

text \<open>At each feedback the environment gives an order in which the conversation's states are visited.\<close>

fun feedback_orders :: "'re app \<Rightarrow> ('re http_env \<times> feedback_event) list \<Rightarrow> bool" where
  "feedback_orders app [] \<longleftrightarrow> True"
| "feedback_orders app ((env, fe) # fs) \<longleftrightarrow>
     (case tp_quantum (ap_hub app) of
        Some q \<Rightarrow> endpoint_order (he_states env (fe_message_id fe)) q (fe_message_id fe) (fe_endpoint_id fe)
      | None \<Rightarrow> True) \<and>
     feedback_orders (fst (quantum_feedback_handler env app fe)) fs"

lemma memory_counts_observe:
  assumes "endpoint_order ks q cid ep" and "quantum_observe ks q now cid ep ok lat = (q', saved)"
  shows "\<exists>s'. saved = Some (cid, ep, s') \<and>
    memory_counts q' c e =
      (if c = cid \<and> e = ep then Some (es_pulls s', es_total_reward s') else memory_counts q c e)"
proof -
  define states where "states = (case qr_state q cid of None \<Rightarrow> Map.empty | Some conv \<Rightarrow> cs_endpoint_states conv)"
  from observe_effect [OF assms(1) states_def assms(2)] obtain conv' s'
    where c: "qr_state q' cid = Some conv'" "cs_endpoint_states conv' ep = Some s'" "saved = Some (cid, ep, s')"
      and old: "\<forall>k s. k \<noteq> ep \<and> states k = Some s \<longrightarrow> (\<exists>s2. cs_endpoint_states conv' k = Some s2 \<and>
        es_pulls s2 = es_pulls s \<and> es_total_reward s2 = es_total_reward s)"
      and none: "\<forall>k. k \<noteq> ep \<and> states k = None \<longrightarrow> cs_endpoint_states conv' k = None"
      and other: "\<forall>c. c \<noteq> cid \<longrightarrow> qr_state q' c = qr_state q c"
    by blast
  have here: "memory_counts q' cid e = memory_counts q cid e" if "e \<noteq> ep" for e
  proof -
    have mem: "memory_counts q cid e = map_option (\<lambda>s. (es_pulls s, es_total_reward s)) (states e)"
      by (cases "qr_state q cid") (simp_all add: memory_counts_def states_def)
    have "map_option (\<lambda>s. (es_pulls s, es_total_reward s)) (cs_endpoint_states conv' e)
        = map_option (\<lambda>s. (es_pulls s, es_total_reward s)) (states e)"
    proof (cases "states e")
      case None
      then show ?thesis using none that by simp
    next
      case (Some s)
      from old [rule_format, OF conjI [OF that Some]] obtain s2
        where "cs_endpoint_states conv' e = Some s2" "es_pulls s2 = es_pulls s"
          "es_total_reward s2 = es_total_reward s" by blast
      then show ?thesis by (simp add: Some)
    qed
    then show ?thesis unfolding mem by (simp add: memory_counts_def c(1))
  qed
  show ?thesis
  proof (intro exI conjI)
    show "saved = Some (cid, ep, s')" by (rule c(3))
    show "memory_counts q' c e =
        (if c = cid \<and> e = ep then Some (es_pulls s', es_total_reward s') else memory_counts q c e)"
    proof (cases "c = cid")
      case True
      then show ?thesis using here [of e] c(1,2) by (cases "e = ep") (simp_all add: memory_counts_def)
    next
      case False
      then show ?thesis using other by (simp add: memory_counts_def)
    qed
  qed
qed

lemma stored_counts_rows:
  assumes "distinct (map key_of (so_quantum st))"
  shows "stored_counts st c e = map_option (\<lambda>(re, im, pulls, reward). (word_of_int pulls, reward))
    (saved_values (so_quantum st) (show_uuid c, e))"
  unfolding stored_counts_def load_values [OF assms]
  by (cases "saved_values (so_quantum st) (show_uuid c, e)") (auto simp: state_of_values_def)

lemma stored_counts_save:
  assumes "distinct (map key_of (so_quantum st))"
  shows "stored_counts (save_quantum_state cd now st cid ep s) c e =
      (if c = cid \<and> e = ep then Some (es_pulls s, es_total_reward s) else stored_counts st c e)"
    and "distinct (map key_of (so_quantum (save_quantum_state cd now st cid ep s)))"
proof -
  show d: "distinct (map key_of (so_quantum (save_quantum_state cd now st cid ep s)))"
    using assms by (simp add: save_quantum_state_def upsert_distinct)
  have "saved_values (so_quantum (save_quantum_state cd now st cid ep s)) =
      (saved_values (so_quantum st))((show_uuid cid, ep) \<mapsto>
        (am_re (es_amplitude s), am_im (es_amplitude s), sint (es_pulls s), es_total_reward s))"
    by (simp add: save_quantum_state_def upsert_values) (simp add: quantum_row_of_def key_of_def values_of_def)
  then show "stored_counts (save_quantum_state cd now st cid ep s) c e =
      (if c = cid \<and> e = ep then Some (es_pulls s, es_total_reward s) else stored_counts st c e)"
    by (simp add: stored_counts_rows [OF assms] stored_counts_rows [OF d])
qed

lemma insert_feedback_quantum [simp]: "so_quantum (insert_feedback cd st fe) = so_quantum st"
  by (simp add: insert_feedback_def)

lemma stored_counts_cong: "so_quantum st = so_quantum st' \<Longrightarrow> stored_counts st = stored_counts st'"
  by (intro ext) (simp add: stored_counts_def load_quantum_state_def)

lemma feedback_step:
  assumes "tp_quantum (ap_hub app) = Some q"
    and "endpoint_order (he_states env (fe_message_id fe)) q (fe_message_id fe) (fe_endpoint_id fe)"
    and "distinct (map key_of (so_quantum (ap_store app)))"
    and "memory_counts q = stored_counts (ap_store app)"
  shows "\<exists>q'. tp_quantum (ap_hub (fst (quantum_feedback_handler env app fe))) = Some q' \<and>
    distinct (map key_of (so_quantum (ap_store (fst (quantum_feedback_handler env app fe))))) \<and>
    memory_counts q' = stored_counts (ap_store (fst (quantum_feedback_handler env app fe)))"
proof -
  let ?cid = "fe_message_id fe" and ?ep = "fe_endpoint_id fe" and ?now = "oe_now (he_op env)"
  obtain q' saved where o: "quantum_observe (he_states env ?cid) q ?now ?cid ?ep (fe_success fe) (fe_latency_ms fe)
      = (q', saved)" by force
  note obs = memory_counts_observe [OF assms(2) o]
  obtain s' where s: "saved = Some (?cid, ?ep, s')" using obs by blast
  have m: "memory_counts q' c e =
      (if c = ?cid \<and> e = ?ep then Some (es_pulls s', es_total_reward s') else memory_counts q c e)" for c e
    using obs [of c e] unfolding s by simp
  let ?st = "save_quantum_state (he_codec env) ?now (ap_store app) ?cid ?ep s'"
  have st: "ap_store (fst (quantum_feedback_handler env app fe)) = insert_feedback (he_codec env) ?st fe"
    and q: "tp_quantum (ap_hub (fst (quantum_feedback_handler env app fe))) = Some q'"
    by (simp_all add: quantum_feedback_handler_def assms(1) o s persist_observed_def)
  have "memory_counts q' = stored_counts ?st"
    using assms(4) by (intro ext) (simp add: m stored_counts_save(1) [OF assms(3)])
  then show ?thesis
    using stored_counts_save(2) [OF assms(3)] stored_counts_cong [of "insert_feedback (he_codec env) ?st fe" ?st]
    by (simp add: st q)
qed

section \<open>Properties\<close>


definition sample_http_env :: "string http_env" where
  "sample_http_env =
     \<lparr>he_op = op_sample_env prefix_lib, he_instant = 0, he_codec = sample_codec, he_time = (\<lambda>t. JNumber (NInt t)),
      he_mcp = \<lparr>get_manifest = (\<lambda>_. Inl ''refused''), post_json = (\<lambda>_ _. Inl ''refused'')\<rparr>,
      he_proxy = sample_proxy_env (UpstreamError ''refused''), he_agents = [], he_endpoints = [], he_nodes = [],
      he_tools = [], he_circuits = [], he_conversations = [], he_states = (\<lambda>_. [''e'']), he_lock = (\<lambda>_. True),
      he_read_message = (\<lambda>_. Inl ''missing field''), he_read_chat = (\<lambda>_. Inl ''missing field'')\<rparr>"

definition sample_app :: "quantum_router option \<Rightarrow> string app" where
  "sample_app q =
     \<lparr>ap_hub = hr_hub (transport_new plumber_new q), ap_endpoints = Map.empty, ap_store = store_new,
      ap_mcp = mcp_new, ap_circuit = None, ap_default_model = ''m'', ap_model_aliases = Map.empty\<rparr>"

definition sample_feedback :: feedback_event where
  "sample_feedback =
     \<lparr>fe_message_id = 1, fe_endpoint_id = ''e'', fe_success = True, fe_latency_ms = 5, fe_quality_score = None,
      fe_error_kind = None, fe_metadata = None\<rparr>"


section \<open>Posting and reading back\<close>

lemma with_routing_store [simp]: "ap_store (with_routing app rs) = ap_store app"
  by (simp add: with_routing_def)

lemma route_in_app_store [simp]: "ap_store (fst (route_in_app env app msg)) = ap_store app"
  by (simp add: route_in_app_def Let_def split_beta)

lemma deliver_selected_store [simp]: "ap_store (fst (deliver_selected d env app msg sel)) = ap_store app"
  by (simp add: deliver_selected_def Let_def split_beta split: option.split)

lemma msg_handler_store:
  "ap_store (fst (msg_handler env app msg)) = fst (insert_message (he_codec env) (ap_store app) msg)"
  by (simp add: msg_handler_def persist_message_def Let_def split_beta)

lemma send_message_store:
  "ap_store (fst (send_message env app msg)) = fst (insert_message (he_codec env) (ap_store app) msg)"
  by (simp add: send_message_def persist_message_def Let_def split_beta)

text \<open>A client's posts, each to one of the two routes.\<close>

definition post_all :: "'re app \<Rightarrow> ('re http_env \<times> bool \<times> message) list \<Rightarrow> 're app" where
  "post_all app ps =
     foldl (\<lambda>app (env, api, msg). fst (if api then send_message env app msg else msg_handler env app msg)) app ps"

lemma post_all_store:
  "\<forall>p \<in> set ps. he_codec (fst p) = cd \<Longrightarrow>
     ap_store (post_all app ps) = insert_messages cd (ap_store app) (map (snd \<circ> snd) ps)"
proof (induction ps arbitrary: app)
  case (Cons p ps)
  obtain env api msg where p: "p = (env, api, msg)" by (cases p) auto
  have "ap_store (fst (if api then send_message env app msg else msg_handler env app msg))
      = fst (insert_message cd (ap_store app) msg)"
    using Cons.prems p by (simp add: send_message_store msg_handler_store)
  then show ?case using Cons p by (simp add: post_all_def insert_messages_def)
qed (simp add: post_all_def insert_messages_def)



section \<open>The two routes for messages\<close>

lemma with_routing_hub [simp]:
  "tp_agents (ap_hub (with_routing app rs)) = tp_agents (ap_hub app)"
  "tp_queue (ap_hub (with_routing app rs)) = tp_queue (ap_hub app)"
  by (simp_all add: with_routing_def)

lemma route_in_app_hub [simp]:
  "tp_agents (ap_hub (fst (route_in_app env app msg))) = tp_agents (ap_hub app)"
  "tp_queue (ap_hub (fst (route_in_app env app msg))) = tp_queue (ap_hub app)"
  by (simp_all add: route_in_app_def Let_def split_beta)

lemma persist_message_hub [simp]: "ap_hub (persist_message env msg app) = ap_hub app"
  by (simp add: persist_message_def)

text \<open>What both routes decide.\<close>

definition decided :: "'re http_env \<Rightarrow> 're app \<Rightarrow> message \<Rightarrow> routing_decision" where
  "decided env app msg = snd (route_in_app env (persist_message env msg app) msg)"

lemma handler_parts:
  "send_message env app msg =
     (let r = deliver_selected deliver_ignoring env (fst (route_in_app env (persist_message env msg app) msg)) msg
          (rd_selected (decided env app msg))
      in (fst r, snd r, (200, BodyResponse (dispatched msg (decided env app msg)))))"
  "msg_handler env app msg =
     (let r = deliver_selected deliver_requeue env (fst (route_in_app env (persist_message env msg app) msg)) msg
          (rd_selected (decided env app msg))
      in (fst r, snd r, (200, BodyResponse (dispatched msg (decided env app msg)))))"
  by (simp_all add: send_message_def msg_handler_def decided_def Let_def split_beta)

lemma deliver_selected_queue:
  "tp_queue (ap_hub (fst (deliver_selected d env app msg (Some dest)))) =
     fst (d (tp_agents (ap_hub app)) (tp_queue (ap_hub app)) (oe_now (he_op env)) (oe_ok (he_op env) 0) dest msg)"
  "snd (deliver_selected d env app msg (Some dest)) =
     snd (d (tp_agents (ap_hub app)) (tp_queue (ap_hub app)) (oe_now (he_op env)) (oe_ok (he_op env) 0) dest msg)"
  by (simp_all add: deliver_selected_def Let_def split_beta)

lemma deliveries_agree: "deliver_ignoring reg mq now True dest msg = deliver_requeue reg mq now True dest msg"
  by (simp add: deliver_ignoring_def deliver_requeue_def split: option.split)

text \<open>
  C7. Both routes for posting a message do the same while the target's channel is open. When it has
  closed but the agent is still registered, the older route queues the message for the agent, the
  route of the public API forgets it, and both give the same answer: status 200, \<open>Routed\<close>.
\<close>

theorem message_routes_compared:
  "(oe_ok (he_op env) 0 \<longrightarrow> send_message env app msg = msg_handler env app msg) \<and>
   (\<forall>dest k a c. \<not> oe_ok (he_op env) 0 \<and> rd_selected (decided env app msg) = Some dest \<and>
      target_agent dest = Some k \<and> tp_agents (ap_hub app) k = Some a \<and> ag_tx a = Some c \<longrightarrow>
     snd (send_message env app msg) = ([], (200, BodyResponse (dispatched msg (decided env app msg)))) \<and>
     snd (msg_handler env app msg) = snd (send_message env app msg) \<and>
     mr_status (dispatched msg (decided env app msg)) = Routed \<and>
     tp_queue (ap_hub (fst (send_message env app msg))) = tp_queue (ap_hub app) \<and>
     tp_queue (ap_hub (fst (msg_handler env app msg))) =
       enqueue (tp_queue (ap_hub app)) (oe_now (he_op env)) k msg)"
proof (intro conjI allI impI)
  assume "oe_ok (he_op env) 0"
  then show "send_message env app msg = msg_handler env app msg"
    by (simp add: handler_parts deliver_selected_def deliveries_agree split: option.split)
next
  fix dest k a c
  assume h: "\<not> oe_ok (he_op env) 0 \<and> rd_selected (decided env app msg) = Some dest \<and>
      target_agent dest = Some k \<and> tp_agents (ap_hub app) k = Some a \<and> ag_tx a = Some c"
  then have i: "deliver_ignoring (tp_agents (ap_hub app)) (tp_queue (ap_hub app)) (oe_now (he_op env)) (oe_ok (he_op env) 0)
      dest msg = (tp_queue (ap_hub app), [])"
    and r: "deliver_requeue (tp_agents (ap_hub app)) (tp_queue (ap_hub app)) (oe_now (he_op env)) (oe_ok (he_op env) 0)
      dest msg = (enqueue (tp_queue (ap_hub app)) (oe_now (he_op env)) k msg, [])"
    by (simp_all add: deliver_ignoring_def deliver_requeue_def agents_get_def)
  note s = deliver_selected_queue [where app = "fst (route_in_app env (persist_message env msg app) msg)" and dest = dest]
  show "snd (send_message env app msg) = ([], (200, BodyResponse (dispatched msg (decided env app msg))))"
    using h i by (simp add: handler_parts Let_def s)
  show "snd (msg_handler env app msg) = snd (send_message env app msg)"
    using h i r by (simp add: handler_parts Let_def s)
  show "mr_status (dispatched msg (decided env app msg)) = Routed" by (simp add: dispatched_def)
  show "tp_queue (ap_hub (fst (send_message env app msg))) = tp_queue (ap_hub app)"
    using h i by (simp add: handler_parts Let_def s)
  show "tp_queue (ap_hub (fst (msg_handler env app msg))) =
      enqueue (tp_queue (ap_hub app)) (oe_now (he_op env)) k msg"
    using h r by (simp add: handler_parts Let_def s)
qed

theorem message_routes_compared_witness:
  "send_message sample_http_env (sample_app None) (a_note ''x'') = msg_handler sample_http_env (sample_app None) (a_note ''x'')"
proof -
  have "oe_ok (he_op sample_http_env) 0" by (simp add: sample_http_env_def)
  then show ?thesis by (rule mp [OF conjunct1 [OF message_routes_compared]])
qed

section \<open>Unregistering\<close>

definition run_ops :: "chan_id \<Rightarrow> string \<Rightarrow> 're transport \<Rightarrow> ('re op_env \<times> protocol_op) list \<Rightarrow> 're transport" where
  "run_ops c k s ops = foldl (\<lambda>s (env, op). fst (handle_op env c k s op)) s ops"

fun is_hello :: "protocol_op \<Rightarrow> bool" where
  "is_hello (Hello m) = True"
| "is_hello op = False"

lemma run_ops_unregistered:
  "tp_agents s k = None \<Longrightarrow> \<forall>x \<in> set ops. \<not> is_hello (snd x) \<Longrightarrow> tp_agents (run_ops c k s ops) k = None"
proof (induction ops arbitrary: s)
  case (Cons x ops)
  obtain env op where x: "x = (env, op)" by force
  have "tp_agents (fst (handle_op env c k s op)) k = None"
    unfolding handle_op_agents using Cons.prems x
    by (cases op) (auto simp: agents_heartbeat_def)
  then have "tp_agents (run_ops c k (fst (handle_op env c k s op)) ops) k = None"
    by (rule Cons.IH) (use Cons.prems in simp)
  then show ?case by (simp add: run_ops_def x)
qed (simp add: run_ops_def)

text \<open>
  Unregistering an agent does not end its connection. Whatever the connection sends afterwards, short
  of a new hello (heartbeats included), the agent stays unregistered, and every message delivered to
  it, by any of the copies of the delivery, is queued and not sent.
\<close>

theorem unregistered_until_hello:
  assumes "\<forall>x \<in> set ops. \<not> is_hello (snd x)"
    and "hub = run_ops c k (ap_hub (fst (unregister_agent env app k))) ops"
    and "deliver \<in> {deliver_ignoring, deliver_requeue, deliver_rpc}" and "target_agent dest = Some k"
  shows "agents_get (tp_agents hub) k = None \<and>
    deliver (tp_agents hub) (tp_queue hub) now ok dest msg = (enqueue (tp_queue hub) now k msg, [])"
proof -
  have "tp_agents (ap_hub (fst (unregister_agent env app k))) k = None"
    by (simp add: unregister_agent_def agents_unregister_def Let_def)
  from run_ops_unregistered [OF this assms(1)] have n: "tp_agents hub k = None"
    unfolding assms(2) .
  then show ?thesis
    using assms(3) ignoring.unregistered [where reg = "tp_agents hub", OF assms(4) n] requeue.unregistered [where reg = "tp_agents hub", OF assms(4) n]
      rpc.unregistered [where reg = "tp_agents hub", OF assms(4) n]
    by (auto simp: agents_get_def)
qed

theorem unregistered_until_hello_witness:
  "agents_get (tp_agents (run_ops 0 ''a'' (ap_hub (fst (unregister_agent sample_http_env
     ((sample_app None)\<lparr>ap_hub := hr_hub one_connected\<rparr>) ''a''))) [(op_sample_env prefix_lib, Heartbeat)])) ''a'' = None"
proof -
  have h: "\<forall>x \<in> set [(op_sample_env prefix_lib, Heartbeat)]. \<not> is_hello (snd x)" by simp
  have d: "deliver_rpc \<in> {deliver_ignoring, deliver_requeue, deliver_rpc}" by simp
  have t: "target_agent (''/net/'' @ ''a'') = Some ''a''" by (rule target_agent_net) simp
  show ?thesis by (rule conjunct1 [OF unregistered_until_hello [OF h refl d t]])
qed

end
