(* ===== verification/Auth.thy ===== *)
theory Auth
  imports Prelude
begin

text \<open>
  Bearer-token authentication, \<open>src/auth.rs\<close>: the constant-time comparison, the middleware in front
  of every HTTP route and the check of a WebSocket upgrade. Header names are lower case, as the
  \<open>http\<close> crate keeps them; a header value is its raw bytes.
\<close>

unbundle bit_operations_syntax

section \<open>Comparison of tokens\<close>

definition constant_time_eq :: "string \<Rightarrow> string \<Rightarrow> bool" where
  "constant_time_eq a b =
     (let a = as_bytes a; b = as_bytes b
      in if length a \<noteq> length b then False
         else foldl (\<lambda>diff (x, y). diff OR (x XOR y)) 0 (zip a b) = 0)"

section \<open>Configuration and requests\<close>

record auth_config =
  ac_api_key :: "string option"
  ac_agent_token :: "string option"

definition auth_config_from_env :: "(string \<Rightarrow> string option) \<Rightarrow> auth_config" where
  "auth_config_from_env env =
     \<lparr>ac_api_key = env ''XFILES_API_KEY'', ac_agent_token = env ''XFILES_AGENT_TOKEN''\<rparr>"

type_synonym headers = "(string \<times> string) list"

record http_request =
  rq_method :: string
  rq_path :: string
  rq_headers :: headers

text \<open>\<open>HeaderValue::to_str\<close> succeeds on visible ASCII and tabs only.\<close>

definition visible_ascii :: "char \<Rightarrow> bool" where
  "visible_ascii c \<longleftrightarrow> (let n = of_char c :: nat in 32 \<le> n \<and> n < 127 \<or> n = 9)"

definition header_to_str :: "string \<Rightarrow> string option" where
  "header_to_str h = (if list_all visible_ascii h then Some h else None)"

definition get_header_str :: "headers \<Rightarrow> string \<Rightarrow> string option" where
  "get_header_str hs name = Option.bind (map_of hs name) header_to_str"

definition bearer_valid :: "string option \<Rightarrow> string \<Rightarrow> bool" where
  "bearer_valid auth_header key =
     (case auth_header of
        Some h \<Rightarrow> if starts_with h ''Bearer '' then constant_time_eq (drop 7 h) key else False
      | None \<Rightarrow> False)"

section \<open>The middleware and the WebSocket check\<close>

datatype auth_outcome = Next http_request | Unauthorized

definition public_path :: "string \<Rightarrow> bool" where
  "public_path path \<longleftrightarrow> path = ''/health'' \<or> path = ''/metrics'' \<or> starts_with path ''/ws/''"

definition api_key_middleware :: "auth_config \<Rightarrow> http_request \<Rightarrow> auth_outcome" where
  "api_key_middleware config req =
     (if rq_method req = ''OPTIONS'' then Next req
      else if public_path (rq_path req) then Next req
      else case ac_api_key config of
          Some key \<Rightarrow>
            if \<not> bearer_valid (get_header_str (rq_headers req) ''authorization'') key
            then Unauthorized else Next req
        | None \<Rightarrow> Next req)"

definition check_agent_token :: "auth_config \<Rightarrow> headers \<Rightarrow> bool" where
  "check_agent_token config hs =
     (case ac_agent_token config of
        Some token \<Rightarrow> bearer_valid (get_header_str hs ''authorization'') token
      | None \<Rightarrow> True)"

section \<open>Correctness of the comparison\<close>

lemma or_xor_fold:
  "length a = length b \<Longrightarrow>
     foldl (\<lambda>diff (x, y). diff OR (x XOR y)) d (zip a b) = (0 :: u8) \<longleftrightarrow> d = 0 \<and> a = b"
proof (induction a b arbitrary: d rule: list_induct2)
  case (Cons x a y b)
  have "x XOR y = 0 \<longleftrightarrow> x = y"
  proof
    assume "x XOR y = 0"
    then have "(x XOR y) XOR y = 0 XOR y" by (rule arg_cong)
    then show "x = y" by (simp add: xor.assoc)
  qed simp
  then show ?case by (auto simp: Cons.IH or_eq_0_iff)
qed simp

lemma constant_time_eq_iff [simp]: "constant_time_eq a b \<longleftrightarrow> a = b"
proof (cases "length a = length b")
  case True
  then show ?thesis
    using or_xor_fold [of "as_bytes a" "as_bytes b" 0] by (simp add: constant_time_eq_def)
next
  case False
  then show ?thesis by (auto simp: constant_time_eq_def)
qed

lemma bearer_valid_iff:
  "bearer_valid (get_header_str hs name) key \<longleftrightarrow>
     map_of hs name = Some (''Bearer '' @ key) \<and> list_all visible_ascii key"
proof -
  define p where "p = ''Bearer ''"
  have v: "list_all visible_ascii p" by (simp add: p_def visible_ascii_def)
  have l: "length p = 7" by (simp add: p_def)
  have b: "(if starts_with h p then drop 7 h = key else False) \<longleftrightarrow> h = p @ key" for h
    by (auto simp: starts_with_iff simp flip: l)
  show ?thesis
    unfolding bearer_valid_def get_header_str_def header_to_str_def constant_time_eq_iff
      p_def [symmetric] using v b
    by (cases "map_of hs name") auto
qed

section \<open>What authentication guarantees\<close>

text \<open>
  The byte-by-byte, never early-exiting comparison of tokens decides equality.
\<close>

theorem constant_time_eq_correct: "constant_time_eq a b \<longleftrightarrow> a = b"
  by simp

text \<open>
  C9. The middleware lets a request through to the handler, unchanged, exactly when no API key is
  configured, the request is a CORS preflight, its path is public, or the first \<open>Authorization\<close>
  header is the word \<open>Bearer\<close>, one space and the key itself (a key with bytes outside visible ASCII
  can never be presented). Every other request is answered \<open>401\<close>.
\<close>

theorem api_key_middleware_spec:
  "api_key_middleware config req =
     (if ac_api_key config = None \<or> rq_method req = ''OPTIONS'' \<or> public_path (rq_path req) \<or>
        (\<exists>key. ac_api_key config = Some key \<and> list_all visible_ascii key \<and>
           map_of (rq_headers req) ''authorization'' = Some (''Bearer '' @ key))
      then Next req else Unauthorized)"
  by (auto simp: api_key_middleware_def bearer_valid_iff split: option.splits)

text \<open>
  C12. A WebSocket upgrade is accepted exactly when no agent token is configured or the first
  \<open>Authorization\<close> header carries that very token.
\<close>

theorem check_agent_token_spec:
  "check_agent_token config hs \<longleftrightarrow>
     (case ac_agent_token config of None \<Rightarrow> True
      | Some token \<Rightarrow> list_all visible_ascii token \<and>
          map_of hs ''authorization'' = Some (''Bearer '' @ token))"
  by (auto simp: check_agent_token_def bearer_valid_iff split: option.splits)

end
