(* ===== verification/Discovery.thy ===== *)
theory Discovery
  imports Endpoints
begin

text \<open>
  The two engines that find endpoints by themselves: the port scan of \<open>src/ai/discovery.rs\<close> and the
  container scan of \<open>src/docker.rs\<close>. Both insert what they find under a key derived from it, unless the
  key is taken, and then drop the endpoints of their own that they no longer find; that contract is the
  locale \<open>endpoint_source\<close>. Answers of services (\<open>get\<close>) and the list of containers are parameters;
  \<open>now\<close> gives the moment at which an endpoint was registered.
\<close>

section \<open>Port scan\<close>

definition auto_tag :: string where
  "auto_tag = ''auto-discovered''"

definition docker_tag :: string where
  "docker_tag = ''docker''"

fun any_success :: "(string \<Rightarrow> http_result) \<Rightarrow> string list \<Rightarrow> bool" where
  "any_success get [] = False"
| "any_success get (u # us) = (if is_success (get u) then True else any_success get us)"

definition infer_service :: "string \<Rightarrow> string \<times> endpoint_type" where
  "infer_service url =
     (if str_contains url '':8080'' then (''routage'', RouterType)
      else if str_contains url '':7777'' then (''merlin'', RouterType)
      else if str_contains url '':8000'' then (''local-ai'', InferenceType)
      else if str_contains url '':11434'' then (''ollama'', InferenceType)
      else if str_contains url '':3000'' then (''tensorzero'', RouterType)
      else (''unknown'', ApiType))"

definition identify_service :: "(string \<Rightarrow> http_result) \<Rightarrow> string \<Rightarrow> (string \<times> endpoint_type) option" where
  "identify_service get url =
     (if any_success get [url @ ''/health'', url @ ''/v1/health'', url @ ''/api/health'']
      then Some (infer_service url) else None)"

definition local_url :: "u16 \<Rightarrow> string" where
  "local_url port = ''http://127.0.0.1:'' @ show_nat (unat port)"

definition discovered_endpoint ::
    "(string \<Rightarrow> datetime) \<Rightarrow> string \<Rightarrow> string \<Rightarrow> string \<Rightarrow> endpoint_type \<Rightarrow> ai_endpoint" where
  "discovered_endpoint now i name url ty =
     \<lparr>ep_id = i, ep_name = name, ep_url = url, ep_endpoint_type = ty, ep_weight = 1,
      ep_tags = [auto_tag], ep_headers = Map.empty,
      ep_health = (health_default (now i))\<lparr>eh_status := Healthy\<rparr>\<rparr>"

fun scan_ports ::
    "(string \<Rightarrow> http_result) \<Rightarrow> (string \<Rightarrow> datetime) \<Rightarrow> u16 list \<Rightarrow> endpoints \<Rightarrow> string list \<Rightarrow>
     endpoints \<times> string list" where
  "scan_ports get now [] eps found_ids = (eps, found_ids)"
| "scan_ports get now (port # ports) eps found_ids =
     (case identify_service get (local_url port) of
        Some (name, ty) \<Rightarrow>
          (let i = name @ ''-'' @ show_nat (unat port);
               eps' = (if eps i = None
                       then eps(i \<mapsto> discovered_endpoint now i name (local_url port) ty) else eps)
           in scan_ports get now ports eps' (found_ids @ [i]))
      | None \<Rightarrow> scan_ports get now ports eps found_ids)"

definition discovery_prune_stale :: "string list \<Rightarrow> string list \<Rightarrow> endpoints \<Rightarrow> endpoints" where
  "discovery_prune_stale ks found_ids eps =
     remove_keys (filter_keys ks (\<lambda>k e. auto_tag \<in> set (ep_tags e) \<and> docker_tag \<notin> set (ep_tags e) \<and>
        k \<notin> set found_ids) eps) eps"

definition discovery_scan ::
    "string list \<Rightarrow> (string \<Rightarrow> http_result) \<times> (string \<Rightarrow> datetime) \<times> discovery_config \<Rightarrow>
     endpoints \<Rightarrow> endpoints" where
  "discovery_scan ks = (\<lambda>(get, now, cfg) eps.
     (let (eps', found_ids) = scan_ports get now (dc_scan_ports cfg) eps []
      in discovery_prune_stale ks found_ids eps'))"

section \<open>Container scan\<close>

record container =
  ct_id :: "string option"
  ct_labels :: "(string \<rightharpoonup> string) option"
  ct_ports :: "u16 option list option"

text \<open>\<open>chars().take(n)\<close>: in UTF-8 a character is a first byte and its continuation bytes.\<close>

fun take_chars :: "nat \<Rightarrow> string \<Rightarrow> string" where
  "take_chars n [] = []"
| "take_chars n (c # cs) =
     (if 128 \<le> (of_char c :: nat) \<and> (of_char c :: nat) < 192 then c # take_chars n cs
      else case n of 0 \<Rightarrow> [] | Suc m \<Rightarrow> c # take_chars m cs)"

definition parse_u16 :: "string \<Rightarrow> u16 option" where
  "parse_u16 s = (case parse_unsigned 65535 s of Inl e \<Rightarrow> None | Inr n \<Rightarrow> Some (of_nat n))"

definition extract_first_port :: "u16 option list option \<Rightarrow> u16 option" where
  "extract_first_port ports =
     (case ports of Some (p # ps) \<Rightarrow> p | _ \<Rightarrow> None)"

definition container_port :: "(string \<rightharpoonup> string) \<Rightarrow> u16 option list option \<Rightarrow> u16" where
  "container_port labels ports =
     (case Option.bind (labels ''ai.xfiles.port'') parse_u16 of
        Some p \<Rightarrow> p
      | None \<Rightarrow> or_default (extract_first_port ports) 8080)"

definition docker_endpoint ::
    "(string \<Rightarrow> datetime) \<Rightarrow> string \<Rightarrow> string \<Rightarrow> string \<Rightarrow> endpoint_type \<Rightarrow> ai_endpoint" where
  "docker_endpoint now endpoint_id service_name url ty =
     \<lparr>ep_id = endpoint_id, ep_name = ''docker-'' @ service_name, ep_url = url, ep_endpoint_type = ty,
      ep_weight = 1, ep_tags = [docker_tag, auto_tag], ep_headers = Map.empty,
      ep_health = (health_default (now endpoint_id))\<lparr>eh_status := Healthy\<rparr>\<rparr>"

definition docker_id :: "string \<Rightarrow> container \<Rightarrow> string" where
  "docker_id service_name c =
     ''docker-'' @ service_name @ ''-'' @ take_chars 12 (or_default (ct_id c) '''')"

definition docker_type :: "(string \<rightharpoonup> string) \<Rightarrow> endpoint_type" where
  "docker_type labels =
     (case parse_endpoint_type (or_default (labels ''ai.xfiles.type'') ''api'') of
        Inl e \<Rightarrow> ApiType | Inr ty \<Rightarrow> ty)"

fun scan_containers ::
    "(string \<Rightarrow> datetime) \<Rightarrow> container list \<Rightarrow> endpoints \<Rightarrow> string list \<Rightarrow> endpoints \<times> string list" where
  "scan_containers now [] eps found_ids = (eps, found_ids)"
| "scan_containers now (c # cs) eps found_ids =
     (let labels = or_default (ct_labels c) Map.empty in
      case labels ''ai.xfiles.service'' of
        Some service_name \<Rightarrow>
          (let endpoint_id = docker_id service_name c;
               eps' = (if eps endpoint_id = None
                       then eps(endpoint_id \<mapsto> docker_endpoint now endpoint_id service_name
                              (local_url (container_port labels (ct_ports c))) (docker_type labels))
                       else eps)
           in scan_containers now cs eps' (found_ids @ [endpoint_id]))
      | None \<Rightarrow> scan_containers now cs eps found_ids)"

definition docker_prune_stale :: "string list \<Rightarrow> string list \<Rightarrow> endpoints \<Rightarrow> endpoints" where
  "docker_prune_stale ks found_ids eps =
     remove_keys (filter_keys ks (\<lambda>k e. docker_tag \<in> set (ep_tags e) \<and> k \<notin> set found_ids) eps) eps"

definition docker_scan ::
    "string list \<Rightarrow> (string \<Rightarrow> datetime) \<times> container list result \<Rightarrow> endpoints \<Rightarrow> endpoints \<times> unit result" where
  "docker_scan ks = (\<lambda>(now, listing) eps.
     (case listing of
        Inl e \<Rightarrow> (eps, Inl e)
      | Inr containers \<Rightarrow>
          (let (eps', found_ids) = scan_containers now containers eps []
           in (docker_prune_stale ks found_ids eps', Inr ()))))"

section \<open>The contract of a source of endpoints\<close>

text \<open>Registering each offer under its key unless the key is taken.\<close>

fun insert_absent :: "(string \<times> ai_endpoint) list \<Rightarrow> endpoints \<Rightarrow> endpoints" where
  "insert_absent [] eps = eps"
| "insert_absent ((i, e) # offers) eps =
     insert_absent offers (if eps i = None then eps(i \<mapsto> e) else eps)"

lemma insert_absent_apply:
  "insert_absent offers eps k = (case eps k of Some e \<Rightarrow> Some e | None \<Rightarrow> map_of offers k)"
  by (induction offers eps rule: insert_absent.induct) (auto split: option.splits)

locale endpoint_source =
  fixes scan :: "string list \<Rightarrow> 'w \<Rightarrow> endpoints \<Rightarrow> endpoints"
    and offers :: "'w \<Rightarrow> (string \<times> ai_endpoint) list"
    and owns :: "ai_endpoint \<Rightarrow> bool"
  assumes scan_eq: "iterates ks (insert_absent (offers w) eps) \<Longrightarrow>
      scan ks w eps = retain (\<lambda>k e. owns e \<longrightarrow> k \<in> fst ` set (offers w)) (insert_absent (offers w) eps)"
    and offers_owned: "(k, e) \<in> set (offers w) \<Longrightarrow> owns e \<and> ep_id e = k"
begin

lemma scan_apply:
  assumes "iterates ks (insert_absent (offers w) eps)"
  shows "scan ks w eps k =
    (case eps k of
       Some e \<Rightarrow> if owns e \<and> k \<notin> fst ` set (offers w) then None else Some e
     | None \<Rightarrow> map_of (offers w) k)"
proof (cases "eps k")
  case None
  have "map_of (offers w) k = Some e \<Longrightarrow> k \<in> fst ` set (offers w)" for e
    by (force dest: map_of_SomeD)
  with None show ?thesis
    by (auto simp: scan_eq [OF assms] retain_def insert_absent_apply split: option.splits)
qed (auto simp: scan_eq [OF assms] retain_def insert_absent_apply)

lemma scan_foreign:
  "iterates ks (insert_absent (offers w) eps) \<Longrightarrow> eps k = Some e \<Longrightarrow> \<not> owns e \<Longrightarrow>
     scan ks w eps k = Some e"
  by (simp add: scan_apply)

lemma scan_alive:
  "iterates ks (insert_absent (offers w) eps) \<Longrightarrow> eps k = Some e \<Longrightarrow> k \<in> fst ` set (offers w) \<Longrightarrow>
     scan ks w eps k = Some e"
  by (simp add: scan_apply)

lemma scan_owned:
  "iterates ks (insert_absent (offers w) eps) \<Longrightarrow> scan ks w eps k = Some e \<Longrightarrow> owns e \<Longrightarrow>
     k \<in> fst ` set (offers w)"
  by (auto simp: scan_apply split: option.splits if_splits dest!: map_of_SomeD)
    (metis fst_conv imageI)

lemma scan_idem:
  assumes "iterates ks (insert_absent (offers w) eps)"
    and "iterates ks' (insert_absent (offers w) (scan ks w eps))"
  shows "scan ks' w (scan ks w eps) = scan ks w eps"
proof
  fix k
  show "scan ks' w (scan ks w eps) k = scan ks w eps k"
    using scan_owned [OF assms(1), of k]
    by (cases "scan ks w eps k")
      (auto simp: scan_apply [OF assms(2)] scan_apply [OF assms(1)] map_of_eq_None_iff
        split: option.splits if_splits)
qed

end

section \<open>The two sources\<close>

definition service_id :: "string \<Rightarrow> u16 \<Rightarrow> string" where
  "service_id name port = name @ ''-'' @ show_nat (unat port)"

fun port_offers ::
    "(string \<Rightarrow> http_result) \<Rightarrow> (string \<Rightarrow> datetime) \<Rightarrow> u16 list \<Rightarrow> (string \<times> ai_endpoint) list" where
  "port_offers get now [] = []"
| "port_offers get now (port # ports) =
     (case identify_service get (local_url port) of
        Some (name, ty) \<Rightarrow>
          (service_id name port,
           discovered_endpoint now (service_id name port) name (local_url port) ty)
          # port_offers get now ports
      | None \<Rightarrow> port_offers get now ports)"

lemma scan_ports_eq:
  "scan_ports get now ports eps found =
     (insert_absent (port_offers get now ports) eps, found @ map fst (port_offers get now ports))"
  by (induction ports arbitrary: eps found) (auto simp: Let_def service_id_def split: option.splits)

lemma port_offers_found:
  "k \<in> fst ` set (port_offers get now ports) \<longleftrightarrow>
     (\<exists>port \<in> set ports. \<exists>name ty. identify_service get (local_url port) = Some (name, ty) \<and>
        k = service_id name port)"
proof (induction ports)
  case (Cons port ports)
  show ?case
  proof (cases "identify_service get (local_url port)")
    case (Some x)
    obtain name ty where "x = (name, ty)" by force
    with Some Cons show ?thesis by (simp add: image_iff)
  qed (use Cons in simp)
qed simp

definition discovery_owns :: "ai_endpoint \<Rightarrow> bool" where
  "discovery_owns e \<longleftrightarrow> auto_tag \<in> set (ep_tags e) \<and> docker_tag \<notin> set (ep_tags e)"

lemma port_offers_owned:
  "(k, e) \<in> set (port_offers get now ports) \<Longrightarrow> discovery_owns e \<and> ep_id e = k"
  by (induction ports) (auto simp: discovery_owns_def discovered_endpoint_def auto_tag_def docker_tag_def
      split: option.splits)

interpretation ports: endpoint_source discovery_scan
  "\<lambda>(get, now, cfg). port_offers get now (dc_scan_ports cfg)" discovery_owns
proof
  fix ks and w :: "(string \<Rightarrow> http_result) \<times> (string \<Rightarrow> datetime) \<times> discovery_config" and eps
  obtain get now cfg where w: "w = (get, now, cfg)" by (cases w) auto
  assume "iterates ks (insert_absent (case w of (get, now, cfg) \<Rightarrow> port_offers get now (dc_scan_ports cfg)) eps)"
  then show "discovery_scan ks w eps =
      retain (\<lambda>k e. discovery_owns e \<longrightarrow>
        k \<in> fst ` set (case w of (get, now, cfg) \<Rightarrow> port_offers get now (dc_scan_ports cfg)))
      (insert_absent (case w of (get, now, cfg) \<Rightarrow> port_offers get now (dc_scan_ports cfg)) eps)"
    by (simp add: w discovery_scan_def scan_ports_eq discovery_prune_stale_def remove_filtered_keys
        discovery_owns_def imp_conjL disj_imp)
qed (auto dest: port_offers_owned split: prod.splits)

fun container_offers ::
    "(string \<Rightarrow> datetime) \<Rightarrow> container list \<Rightarrow> (string \<times> ai_endpoint) list" where
  "container_offers now [] = []"
| "container_offers now (c # cs) =
     (let labels = or_default (ct_labels c) Map.empty in
      case labels ''ai.xfiles.service'' of
        Some service_name \<Rightarrow>
          (docker_id service_name c, docker_endpoint now (docker_id service_name c) service_name
             (local_url (container_port labels (ct_ports c))) (docker_type labels))
          # container_offers now cs
      | None \<Rightarrow> container_offers now cs)"

lemma scan_containers_eq:
  "scan_containers now cs eps found =
     (insert_absent (container_offers now cs) eps, found @ map fst (container_offers now cs))"
  by (induction cs arbitrary: eps found) (auto simp: Let_def split: option.splits)

lemma container_offers_found:
  "k \<in> fst ` set (container_offers now cs) \<longleftrightarrow>
     (\<exists>c \<in> set cs. \<exists>labels service. ct_labels c = Some labels \<and>
        labels ''ai.xfiles.service'' = Some service \<and> k = docker_id service c)"
proof (induction cs)
  case (Cons c cs)
  then show ?case by (cases "ct_labels c") (auto simp: Let_def split: option.splits)
qed simp

definition docker_owns :: "ai_endpoint \<Rightarrow> bool" where
  "docker_owns e \<longleftrightarrow> docker_tag \<in> set (ep_tags e)"

lemma container_offers_owned:
  "(k, e) \<in> set (container_offers now cs) \<Longrightarrow> docker_owns e \<and> ep_id e = k"
  by (induction cs) (auto simp: Let_def docker_owns_def docker_endpoint_def split: option.splits)

interpretation containers: endpoint_source
  "\<lambda>ks (now, cs) eps. fst (docker_scan ks (now, Inr cs) eps)"
  "\<lambda>(now, cs). container_offers now cs" docker_owns
proof
  fix ks and w :: "(string \<Rightarrow> datetime) \<times> container list" and eps
  obtain now cs where w: "w = (now, cs)" by (cases w) auto
  assume "iterates ks (insert_absent (case w of (now, cs) \<Rightarrow> container_offers now cs) eps)"
  then show "(case w of (now, cs) \<Rightarrow> \<lambda>eps. fst (docker_scan ks (now, Inr cs) eps)) eps =
      retain (\<lambda>k e. docker_owns e \<longrightarrow> k \<in> fst ` set (case w of (now, cs) \<Rightarrow> container_offers now cs))
      (insert_absent (case w of (now, cs) \<Rightarrow> container_offers now cs) eps)"
    by (simp add: w docker_scan_def scan_containers_eq docker_prune_stale_def remove_filtered_keys
        docker_owns_def)
qed (auto dest: container_offers_owned split: prod.splits)

section \<open>What a port is taken for\<close>

lemma starts_with_snoc:
  "starts_with (xs @ [x]) p \<longleftrightarrow> starts_with xs p \<or> p = xs @ [x]"
proof (cases "length p \<le> length xs")
  case False
  then have "take (length p) (xs @ [x]) = xs @ [x]" and "take (length p) xs \<noteq> p"
    by (simp_all, metis nat_le_linear take_all)
  then show ?thesis by (auto simp: starts_with_def)
qed (auto simp: starts_with_def)

lemma show_nat_prefix:
  "starts_with (show_nat n) (show_nat q) \<longleftrightarrow>
     n = q \<or> (10 \<le> n \<and> starts_with (show_nat (n div 10)) (show_nat q))"
proof (cases "n < 10")
  case True
  have "starts_with [c] (show_nat q) \<longleftrightarrow> show_nat q = [c]" for c
    by (cases "show_nat q") (auto simp: starts_with_def)
  moreover have "show_nat q = show_nat n \<longleftrightarrow> n = q" by auto
  ultimately show ?thesis using True by (simp add: show_nat.simps [of n])
next
  case False
  then have s: "show_nat n = show_nat (n div 10) @ [char_of (48 + n mod 10)]"
    by (simp add: show_nat.simps [of n])
  have "show_nat q = show_nat n \<longleftrightarrow> n = q" by auto
  then have "starts_with (show_nat n) (show_nat q) \<longleftrightarrow>
      starts_with (show_nat (n div 10)) (show_nat q) \<or> n = q"
    by (subst s, subst starts_with_snoc) (simp only: s [symmetric])
  with False show ?thesis by auto
qed

lemma show_nat_prefix_le: "starts_with (show_nat n) (show_nat q) \<Longrightarrow> q \<le> n"
proof (induction n rule: less_induct)
  case (less n)
  show ?case
  proof (cases "n = q")
    case False
    then have "10 \<le> n" and "starts_with (show_nat (n div 10)) (show_nat q)"
      using less.prems show_nat_prefix [of n q] by auto
    with less.IH [of "n div 10"] show ?thesis by auto
  qed simp
qed

lemma starts_with_cons:
  "starts_with (c # s) (d # p) \<longleftrightarrow> c = d \<and> starts_with s p"
  by (simp add: starts_with_def)

lemma str_contains_absent: "c \<notin> set s \<Longrightarrow> \<not> str_contains s (c # p)"
  by (induction s) (auto simp: starts_with_cons)

lemma show_port_literals:
  "show_nat 8080 = ''8080''" "show_nat 7777 = ''7777''" "show_nat 8000 = ''8000''"
  "show_nat 11434 = ''11434''" "show_nat 3000 = ''3000''"
  by (simp_all add: show_nat.simps char_of_def bit_0)

lemma local_url_contains:
  assumes "show_nat q = d # ds" and "q < 65536" and "1000 \<le> q" and "p < 65536"
  shows "str_contains (''http://127.0.0.1:'' @ show_nat p) (CHR '':'' # d # ds)
    \<longleftrightarrow> p = q \<or> p div 10 = q"
proof -
  have "d \<noteq> CHR ''/''"
    using show_nat_digits [of d q] assms(1) by auto
  moreover have "CHR '':'' \<notin> set (show_nat p)"
    using show_nat_digits [of "CHR '':''" p] by auto
  then have "\<not> str_contains (show_nat p) (CHR '':'' # d # ds)" by (rule str_contains_absent)
  ultimately have "str_contains (''http://127.0.0.1:'' @ show_nat p) (CHR '':'' # d # ds)
      \<longleftrightarrow> starts_with (show_nat p) (show_nat q)"
    by (simp add: starts_with_cons assms(1))
  also have "\<dots> \<longleftrightarrow> p = q \<or> p div 10 = q"
  proof -
    have "\<not> starts_with (show_nat (p div 10 div 10)) (show_nat q)"
      using show_nat_prefix_le [of "p div 10 div 10" q] assms(2-4) by auto
    moreover have "10 \<le> p" if "p div 10 = q" using that assms(3) by auto
    ultimately show ?thesis
      using show_nat_prefix [of p q] show_nat_prefix [of "p div 10" q] assms(3)
      by (auto simp: show_nat_prefix [of q q])
  qed
  finally show ?thesis .
qed

section \<open>Properties\<close>

text \<open>
  The service a port is taken for, whatever answers there: the five well-known ports, and also the
  ten ports 30000 to 30009, because the URL is searched for a text and not for a port number.
\<close>

theorem infer_service_port:
  "infer_service (local_url port) =
     (let p = unat port in
      if p = 8080 then (''routage'', RouterType)
      else if p = 7777 then (''merlin'', RouterType)
      else if p = 8000 then (''local-ai'', InferenceType)
      else if p = 11434 then (''ollama'', InferenceType)
      else if p = 3000 \<or> (30000 \<le> p \<and> p \<le> 30009) then (''tensorzero'', RouterType)
      else (''unknown'', ApiType))"
proof -
  define p where "p = unat port"
  have p: "p < 65536" using unsigned_less [of port] by (simp add: p_def)
  have "p div 10 \<noteq> q" if "6554 \<le> q" for q using p that by auto
  moreover have "p div 10 = 3000 \<longleftrightarrow> 30000 \<le> p \<and> p \<le> 30009" by auto
  ultimately show ?thesis
    using local_url_contains [OF show_port_literals(1) _ _ p]
      local_url_contains [OF show_port_literals(2) _ _ p]
      local_url_contains [OF show_port_literals(3) _ _ p]
      local_url_contains [OF show_port_literals(4) _ _ p]
      local_url_contains [OF show_port_literals(5) _ _ p]
    unfolding infer_service_def local_url_def p_def [symmetric] Let_def by simp
qed

text \<open>
  C34. A port scan, in whatever order the map is visited, keeps an endpoint that is registered unless
  it was found by a port scan, is no container's, and no scanned port answers under its key any more;
  it keeps it with its health. A key that was free is taken afterwards exactly when a port answers
  under it.
\<close>

theorem discovery_scan_exact:
  assumes "iterates ks (fst (scan_ports get now (dc_scan_ports cfg) eps []))"
    and "alive = (\<exists>port \<in> set (dc_scan_ports cfg). \<exists>name ty.
           identify_service get (local_url port) = Some (name, ty) \<and> k = service_id name port)"
  shows "(\<forall>e. eps k = Some e \<longrightarrow> discovery_scan ks (get, now, cfg) eps k =
      (if ''auto-discovered'' \<in> set (ep_tags e) \<and> ''docker'' \<notin> set (ep_tags e) \<and> \<not> alive
       then None else Some e)) \<and>
    (eps k = None \<longrightarrow> (discovery_scan ks (get, now, cfg) eps k \<noteq> None \<longleftrightarrow> alive))"
proof -
  have "iterates ks (insert_absent (port_offers get now (dc_scan_ports cfg)) eps)"
    using assms(1) by (simp add: scan_ports_eq)
  moreover have "alive \<longleftrightarrow> k \<in> fst ` set (port_offers get now (dc_scan_ports cfg))"
    unfolding assms(2) port_offers_found ..
  ultimately show ?thesis
    using ports.scan_apply [of ks "(get, now, cfg)" eps k]
    by (simp add: discovery_owns_def auto_tag_def docker_tag_def map_of_eq_None_iff)
qed

definition only_ollama :: "string \<Rightarrow> http_result" where
  "only_ollama url =
     (if url = ''http://127.0.0.1:11434/health'' then HttpOk 200 ''200 OK'' else HttpErr ''refused'')"

definition ollama_config :: discovery_config where
  "ollama_config =
     \<lparr>dc_scan_ports = [11434], dc_scan_interval_secs = 60, dc_docker_enabled = False\<rparr>"

lemma only_ollama_found:
  "identify_service only_ollama (local_url 11434) = Some (''ollama'', InferenceType)"
  using infer_service_port [of 11434]
  by (simp add: identify_service_def only_ollama_def local_url_def show_port_literals word_le_nat_alt
      word_less_nat_alt)

theorem discovery_scan_exact_witness:
  "discovery_scan [''ollama-11434'', ''gone-9''] (only_ollama, \<lambda>_. 5, ollama_config)
     [''gone-9'' \<mapsto> discovered_endpoint (\<lambda>_. 0) ''gone-9'' ''gone'' ''u'' ApiType] ''gone-9'' = None"
proof -
  let ?e = "discovered_endpoint (\<lambda>_. 0) ''gone-9'' ''gone'' ''u'' ApiType"
  have u: "unat (11434 :: u16) = 11434" by simp
  have i: "iterates [''ollama-11434'', ''gone-9'']
      (fst (scan_ports only_ollama (\<lambda>_. 5) (dc_scan_ports ollama_config) [''gone-9'' \<mapsto> ?e] []))"
    by (auto simp: iterates_def ollama_config_def only_ollama_found show_port_literals Let_def)
  show ?thesis
    using discovery_scan_exact [OF i refl, of "''gone-9''"]
    by (simp add: discovered_endpoint_def auto_tag_def ollama_config_def only_ollama_found
        service_id_def show_port_literals)
qed

text \<open>
  A container scan that cannot list the containers changes nothing and reports the error. One that
  can keeps exactly the endpoints that are no container's and those of containers that still carry the
  service label, with their health, and adds one for every other labelled container; endpoints found
  by port scans are left alone, as port scans leave the containers' alone.
\<close>

theorem docker_scan_exact:
  assumes "iterates ks (fst (scan_containers now cs eps []))"
    and "alive = (\<exists>c \<in> set cs. \<exists>labels service. ct_labels c = Some labels \<and>
           labels ''ai.xfiles.service'' = Some service \<and> k = docker_id service c)"
  shows "docker_scan ks (now, Inl err) eps = (eps, Inl err) \<and>
    snd (docker_scan ks (now, Inr cs) eps) = Inr () \<and>
    (\<forall>e. eps k = Some e \<longrightarrow> fst (docker_scan ks (now, Inr cs) eps) k =
      (if ''docker'' \<in> set (ep_tags e) \<and> \<not> alive then None else Some e)) \<and>
    (eps k = None \<longrightarrow> (fst (docker_scan ks (now, Inr cs) eps) k \<noteq> None \<longleftrightarrow> alive))"
proof -
  have "iterates ks (insert_absent (container_offers now cs) eps)"
    using assms(1) by (simp add: scan_containers_eq)
  moreover have "alive \<longleftrightarrow> k \<in> fst ` set (container_offers now cs)"
    unfolding assms(2) container_offers_found ..
  moreover have "docker_scan ks (now, Inl err) eps = (eps, Inl err)"
    and "snd (docker_scan ks (now, Inr cs) eps) = Inr ()"
    by (simp_all add: docker_scan_def split_beta Let_def)
  ultimately show ?thesis
    using containers.scan_apply [of ks "(now, cs)" eps k]
    by (simp add: docker_owns_def docker_tag_def map_of_eq_None_iff)
qed

definition labelled :: "string \<Rightarrow> string \<Rightarrow> container" where
  "labelled i service =
     \<lparr>ct_id = Some i, ct_labels = Some [''ai.xfiles.service'' \<mapsto> service], ct_ports = None\<rparr>"

theorem docker_scan_exact_witness:
  "let e = docker_endpoint (\<lambda>_. 0) ''docker-llm-abc'' ''llm'' ''u'' ApiType in
   fst (docker_scan [''docker-llm-abc''] (\<lambda>_. 5, Inr [labelled ''abc'' ''llm'']) [''docker-llm-abc'' \<mapsto> e])
     ''docker-llm-abc'' = Some e"
proof -
  let ?e = "docker_endpoint (\<lambda>_. 0) ''docker-llm-abc'' ''llm'' ''u'' ApiType"
  have d: "docker_id ''llm'' (labelled ''abc'' ''llm'') = ''docker-llm-abc''"
    by (simp add: docker_id_def labelled_def eval_nat_numeral)
  have i: "iterates [''docker-llm-abc'']
      (fst (scan_containers (\<lambda>_. 5) [labelled ''abc'' ''llm''] [''docker-llm-abc'' \<mapsto> ?e] []))"
    using d by (simp add: iterates_def labelled_def Let_def)
  show ?thesis
    using docker_scan_exact [OF i refl, of "''docker-llm-abc''"] d
    by (simp add: labelled_def)
qed

end
