(* ===== verification/Tls.thy ===== *)
theory Tls
  imports Config
begin

text \<open>
  TLS, \<open>src/tls.rs\<close>: which settings are accepted, and the server configuration built from the files they
  name. Reading files, parsing PEM and everything of \<open>rustls\<close> are parameters; a certificate, a key and a
  built verifier are the texts that stand for them.
\<close>

record tls_paths =
  tp_cert_path :: string
  tp_key_path :: string
  tp_client_ca_path :: "string option"

record tls_lib =
  open_file :: "string \<Rightarrow> string result"
  pem_certs :: "string \<Rightarrow> string list result"
  pem_private_key :: "string \<Rightarrow> string option result"
  root_add :: "string list \<Rightarrow> string \<Rightarrow> string list result"
  client_verifier :: "string list \<Rightarrow> string result"
  with_single_cert :: "string list \<Rightarrow> string \<Rightarrow> unit result"

record server_config =
  sc_client_verifier :: "string option"
  sc_certs :: "string list"
  sc_key :: string
  sc_alpn_protocols :: "string list"

definition to_tls_config :: "tls_config \<Rightarrow> tls_paths option result" where
  "to_tls_config t =
     (if \<not> tc_enabled t then Inr None
      else case tc_cert_path t of
             None \<Rightarrow> Inl ''tls.enabled=true but cert_path is missing''
           | Some cert \<Rightarrow>
               (case tc_key_path t of
                  None \<Rightarrow> Inl ''tls.enabled=true but key_path is missing''
                | Some key \<Rightarrow>
                    Inr (Some \<lparr>tp_cert_path = cert, tp_key_path = key, tp_client_ca_path = tc_client_ca_path t\<rparr>)))"

definition load_certs :: "tls_lib \<Rightarrow> string \<Rightarrow> string list result" where
  "load_certs lib path = (case open_file lib path of Inl e \<Rightarrow> Inl e | Inr txt \<Rightarrow> pem_certs lib txt)"

definition load_key :: "tls_lib \<Rightarrow> string \<Rightarrow> string result" where
  "load_key lib path =
     (case open_file lib path of
        Inl e \<Rightarrow> Inl e
      | Inr txt \<Rightarrow>
          (case pem_private_key lib txt of
             Inl e \<Rightarrow> Inl e
           | Inr None \<Rightarrow> Inl ''no private key found''
           | Inr (Some key) \<Rightarrow> Inr key))"

fun add_roots :: "tls_lib \<Rightarrow> string list \<Rightarrow> string list \<Rightarrow> string list result" where
  "add_roots lib roots [] = Inr roots"
| "add_roots lib roots (cert # certs) =
     (case root_add lib roots cert of Inl e \<Rightarrow> Inl e | Inr roots' \<Rightarrow> add_roots lib roots' certs)"

text \<open>The verifier of client certificates, when an authority for them is configured.\<close>

definition build_verifier :: "tls_lib \<Rightarrow> string option \<Rightarrow> string option result" where
  "build_verifier lib client_ca =
     (case client_ca of
        None \<Rightarrow> Inr None
      | Some ca_path \<Rightarrow>
          (case load_certs lib ca_path of
             Inl e \<Rightarrow> Inl e
           | Inr ca_certs \<Rightarrow>
               (case add_roots lib [] ca_certs of
                  Inl e \<Rightarrow> Inl e
                | Inr roots \<Rightarrow>
                    (case client_verifier lib roots of
                       Inl e \<Rightarrow> Inl (''failed to build client verifier: '' @ e)
                     | Inr v \<Rightarrow> Inr (Some v)))))"

definition build_tls_config :: "tls_lib \<Rightarrow> tls_paths \<Rightarrow> server_config result" where
  "build_tls_config lib config =
     (case load_certs lib (tp_cert_path config) of
        Inl e \<Rightarrow> Inl e
      | Inr certs \<Rightarrow>
          (case load_key lib (tp_key_path config) of
             Inl e \<Rightarrow> Inl e
           | Inr key \<Rightarrow>
               (case build_verifier lib (tp_client_ca_path config) of
                  Inl e \<Rightarrow> Inl e
                | Inr verifier \<Rightarrow>
                    (case with_single_cert lib certs key of
                       Inl e \<Rightarrow> Inl e
                     | Inr _ \<Rightarrow>
                         Inr \<lparr>sc_client_verifier = verifier, sc_certs = certs, sc_key = key,
                              sc_alpn_protocols = [''h2'', ''http/1.1'']\<rparr>))))"

section \<open>A client authority is never ignored\<close>

lemma build_verifier_some:
  "build_verifier lib client_ca = Inr verifier \<Longrightarrow> verifier = None \<longleftrightarrow> client_ca = None"
  by (auto simp: build_verifier_def split: option.splits sum.splits)

lemma build_tls_config_verifier:
  "build_tls_config lib config = Inr sc \<Longrightarrow> sc_client_verifier sc = None \<longleftrightarrow> tp_client_ca_path config = None"
  by (auto simp: build_tls_config_def build_verifier_some split: sum.splits)

lemma add_roots_append:
  "add_roots lib roots (xs @ ys) =
     (case add_roots lib roots xs of Inl e \<Rightarrow> Inl e | Inr roots' \<Rightarrow> add_roots lib roots' ys)"
  by (induction xs arbitrary: roots) (auto split: sum.splits)

lemma to_tls_config_paths:
  "to_tls_config t = Inr p \<Longrightarrow>
     (p = None \<longleftrightarrow> \<not> tc_enabled t) \<and>
     (\<forall>q. p = Some q \<longrightarrow> tc_cert_path t = Some (tp_cert_path q) \<and> tc_key_path t = Some (tp_key_path q) \<and>
        tp_client_ca_path q = tc_client_ca_path t)"
  by (auto simp: to_tls_config_def split: if_splits option.splits)

end
