(* ===== verification/Daemon.thy ===== *)
theory Daemon
  imports Handlers Auth RateLimit Discovery Tls
begin

text \<open>
  The daemon of \<open>src/daemon.rs\<close>: how \<open>run\<close> builds the hub from its configuration and when it refuses to
  start (\<open>src/tls.rs\<close> included), the layers every HTTP request passes, the maintenance tasks, and the
  step relation of the whole hub: requests, frames and tasks in any order.
\<close>

section \<open>Start\<close>

record 're daemon =
  dm_app :: "'re app"
  dm_auth :: auth_config
  dm_limiter :: "rate_limiter option"
  dm_probing :: bool
  dm_tls :: "server_config option"

text \<open>What \<open>run\<close> gets from outside: the opened store, the identifiers and time for the endpoints, the
  MCP client with the number of endpoints it reached before the ten seconds were over, and the order
  in which the endpoints are visited; the TLS library, and
  whether the proxy's HTTP client can be built and the address be bound.\<close>

record 're start_env =
  se_lib :: "'re text_lib"
  se_store :: "store result"
  se_ids :: "nat \<Rightarrow> uuid"
  se_now :: datetime
  se_http :: mcp_http
  se_ks :: "endpoints \<Rightarrow> string list"
  se_reached :: nat
  se_tls :: tls_lib
  se_client :: "unit result"
  se_bind :: "unit result"

fun configured_endpoints :: "(nat \<Rightarrow> uuid) \<Rightarrow> datetime \<Rightarrow> nat \<Rightarrow> endpoint_config list \<Rightarrow>
    (uuid \<times> datetime \<times> endpoint_config) list" where
  "configured_endpoints ids now n [] = []"
| "configured_endpoints ids now n (c # cs) = (ids n, now, c) # configured_endpoints ids now (n + 1) cs"

fun register_clients :: "endpoints \<Rightarrow> string list \<Rightarrow> mcp_registry \<Rightarrow> mcp_registry" where
  "register_clients eps [] reg = reg"
| "register_clients eps (k # ks) reg =
     register_clients eps ks (case eps k of Some ep \<Rightarrow> mcp_register reg ep | None \<Rightarrow> reg)"

definition build_app :: "'re start_env \<Rightarrow> config \<Rightarrow> store \<Rightarrow> 're plumber \<Rightarrow> 're app" where
  "build_app env cfg st plumber =
     (let eps = register_endpoints Map.empty (configured_endpoints (se_ids env) (se_now env) 0 (cf_endpoints cfg));
          ks = se_ks env eps;
          mcp = discover_and_index (se_http env) (take (se_reached env) ks) (register_clients eps ks mcp_new);
          quantum = (if qc_enabled (cf_quantum cfg) then Some (quantum_router_new (cf_quantum cfg)) else None);
          circuit = (if ccf_enabled (cf_circuit cfg)
                     then Some (circuit_new (ccf_failure_threshold (cf_circuit cfg))
                        (ccf_recovery_timeout_secs (cf_circuit cfg)) (ccf_half_open_max_calls (cf_circuit cfg)))
                     else None)
      in state_manager_new agents_new eps vfs_new plumber quantum queue_new st mcp circuit
           (cf_default_model cfg) (cf_model_aliases cfg))"

lemmas app_built = build_app_def state_manager_new_def

text \<open>Either server opens its socket; only a plain one does so before its task is spawned.\<close>

definition open_server :: "'re start_env \<Rightarrow> config \<Rightarrow> server_config option result" where
  "open_server env cfg =
     (case to_tls_config (cf_tls cfg) of
        Inl e \<Rightarrow> Inl e
      | Inr (Some tls) \<Rightarrow>
          (case build_tls_config (se_tls env) tls of
             Inl e \<Rightarrow> Inl e
           | Inr sc \<Rightarrow> (case se_bind env of Inl e \<Rightarrow> Inl (''server error: '' @ e) | Inr _ \<Rightarrow> Inr (Some sc)))
      | Inr None \<Rightarrow> (case se_bind env of Inl e \<Rightarrow> Inl e | Inr _ \<Rightarrow> Inr None))"

definition daemon_start :: "'re start_env \<Rightarrow> config \<Rightarrow> 're daemon result" where
  "daemon_start env cfg =
     (case se_store env of
        Inl e \<Rightarrow> Inl (''SQLite store failed to initialize: '' @ e @ ''. Persistence is required.'')
      | Inr st \<Rightarrow>
          (case load_from_config (se_lib env) plumber_new (cf_plumber cfg) of
             (rules, Inl e) \<Rightarrow> Inl e
           | (rules, Inr _) \<Rightarrow>
               (let app = build_app env cfg st rules in
                case se_client env of
                  Inl e \<Rightarrow> Inl e
                | Inr _ \<Rightarrow>
                case open_server env cfg of
                  Inl e \<Rightarrow> Inl e
                | Inr tls \<Rightarrow>
                    Inr \<lparr>dm_app = app,
                         dm_auth = \<lparr>ac_api_key = as_api_key (cf_auth cfg), ac_agent_token = as_agent_token (cf_auth cfg)\<rparr>,
                         dm_limiter = (if rlc_enabled (cf_rate_limit cfg)
                           then Some (rate_limiter_new (rlc_max_requests (cf_rate_limit cfg))
                             (rlc_window_secs (cf_rate_limit cfg))) else None),
                         dm_probing = (ap_endpoints app \<noteq> Map.empty), dm_tls = tls\<rparr>)))"

text \<open>The age after which an agent counts as gone; both casts are those of the code.\<close>

definition stale_secs :: "config \<Rightarrow> int" where
  "stale_secs cfg = sint (max (2 * hc_heartbeat_interval_secs (cf_hub cfg)) 120)"

section \<open>The layers in front of the routes\<close>

text \<open>The layer added last is the outermost: authentication, then the limiter, then the routes. A
  request that passes both is \<open>Admitted\<close>.\<close>

datatype gate = RefusedAuth | RefusedRate | Admitted

record gated_request =
  gt_http :: http_request
  gt_limited :: limited_request

definition pass_layers :: "'re daemon \<Rightarrow> instant \<Rightarrow> gated_request \<Rightarrow> 're daemon \<times> gate" where
  "pass_layers dm now req =
     (case api_key_middleware (dm_auth dm) (gt_http req) of
        Unauthorized \<Rightarrow> (dm, RefusedAuth)
      | Next _ \<Rightarrow>
          (case dm_limiter dm of
             None \<Rightarrow> (dm, Admitted)
           | Some rl \<Rightarrow>
               (case rate_limit_middleware rl (gt_limited req) now of
                  (rl', Forward _) \<Rightarrow> (dm\<lparr>dm_limiter := Some rl'\<rparr>, Admitted)
                | (rl', Reject code txt) \<Rightarrow> (dm\<lparr>dm_limiter := Some rl'\<rparr>, RefusedRate))))"

fun pass_all :: "'re daemon \<Rightarrow> (instant \<times> gated_request) list \<Rightarrow> 're daemon \<times> gate list" where
  "pass_all dm [] = (dm, [])"
| "pass_all dm ((now, req) # reqs) =
     (let (dm1, g) = pass_layers dm now req; (dm2, gs) = pass_all dm1 reqs in (dm2, g # gs))"

section \<open>The whole hub\<close>

text \<open>Requests, frames of connections and maintenance, in any order.\<close>

inductive app_step :: "'re app \<Rightarrow> 're app \<Rightarrow> bool" where
  frame: "app_step app (app\<lparr>ap_hub := fst (handle_op env c k (ap_hub app) op)\<rparr>)"
| unregister: "app_step app (fst (unregister_agent henv app i))"
| file_write: "app_step app (fst (vfs_write app path body))"
| file_delete: "app_step app (fst (vfs_delete henv app path))"
| send: "app_step app (fst (send_message henv app msg))"
| post: "app_step app (fst (msg_handler henv app msg))"
| rpc: "app_step app (fst (grpc_send henv app msg))"
| chat: "app_step app (fst (ai_completions henv app req))"
| feedback: "app_step app (fst (quantum_feedback_handler henv app fe))"
| diagnostics: "app_step app (fst (conversation_quantum henv app i))"
| probe: "app_step app (app\<lparr>ap_endpoints := probe_all ks get (ap_endpoints app)\<rparr>)"
| prune_endpoints: "app_step app (app\<lparr>ap_endpoints := fst (prune_offline ks 600 now (ap_endpoints app))\<rparr>)"
| scan: "app_step app (app\<lparr>ap_endpoints := discovery_scan ks w (ap_endpoints app)\<rparr>)"
| containers: "app_step app (app\<lparr>ap_endpoints := fst (docker_scan ks v (ap_endpoints app))\<rparr>)"
| cleanup: "app_step app (app\<lparr>ap_hub := (ap_hub app)\<lparr>tp_agents := agents_cleanup ks thr now (tp_agents (ap_hub app))\<rparr>\<rparr>)"
| prune_queue: "app_step app (app\<lparr>ap_hub := (ap_hub app)\<lparr>tp_queue := prune_old ks 3600 now (tp_queue (ap_hub app))\<rparr>\<rparr>)"
| tick: "app_step app (app\<lparr>ap_hub := (ap_hub app)\<lparr>tp_quantum :=
    map_option (\<lambda>q. quantum_tick cs es q now) (tp_quantum (ap_hub app))\<rparr>\<rparr>)"

inductive_cases app_stepE: "app_step app app'"

inductive app_reachable :: "'re app \<Rightarrow> bool" where
  start: "daemon_start env cfg = Inr dm \<Longrightarrow> se_store env = Inr store_new \<Longrightarrow> app_reachable (dm_app dm)"
| step: "app_reachable app \<Longrightarrow> app_step app app' \<Longrightarrow> app_reachable app'"

definition app_ok :: "'re app \<Rightarrow> bool" where
  "app_ok app \<longleftrightarrow>
     registry_keyed (tp_agents (ap_hub app)) \<and> vfs_wf (tp_vfs (ap_hub app)) \<and> endpoints_keyed (ap_endpoints app) \<and>
     distinct (map mw_id (so_messages (ap_store app))) \<and> distinct (map key_of (so_quantum (ap_store app)))"

section \<open>Endpoints keep their keys\<close>

lemma keyed_upd: "endpoints_keyed eps \<Longrightarrow> ep_id e = k \<Longrightarrow> endpoints_keyed (eps(k \<mapsto> e))"
  by (auto simp: endpoints_keyed_def)

lemma keyed_remove: "endpoints_keyed eps \<Longrightarrow> endpoints_keyed (remove_keys ks eps)"
  by (auto simp: endpoints_keyed_def remove_keys_apply)

lemma keyed_probe_one: "endpoints_keyed eps \<Longrightarrow> endpoints_keyed (probe_one eps i pr)"
  by (auto simp: probe_one_def endpoints_keyed_def split: option.split)

lemma keyed_probe_all: "endpoints_keyed eps \<Longrightarrow> endpoints_keyed (probe_all ks get eps)"
proof -
  have "endpoints_keyed eps \<Longrightarrow> endpoints_keyed (probe_targets get ts eps)" for ts
    by (induction ts arbitrary: eps) (auto simp: keyed_probe_one)
  then show "endpoints_keyed eps \<Longrightarrow> endpoints_keyed (probe_all ks get eps)" by (simp add: probe_all_def)
qed

lemma keyed_insert_absent:
  "endpoints_keyed eps \<Longrightarrow> (\<And>k e. (k, e) \<in> set offers \<Longrightarrow> ep_id e = k) \<Longrightarrow> endpoints_keyed (insert_absent offers eps)"
  by (auto simp: endpoints_keyed_def insert_absent_apply split: option.splits dest: map_of_SomeD)

lemma keyed_discovery_scan: "endpoints_keyed eps \<Longrightarrow> endpoints_keyed (discovery_scan ks w eps)"
  by (cases w) (auto simp: discovery_scan_def scan_ports_eq discovery_prune_stale_def
      intro!: keyed_remove keyed_insert_absent dest: port_offers_owned)

lemma keyed_docker_scan: "endpoints_keyed eps \<Longrightarrow> endpoints_keyed (fst (docker_scan ks v eps))"
  by (cases v) (auto simp: docker_scan_def scan_containers_eq docker_prune_stale_def
      intro!: keyed_remove keyed_insert_absent dest: container_offers_owned split: sum.split)

lemma keyed_register: "endpoints_keyed eps \<Longrightarrow> endpoints_keyed (register_endpoints eps cfgs)"
  by (induction eps cfgs rule: register_endpoints.induct) (auto simp: keyed_upd split: sum.split)

section \<open>The other parts\<close>

lemma keyed_handle_op:
  "registry_keyed (tp_agents s) \<Longrightarrow> registry_keyed (tp_agents (fst (handle_op env c k s op)))"
  unfolding handle_op_agents
  by (cases op) (auto simp: registry_keyed_def agents_register_def agents_heartbeat_def split: option.split)

lemma keyed_cleanup: "registry_keyed reg \<Longrightarrow> registry_keyed (agents_cleanup ks thr now reg)"
  by (auto simp: registry_keyed_def agents_cleanup_def unregister_all_eq remove_keys_apply)

lemma keyed_unregister: "registry_keyed reg \<Longrightarrow> registry_keyed (fst (agents_unregister reg i))"
  by (auto simp: registry_keyed_def agents_unregister_def)

lemma wf_handle_op: "vfs_wf (tp_vfs s) \<Longrightarrow> vfs_wf (tp_vfs (fst (handle_op env c k s op)))"
proof (cases op)
  case (FsWrite path data)
  assume "vfs_wf (tp_vfs s)"
  then show ?thesis using vnode_write_wf [of "tp_vfs s" "normalize path" _ data] FsWrite
    by (auto simp: vfs_get_def split_beta Let_def split: option.split)
qed (auto simp: Let_def split_beta split: option.splits)

lemma wf_unmount: "vfs_wf v \<Longrightarrow> vfs_wf (unmount_agent_ns lk ks i v)"
  by (simp add: unmount_agent_ns_def unmount_keys_wf Let_def)

lemma distinct_insert_message:
  "distinct (map mw_id (so_messages st)) \<Longrightarrow> distinct (map mw_id (so_messages (fst (insert_message cd st m))))"
  by (auto simp: insert_message_def Let_def)

lemma insert_message_quantum [simp]: "so_quantum (fst (insert_message cd st m)) = so_quantum st"
  by (simp add: insert_message_def Let_def)

text \<open>The handlers that route a message leave agents, files and endpoints alone.\<close>

lemma route_parts [simp]:
  "tp_vfs (ap_hub (fst (route_in_app env app msg))) = tp_vfs (ap_hub app)"
  "ap_endpoints (fst (route_in_app env app msg)) = ap_endpoints app"
  "ap_endpoints (persist_message env msg app) = ap_endpoints app"
  "ap_store (persist_message env msg app) = fst (insert_message (he_codec env) (ap_store app) msg)"
  by (simp_all add: route_in_app_def with_routing_def persist_message_def Let_def split_beta)

lemma deliver_parts [simp]:
  "tp_agents (ap_hub (fst (deliver_selected d env app msg sel))) = tp_agents (ap_hub app)"
  "tp_vfs (ap_hub (fst (deliver_selected d env app msg sel))) = tp_vfs (ap_hub app)"
  "ap_endpoints (fst (deliver_selected d env app msg sel)) = ap_endpoints app"
  by (simp_all add: deliver_selected_def Let_def split_beta split: option.split)

lemma post_ok:
  assumes "app_ok app"
  shows "app_ok (fst (send_message env app msg)) \<and> app_ok (fst (msg_handler env app msg)) \<and>
    app_ok (fst (grpc_send env app msg))"
  using assms
  by (simp add: app_ok_def handler_parts grpc_send_def Let_def split_beta distinct_insert_message)

lemma chat_ok: "app_ok app \<Longrightarrow> app_ok (fst (ai_completions env app req))"
  by (simp add: app_ok_def ai_completions_def Let_def split_beta)

lemma feedback_ok: "app_ok app \<Longrightarrow> app_ok (fst (quantum_feedback_handler env app fe))"
proof (cases "tp_quantum (ap_hub app)")
  case (Some q)
  assume ok: "app_ok app"
  have m: "so_messages (insert_feedback cd (persist_observed env row st) fe) = so_messages st" for cd row st
    by (simp add: insert_feedback_def persist_observed_def save_quantum_state_def split: option.split)
  have "distinct (map key_of (so_quantum (persist_observed env row (ap_store app))))" for row
    using ok by (auto simp: app_ok_def persist_observed_def stored_counts_save(2) split: option.split)
  then show ?thesis using ok Some
    by (simp add: app_ok_def quantum_feedback_handler_def Let_def split_beta m)
qed (simp add: quantum_feedback_handler_def)

lemma diagnostics_ok: "app_ok app \<Longrightarrow> app_ok (fst (conversation_quantum env app i))"
  by (simp add: app_ok_def conversation_quantum_def Let_def split_beta split: sum.split option.split)

lemma files_ok:
  assumes "app_ok app"
  shows "app_ok (fst (vfs_write app path body)) \<and> app_ok (fst (vfs_delete env app path)) \<and>
    app_ok (fst (unregister_agent env app i))"
proof (intro conjI)
  let ?v = "tp_vfs (ap_hub app)"
  have v: "vfs_wf ?v" using assms by (simp add: app_ok_def)
  show "app_ok (fst (vfs_write app path body))"
    using assms vnode_write_wf [OF v, of "normalize path" _ "as_bytes body"]
    by (auto simp: vfs_write_def vfs_get_def Let_def split_beta app_ok_def split: option.split sum.split)
  show "app_ok (fst (vfs_delete env app path))"
    using assms vfs_remove_wf [OF v, of "he_lock env path" path]
    by (simp add: vfs_delete_def Let_def split_beta app_ok_def split: option.split)
  show "app_ok (fst (unregister_agent env app i))"
    using assms by (simp add: unregister_agent_def Let_def app_ok_def wf_unmount keyed_unregister)
qed

lemma app_step_ok:
  assumes "app_step app app'" and "app_ok app"
  shows "app_ok app'"
  using assms(1)
proof cases
  case (frame env c k op)
  then show ?thesis using assms(2) keyed_handle_op [of "ap_hub app" env c k op] wf_handle_op [of "ap_hub app" env c k op]
    by (simp del: handle_op.simps add: app_ok_def)
qed (use assms(2) in \<open>simp_all add: files_ok post_ok chat_ok feedback_ok diagnostics_ok\<close>,
     use assms(2) in \<open>simp_all add: app_ok_def keyed_probe_all keyed_discovery_scan keyed_docker_scan keyed_cleanup
       prune_offline_def Let_def keyed_remove\<close>)

lemma daemon_start_ok:
  assumes "daemon_start env cfg = Inr dm" and "se_store env = Inr store_new"
  shows "app_ok (dm_app dm)"
proof -
  have "endpoints_keyed Map.empty" by (simp add: endpoints_keyed_def)
  then show ?thesis
    using assms vfs_new_wf
    by (auto simp: daemon_start_def app_built Let_def app_ok_def agents_new_def registry_keyed_def keyed_register
        store_new_def split: sum.splits prod.splits)
qed

lemma app_reachable_ok: "app_reachable app \<Longrightarrow> app_ok app"
  by (induction rule: app_reachable.induct) (auto intro: daemon_start_ok app_step_ok)

section \<open>Fixed tables\<close>

text \<open>No step registers a tool server, indexes a tool or changes a routing rule.\<close>

lemma route_tables [simp]:
  "ap_mcp (fst (route_in_app env app msg)) = ap_mcp app"
  "tp_plumber (ap_hub (fst (route_in_app env app msg))) = tp_plumber (ap_hub app)"
  "ap_mcp (persist_message env msg app) = ap_mcp app"
  "ap_mcp (fst (deliver_selected d env app msg sel)) = ap_mcp app"
  "tp_plumber (ap_hub (fst (deliver_selected d env app msg sel))) = tp_plumber (ap_hub app)"
  by (simp_all add: route_in_app_def with_routing_def persist_message_def deliver_selected_def Let_def split_beta
      split: option.split)

lemma handle_op_plumber: "tp_plumber (fst (handle_op env c k s op)) = tp_plumber s"
  by (cases op) (auto simp: Let_def split_beta split: option.splits)

lemma app_step_tables:
  assumes "app_step app app'"
  shows "ap_mcp app' = ap_mcp app \<and> tp_plumber (ap_hub app') = tp_plumber (ap_hub app)"
  using assms
proof cases
  case (frame env c k op)
  then show ?thesis by (simp del: handle_op.simps add: handle_op_plumber)
qed (simp_all add: unregister_agent_def vfs_write_def vfs_delete_def handler_parts grpc_send_def ai_completions_def
    quantum_feedback_handler_def conversation_quantum_def Let_def split_beta split: option.split sum.split)

section \<open>Properties\<close>

text \<open>
  C14. In every state a hub that started with an empty store can reach, by requests, frames and
  maintenance in any order: an agent is registered under its own identifier, an endpoint under its own;
  the content of every node has the node's kind and belongs to no other node; no two stored messages
  share an identifier, no two stored quantum states a conversation and endpoint.
\<close>

theorem hub_well_typed:
  assumes "app_reachable app"
  shows "(\<forall>k a. tp_agents (ap_hub app) k = Some a \<longrightarrow> ag_id a = k) \<and>
    (\<forall>k e. ap_endpoints app k = Some e \<longrightarrow> ep_id e = k) \<and>
    (\<forall>p node. vf_nodes (tp_vfs (ap_hub app)) p = Some node \<longrightarrow>
       (case node of
          Dir n a \<Rightarrow> \<exists>cs. vf_heap (tp_vfs (ap_hub app)) a = Some (Children cs)
        | File n a \<Rightarrow> \<exists>bs. vf_heap (tp_vfs (ap_hub app)) a = Some (Content bs)
        | Ctl n a \<Rightarrow> \<exists>s. vf_heap (tp_vfs (ap_hub app)) a = Some (Status s)
        | Symlink t \<Rightarrow> True)) \<and>
    (\<forall>p q m n a. vf_nodes (tp_vfs (ap_hub app)) p = Some m \<longrightarrow> vf_nodes (tp_vfs (ap_hub app)) q = Some n \<longrightarrow>
       cell_addr m = Some a \<longrightarrow> cell_addr n = Some a \<longrightarrow> p = q) \<and>
    distinct (map mw_id (so_messages (ap_store app))) \<and>
    distinct (map (\<lambda>r. (qw_conversation_id r, qw_endpoint_id r)) (so_quantum (ap_store app)))"
proof -
  have k: "map (\<lambda>r. (qw_conversation_id r, qw_endpoint_id r)) rows = map key_of rows" for rows
    by (simp add: key_of_def)
  show ?thesis
    using app_reachable_ok [OF assms]
    unfolding app_ok_def registry_keyed_def endpoints_keyed_def vfs_wf_def cell_matches_def k
    by blast
qed

definition sample_start :: "string start_env" where
  "sample_start =
     \<lparr>se_lib = prefix_lib, se_store = Inr store_new, se_ids = of_nat, se_now = 0,
      se_http = \<lparr>get_manifest = (\<lambda>_. Inl ''refused''), post_json = (\<lambda>_ _. Inl ''refused'')\<rparr>,
      se_ks = (\<lambda>_. []), se_reached = 0,
      se_tls = \<lparr>open_file = (\<lambda>_. Inl ''not found''), pem_certs = (\<lambda>_. Inr []), pem_private_key = (\<lambda>_. Inr None),
        root_add = (\<lambda>rs c. Inr (rs @ [c])), client_verifier = (\<lambda>_. Inl ''no roots''),
        with_single_cert = (\<lambda>_ _. Inr ())\<rparr>,
      se_client = Inr (), se_bind = Inr ()\<rparr>"

definition bare_config :: config where
  "bare_config = config_default\<lparr>cf_plumber := [], cf_tls := tls_config_default\<rparr>"

lemma bare_start: "\<exists>dm. daemon_start sample_start bare_config = Inr dm"
proof -
  have "is_ok (daemon_start sample_start bare_config)"
    by (simp add: Let_def daemon_start_def open_server_def sample_start_def bare_config_def to_tls_config_def tls_config_default_def)
  then show ?thesis by (cases "daemon_start sample_start bare_config") auto
qed

theorem hub_well_typed_witness:
  "\<exists>dm. daemon_start sample_start bare_config = Inr dm \<and>
     distinct (map mw_id (so_messages (ap_store (fst (send_message sample_http_env (dm_app dm) (a_note ''x''))))))"
proof -
  obtain dm where dm: "daemon_start sample_start bare_config = Inr dm" using bare_start by blast
  have "se_store sample_start = Inr store_new" by (simp add: sample_start_def)
  from app_reachable.step [OF app_reachable.start [OF dm this] app_step.send]
  have "app_reachable (fst (send_message sample_http_env (dm_app dm) (a_note ''x'')))" .
  from hub_well_typed [OF this] dm show ?thesis by blast
qed

lemma load_rules:
  "is_ok (snd (load_from_config lib plumber_new rs)) \<longleftrightarrow> list_all (valid_rule lib) rs"
proof -
  have "snd (load_from_config lib plumber_new rs) =
      (case dropWhile (valid_rule lib) rs of
         [] \<Rightarrow> Inr () | r # _ \<Rightarrow> Inl (projl (regex_new lib (rc_pattern r))))"
    using load_from_config_spec [of lib "[]" rs] by (simp add: plumber_new_def)
  moreover have "list_all (valid_rule lib) rs \<longleftrightarrow> dropWhile (valid_rule lib) rs = []"
    by (simp add: list_all_iff dropWhile_eq_Nil_conv)
  ultimately show ?thesis by (cases "dropWhile (valid_rule lib) rs") simp_all
qed

lemma register_empty_iff:
  "register_endpoints eps (configured_endpoints ids now n cs) = Map.empty \<longleftrightarrow>
     eps = Map.empty \<and> \<not> list_ex (\<lambda>c. is_ok (parse_endpoint_type (epc_endpoint_type c))) cs"
proof (induction cs arbitrary: eps n)
  case (Cons c cs)
  have "eps(k \<mapsto> e) \<noteq> Map.empty" for k and e :: ai_endpoint by simp
  then show ?case using Cons.IH
    by (cases "parse_endpoint_type (epc_endpoint_type c)")
      (simp_all add: endpoint_from_config_def del: fun_upd_apply)
qed simp

lemma open_server_exact:
  "is_ok (open_server env cfg) = (is_ok (se_bind env) \<and>
     (if tc_enabled (cf_tls cfg)
      then tc_cert_path (cf_tls cfg) \<noteq> None \<and> tc_key_path (cf_tls cfg) \<noteq> None \<and>
        is_ok (build_tls_config (se_tls env)
          \<lparr>tp_cert_path = the (tc_cert_path (cf_tls cfg)), tp_key_path = the (tc_key_path (cf_tls cfg)),
           tp_client_ca_path = tc_client_ca_path (cf_tls cfg)\<rparr>)
      else True))"
  by (cases "tc_enabled (cf_tls cfg)"; cases "se_bind env"; cases "tc_cert_path (cf_tls cfg)";
      cases "tc_key_path (cf_tls cfg)")
    (simp_all add: open_server_def to_tls_config_def split: sum.split)

lemma open_server_verifier:
  "open_server env cfg = Inr tls \<Longrightarrow>
     (case tls of
        None \<Rightarrow> \<not> tc_enabled (cf_tls cfg)
      | Some sc \<Rightarrow> tc_enabled (cf_tls cfg) \<and> (sc_client_verifier sc = None \<longleftrightarrow> tc_client_ca_path (cf_tls cfg) = None))"
  using to_tls_config_paths [of "cf_tls cfg"]
  by (auto simp: open_server_def dest: build_tls_config_verifier split: option.splits sum.splits)

text \<open>
  C38. The daemon starts exactly when the store opens, every routing rule of the configuration is a valid
  pattern, the HTTP client can be built, the address be bound and TLS, if enabled, has a certificate and a key that load, and a
  client authority that loads if one is named. It then serves TLS exactly when that is enabled, and
  demands client certificates exactly when an authority for them is configured. The task that probes
  endpoints is started exactly when the configuration names an endpoint of a known type, so in a hub
  configured without endpoints those found later are never probed.
\<close>

theorem daemon_start_exact:
  "is_ok (daemon_start env cfg) = (is_ok (se_store env) \<and>
      list_all (\<lambda>r. is_ok (regex_new (se_lib env) (rc_pattern r))) (cf_plumber cfg) \<and>
      is_ok (se_client env) \<and> is_ok (se_bind env) \<and>
      (if tc_enabled (cf_tls cfg)
       then tc_cert_path (cf_tls cfg) \<noteq> None \<and> tc_key_path (cf_tls cfg) \<noteq> None \<and>
         is_ok (build_tls_config (se_tls env)
           \<lparr>tp_cert_path = the (tc_cert_path (cf_tls cfg)), tp_key_path = the (tc_key_path (cf_tls cfg)),
            tp_client_ca_path = tc_client_ca_path (cf_tls cfg)\<rparr>)
       else True)) \<and>
   (case daemon_start env cfg of
      Inl e \<Rightarrow> True
    | Inr dm \<Rightarrow>
        dm_probing dm = list_ex (\<lambda>c. is_ok (parse_endpoint_type (epc_endpoint_type c))) (cf_endpoints cfg) \<and>
        (case dm_tls dm of
           None \<Rightarrow> \<not> tc_enabled (cf_tls cfg)
         | Some sc \<Rightarrow> tc_enabled (cf_tls cfg) \<and>
             (sc_client_verifier sc = None \<longleftrightarrow> tc_client_ca_path (cf_tls cfg) = None)))"
proof -
  have rules: "is_ok (snd (load_from_config (se_lib env) plumber_new (cf_plumber cfg))) =
      list_all (\<lambda>r. is_ok (regex_new (se_lib env) (rc_pattern r))) (cf_plumber cfg)"
    by (simp add: load_rules list_all_iff valid_rule_def)
  have probing: "ap_endpoints (build_app env cfg st rules) \<noteq> Map.empty \<longleftrightarrow>
      list_ex (\<lambda>c. is_ok (parse_endpoint_type (epc_endpoint_type c))) (cf_endpoints cfg)" for st rules
    by (simp add: app_built Let_def register_empty_iff)
  show ?thesis
    unfolding rules [symmetric] daemon_start_def open_server_exact [symmetric]
    using open_server_verifier [of env cfg]
    by (cases "se_store env"; cases "load_from_config (se_lib env) plumber_new (cf_plumber cfg)";
        cases "snd (load_from_config (se_lib env) plumber_new (cf_plumber cfg))"; cases "se_client env";
        cases "open_server env cfg")
      (simp_all add: Let_def probing)
qed

definition passes_auth :: "'re daemon \<Rightarrow> gated_request \<Rightarrow> bool" where
  "passes_auth dm req \<longleftrightarrow> api_key_middleware (dm_auth dm) (gt_http req) \<noteq> Unauthorized"

lemma pass_layers_auth: "dm_auth (fst (pass_layers dm now req)) = dm_auth dm"
  by (simp add: pass_layers_def split_beta split: auth_outcome.split option.split prod.split limited.split)

lemma pass_layers_refused: "\<not> passes_auth dm req \<Longrightarrow> pass_layers dm now req = (dm, RefusedAuth)"
  by (simp add: passes_auth_def pass_layers_def)

lemma pass_layers_gate: "passes_auth dm req \<Longrightarrow> snd (pass_layers dm now req) \<noteq> RefusedAuth"
  by (auto simp: passes_auth_def pass_layers_def split: auth_outcome.split option.split prod.split limited.split)

text \<open>
  C25. Authentication runs before the rate limiter: requests without a valid key are refused without
  being counted. Over any sequence of requests the limiter ends as if only the authenticated ones had
  been made, those get the answers they would get alone, and each of the others is refused, so
  guessing keys is not limited.
\<close>

theorem unauthenticated_not_limited:
  "fst (pass_all dm reqs) = fst (pass_all dm (filter (\<lambda>r. passes_auth dm (snd r)) reqs)) \<and>
   filter (\<lambda>g. g \<noteq> RefusedAuth) (snd (pass_all dm reqs)) =
     snd (pass_all dm (filter (\<lambda>r. passes_auth dm (snd r)) reqs)) \<and>
   length (filter (\<lambda>g. g = RefusedAuth) (snd (pass_all dm reqs))) =
     length (filter (\<lambda>r. \<not> passes_auth dm (snd r)) reqs)"
proof (induction reqs arbitrary: dm)
  case (Cons x reqs)
  obtain now req where x: "x = (now, req)" by force
  show ?case
  proof (cases "passes_auth dm req")
    case True
    let ?dm = "fst (pass_layers dm now req)"
    have same: "passes_auth ?dm r = passes_auth dm r" for r
      by (simp add: passes_auth_def pass_layers_auth)
    show ?thesis
      using Cons.IH [of ?dm] True pass_layers_gate [OF True, of now]
      by (simp add: x split_beta Let_def same)
  next
    case False
    then show ?thesis using Cons.IH [of dm] by (simp add: x split_beta Let_def pass_layers_refused)
  qed
qed simp

section \<open>The rate limit behind authentication\<close>

text \<open>The requests of one client that get past both layers.\<close>

definition admitted_for :: "string \<Rightarrow> 're daemon \<Rightarrow> (instant \<times> gated_request) list \<Rightarrow> nat" where
  "admitted_for key dm reqs =
     length (filter (\<lambda>(req, g). g = Admitted \<and> rate_key (gt_limited (snd req)) = key)
       (zip reqs (snd (pass_all dm reqs))))"

definition limiter_events :: "'re daemon \<Rightarrow> (instant \<times> gated_request) list \<Rightarrow> (string \<times> instant) list" where
  "limiter_events dm reqs =
     map (\<lambda>(now, req). (rate_key (gt_limited req), now)) (filter (\<lambda>r. passes_auth dm (snd r)) reqs)"

lemma passes_auth_passed [simp]: "passes_auth (fst (pass_layers dm now r)) req = passes_auth dm req"
  by (simp add: passes_auth_def pass_layers_auth)

lemma limiter_events_passed [simp]: "limiter_events (fst (pass_layers dm now r)) reqs = limiter_events dm reqs"
  by (simp add: limiter_events_def)

lemma pass_layers_limited:
  assumes "passes_auth dm req" and "dm_limiter dm = Some rl"
  shows "dm_limiter (fst (pass_layers dm now req)) = Some (fst (rate_check rl (rate_key (gt_limited req)) now))"
    and "snd (pass_layers dm now req) = Admitted \<longleftrightarrow> snd (rate_check rl (rate_key (gt_limited req)) now)"
proof -
  obtain r where r: "api_key_middleware (dm_auth dm) (gt_http req) = Next r"
    using assms(1) by (cases "api_key_middleware (dm_auth dm) (gt_http req)") (auto simp: passes_auth_def)
  show "dm_limiter (fst (pass_layers dm now req)) = Some (fst (rate_check rl (rate_key (gt_limited req)) now))"
    "snd (pass_layers dm now req) = Admitted \<longleftrightarrow> snd (rate_check rl (rate_key (gt_limited req)) now)"
    using assms(2) by (simp_all add: pass_layers_def r rate_limit_middleware_def split_beta Let_def)
qed

lemma admitted_for_permits:
  "dm_limiter dm = Some rl \<Longrightarrow>
     admitted_for key dm reqs = permits (for_key key (snd (run_keyed rate_check rl (limiter_events dm reqs))))"
proof (induction reqs arbitrary: dm rl)
  case (Cons x reqs)
  obtain now req where x: "x = (now, req)" by force
  show ?case
  proof (cases "passes_auth dm req")
    case True
    note step = pass_layers_limited [OF True Cons.prems, of now]
    have "limiter_events dm (x # reqs) = (rate_key (gt_limited req), now) # limiter_events dm reqs"
      using True by (simp add: x limiter_events_def)
    then show ?thesis using Cons.IH [OF step(1)] step(2)
      by (simp add: x admitted_for_def split_beta Let_def)
  next
    case False
    then have "limiter_events dm (x # reqs) = limiter_events dm reqs" by (simp add: x limiter_events_def)
    then show ?thesis using Cons.IH [OF Cons.prems] False
      by (simp add: x admitted_for_def split_beta Let_def pass_layers_refused)
  qed
qed (simp add: admitted_for_def limiter_events_def)

lemma for_key_limiter_events:
  "for_key key (limiter_events dm reqs) =
     map fst (filter (\<lambda>r. passes_auth dm (snd r) \<and> rate_key (gt_limited (snd r)) = key) reqs)"
  by (induction reqs) (auto simp: limiter_events_def)

lemma sorted_last_hd_le:
  fixes ts us :: "nat list"
  assumes "sorted ts" and "ts \<noteq> []" and "us \<noteq> []" and "set us \<subseteq> set ts" and "sorted us"
  shows "last us - hd us \<le> last ts - hd ts"
proof -
  have "hd ts \<le> hd us" using assms by (cases ts) (auto dest: subsetD [OF _ hd_in_set])
  moreover have "last us \<le> last ts"
  proof -
    have "last us \<in> set ts" using assms(3,4) last_in_set by blast
    then show ?thesis using assms(1) by (induction ts) (auto split: if_splits)
  qed
  ultimately show ?thesis by simp
qed

lemma started_limiter:
  "daemon_start env cfg = Inr dm \<Longrightarrow> rlc_enabled (cf_rate_limit cfg) \<Longrightarrow>
     dm_limiter dm = Some (rate_limiter_new (rlc_max_requests (cf_rate_limit cfg)) (rlc_window_secs (cf_rate_limit cfg)))"
  by (auto simp: daemon_start_def Let_def split: sum.splits prod.splits)

text \<open>
  C19. From its start on, a hub with rate limiting enabled lets at most \<open>max_requests\<close> requests of one
  client past its layers, plus \<open>max_requests\<close> per window of the time between the first and the last
  request, up to a relative rounding error of \<open>2^-50\<close>; whatever is sent without the key, and however
  the requests of other clients fall in between.
\<close>

theorem layers_rate_bound:
  assumes "daemon_start env cfg = Inr dm" and "rlc_enabled (cf_rate_limit cfg)"
    and "sorted (map fst reqs)" and "reqs \<noteq> []"
  shows "real (admitted_for key dm reqs)
    \<le> real (unat (max (rlc_max_requests (cf_rate_limit cfg)) 1))
      * (1 + (1 + 1 / 2 ^ 50) * (secs (fst (last reqs) - fst (hd reqs))
          / real (unat (max (rlc_window_secs (cf_rate_limit cfg)) 1))))"
proof -
  let ?rl = "rate_limiter_new (rlc_max_requests (cf_rate_limit cfg)) (rlc_window_secs (cf_rate_limit cfg))"
  have fields: "rl_max_requests ?rl = max (rlc_max_requests (cf_rate_limit cfg)) 1"
    "rl_window_secs ?rl = max (rlc_window_secs (cf_rate_limit cfg)) 1" "rl_buckets ?rl key = None"
    by (simp_all add: rate_limiter_new_def)
  let ?mine = "filter (\<lambda>r. passes_auth dm (snd r) \<and> rate_key (gt_limited (snd r)) = key) reqs"
  have admitted: "admitted_for key dm reqs =
      permits (for_key key (snd (run_keyed rate_check ?rl (limiter_events dm reqs))))"
    by (rule admitted_for_permits [OF started_limiter [OF assms(1,2)]])
  show ?thesis
  proof (cases "map fst ?mine")
    case Nil
    then have "for_key key (limiter_events dm reqs) = []" by (simp only: for_key_limiter_events)
    then have "for_key key (snd (run_keyed rate_check ?rl (limiter_events dm reqs))) = []"
      using limiter.run_project [of ?rl "limiter_events dm reqs" key] by simp
    then have "real (admitted_for key dm reqs) = 0" unfolding admitted by simp
    moreover have "0 \<le> secs d" for d by (simp add: secs_def)
    then have "0 \<le> real m * (1 + (1 + 1 / 2 ^ 50) * (secs d / real n))" for m n d
      by (intro mult_nonneg_nonneg add_nonneg_nonneg divide_nonneg_nonneg of_nat_0_le_iff) simp_all
    ultimately show ?thesis by (simp only:)
  next
    case (Cons t0 ts)
    have events: "for_key key (limiter_events dm reqs) = t0 # ts" by (simp only: for_key_limiter_events Cons)
    have "sorted (t0 # ts)" unfolding Cons [symmetric] using assms(3) by (rule sorted_filter)
    moreover have "set (t0 # ts) \<subseteq> set (map fst reqs)" unfolding Cons [symmetric] by auto
    ultimately have "last (t0 # ts) - t0 \<le> last (map fst reqs) - hd (map fst reqs)"
      using sorted_last_hd_le [of "map fst reqs" "t0 # ts"] assms(3,4) by simp
    then have "secs (last (t0 # ts) - t0) \<le> secs (fst (last reqs) - fst (hd reqs))"
      using assms(4) by (simp add: secs_def last_map hd_map divide_right_mono)
    then have "(1 + 1 / 2 ^ 50) * (secs (last (t0 # ts) - t0) / real (unat (rl_window_secs ?rl)))
        \<le> (1 + 1 / 2 ^ 50) * (secs (fst (last reqs) - fst (hd reqs)) / real (unat (rl_window_secs ?rl)))"
      by (intro mult_left_mono divide_right_mono of_nat_0_le_iff) simp_all
    then have "real (unat (rl_max_requests ?rl)) * (1 + (1 + 1 / 2 ^ 50) * (secs (last (t0 # ts) - t0) / real (unat (rl_window_secs ?rl))))
        \<le> real (unat (rl_max_requests ?rl)) * (1 + (1 + 1 / 2 ^ 50)
          * (secs (fst (last reqs) - fst (hd reqs)) / real (unat (rl_window_secs ?rl))))"
      by (intro mult_left_mono add_left_mono of_nat_0_le_iff) simp_all
    with rate_bound [OF rate_reachable.start fields(3) events \<open>sorted (t0 # ts)\<close>] show ?thesis
      unfolding admitted fields by (rule order_trans)
  qed
qed

definition limited_config :: config where
  "limited_config = bare_config\<lparr>cf_rate_limit := \<lparr>rlc_enabled = True, rlc_max_requests = 2, rlc_window_secs = 60\<rparr>\<rparr>"

definition limited_get :: gated_request where
  "limited_get =
     \<lparr>gt_http = \<lparr>rq_method = ''GET'', rq_path = ''/agents'', rq_headers = []\<rparr>,
      gt_limited = \<lparr>lr_connect_info = None, lr_path = ''/agents''\<rparr>\<rparr>"

theorem layers_rate_bound_witness:
  "\<exists>dm. daemon_start sample_start limited_config = Inr dm \<and>
     real (admitted_for ''/agents'' dm (map (\<lambda>t. (t, limited_get)) [0, 1, 2, 30 * nanos_per_sec]))
       \<le> 2 * (1 + (1 + 1 / 2 ^ 50) * (1 / 2))"
proof -
  have "is_ok (daemon_start sample_start limited_config)"
    by (simp add: Let_def daemon_start_def open_server_def sample_start_def limited_config_def bare_config_def
        to_tls_config_def tls_config_default_def)
  then obtain dm where dm: "daemon_start sample_start limited_config = Inr dm"
    by (cases "daemon_start sample_start limited_config") auto
  have cfg: "cf_rate_limit limited_config = \<lparr>rlc_enabled = True, rlc_max_requests = 2, rlc_window_secs = 60\<rparr>"
    by (simp add: limited_config_def)
  have "max (2 :: u64) 1 = 2" "max (60 :: u64) 1 = 60" by (simp_all add: max_def word_le_nat_alt)
  then have "real (admitted_for ''/agents'' dm (map (\<lambda>t. (t, limited_get)) [0, 1, 2, 30 * nanos_per_sec]))
      \<le> 2 * (1 + (1 + 1 / 2 ^ 50) * (secs (30 * nanos_per_sec) / 60))"
    using layers_rate_bound [OF dm, of "map (\<lambda>t. (t, limited_get)) [0, 1, 2, 30 * nanos_per_sec]" "''/agents''"]
    by (simp add: cfg nanos_per_sec_def)
  then show ?thesis using dm by (simp add: secs_def nanos_per_sec_def)
qed

end
