(* ===== verification/HubEvents.thy ===== *)
theory HubEvents
  imports Daemon
begin

text \<open>
  The step relation of \<open>Daemon\<close> says how the state of the hub changes. Here every step is an event, a
  value, whose effect is a function that also gives the frames it sends to connected agents: frames of
  connections (\<open>src/net/transport.rs\<close>), the HTTP and RPC handlers (\<open>src/daemon.rs\<close>, \<open>src/api.rs\<close>) and the
  background tasks.
\<close>

section \<open>Events\<close>

datatype 're hub_event =
    FrameIn "'re op_env" chan_id string protocol_op
  | Unregister "'re http_env" string
  | FileWrite string string
  | FileDelete "'re http_env" string
  | SendRest "'re http_env" message
  | PostRest "'re http_env" message
  | SendRpc "'re http_env" message
  | ChatReq "'re http_env" chat_request
  | FeedbackReq "'re http_env" feedback_event
  | Diagnostics "'re http_env" string
  | PruneQueues "string list" datetime
  | CleanupAgents "string list" int datetime
  | TickQuantum "uuid list" "uuid list" datetime
  | ProbeEndpoints "string list" "string \<Rightarrow> probe_reply"
  | PruneEndpoints "string list" datetime
  | ScanPorts "string list" "(string \<Rightarrow> http_result) \<times> (string \<Rightarrow> datetime) \<times> discovery_config"
  | ScanContainers "string list" "(string \<Rightarrow> datetime) \<times> container list result"

definition with_hub :: "('re transport \<Rightarrow> 're transport) \<Rightarrow> 're app \<Rightarrow> 're app" where
  "with_hub f app = app\<lparr>ap_hub := f (ap_hub app)\<rparr>"

fun hub_act :: "'re app \<Rightarrow> 're hub_event \<Rightarrow> 're app \<times> sends" where
  "hub_act app (FrameIn env c k op) =
     (let (hub, outs) = handle_op env c k (ap_hub app) op in (app\<lparr>ap_hub := hub\<rparr>, outs))"
| "hub_act app (Unregister env i) = (fst (unregister_agent env app i), [])"
| "hub_act app (FileWrite path body) = (fst (vfs_write app path body), [])"
| "hub_act app (FileDelete env path) = (fst (vfs_delete env app path), [])"
| "hub_act app (SendRest env msg) = (let (app', outs, a) = send_message env app msg in (app', outs))"
| "hub_act app (PostRest env msg) = (let (app', outs, a) = msg_handler env app msg in (app', outs))"
| "hub_act app (SendRpc env msg) = (let (app', outs, a) = grpc_send env app msg in (app', outs))"
| "hub_act app (ChatReq env req) = (fst (ai_completions env app req), [])"
| "hub_act app (FeedbackReq env fe) = (fst (quantum_feedback_handler env app fe), [])"
| "hub_act app (Diagnostics env i) = (fst (conversation_quantum env app i), [])"
| "hub_act app (PruneQueues ks now) =
     (with_hub (\<lambda>h. h\<lparr>tp_queue := prune_old ks 3600 now (tp_queue h)\<rparr>) app, [])"
| "hub_act app (CleanupAgents ks thr now) =
     (with_hub (\<lambda>h. h\<lparr>tp_agents := agents_cleanup ks thr now (tp_agents h)\<rparr>) app, [])"
| "hub_act app (TickQuantum cs es now) =
     (with_hub (\<lambda>h. h\<lparr>tp_quantum := map_option (\<lambda>q. quantum_tick cs es q now) (tp_quantum h)\<rparr>) app, [])"
| "hub_act app (ProbeEndpoints ks get) = (app\<lparr>ap_endpoints := probe_all ks get (ap_endpoints app)\<rparr>, [])"
| "hub_act app (PruneEndpoints ks now) =
     (app\<lparr>ap_endpoints := fst (prune_offline ks 600 now (ap_endpoints app))\<rparr>, [])"
| "hub_act app (ScanPorts ks w) = (app\<lparr>ap_endpoints := discovery_scan ks w (ap_endpoints app)\<rparr>, [])"
| "hub_act app (ScanContainers ks v) = (app\<lparr>ap_endpoints := fst (docker_scan ks v (ap_endpoints app))\<rparr>, [])"

fun hub_run :: "'re app \<Rightarrow> 're hub_event list \<Rightarrow> 're app \<times> sends" where
  "hub_run app [] = (app, [])"
| "hub_run app (ev # evs) =
     (let (app1, outs) = hub_act app ev; (app2, outs') = hub_run app1 evs in (app2, outs @ outs'))"

section \<open>Events are the steps of the hub\<close>

lemma hub_act_states:
  "fst (hub_act app (FrameIn env c k op)) = app\<lparr>ap_hub := fst (handle_op env c k (ap_hub app) op)\<rparr>"
  "fst (hub_act app (SendRest henv msg)) = fst (send_message henv app msg)"
  "fst (hub_act app (PostRest henv msg)) = fst (msg_handler henv app msg)"
  "fst (hub_act app (SendRpc henv msg)) = fst (grpc_send henv app msg)"
  by (simp_all del: handle_op.simps add: split_beta)

lemma app_step_event: "app_step app app' \<longleftrightarrow> (\<exists>ev. app' = fst (hub_act app ev))"
proof
  assume "app_step app app'"
  then show "\<exists>ev. app' = fst (hub_act app ev)"
    by (rule app_step.cases)
      (hypsubst, rule exI, rule hub_act_states [symmetric] hub_act.simps [THEN arg_cong [of _ _ fst], symmetric,
        unfolded with_hub_def fst_conv])+
next
  assume "\<exists>ev. app' = fst (hub_act app ev)"
  then obtain ev where "app' = fst (hub_act app ev)" ..
  then show "app_step app app'"
    by (cases ev) (simp_all del: handle_op.simps add: split_beta with_hub_def app_step.intros)
qed

lemma hub_run_reachable: "app_reachable app \<Longrightarrow> app_reachable (fst (hub_run app evs))"
proof (induction evs arbitrary: app)
  case (Cons ev evs)
  have "app_step app (fst (hub_act app ev))" unfolding app_step_event by blast
  from Cons.IH [OF app_reachable.step [OF Cons.prems this]] show ?case by (simp add: split_beta Let_def)
qed simp

end
