(* ===== verification/Server.thy ===== *)
theory Server
  imports HubEvents
begin

text \<open>
  The HTTP server: the route tables of \<open>src/daemon.rs\<close> and \<open>src/api.rs\<close>, the nesting of one in the other,
  and the whole way of a request through the layers to its handler. The older routes whose handlers
  repeat those of the API share their definitions. What the web framework does is a parameter: finding
  the pattern a path matches, reading request bodies, the cross-origin layer, the WebSocket upgrade.
\<close>

section \<open>Requests, answers and the framework\<close>

record server_request =
  sq_gated :: gated_request
  sq_body :: string

datatype served = Answer http_answer | PlainText u16 string | RpcAnswer u16 "u8 list" | Upgraded string

abbreviation sq_http :: "server_request \<Rightarrow> http_request" where
  "sq_http req \<equiv> gt_http (sq_gated req)"

text \<open>An extractor gives the handler's argument, or the code and text with which the framework answers.\<close>

type_synonym rejection = "u16 \<times> string"

type_synonym 'b extractor = "server_request \<Rightarrow> rejection + 'b"

definition rejected :: "rejection \<Rightarrow> served" where
  "rejected r = PlainText (fst r) (snd r)"

record server =
  sv_find :: "string list \<Rightarrow> string \<Rightarrow> (string \<times> string list) option"
  sv_cors :: "http_request \<Rightarrow> rejection option"
  sv_message :: "message extractor"
  sv_chat :: "chat_request extractor"
  sv_feedback :: "feedback_event extractor"
  sv_value :: "json extractor"
  sv_orchestrate :: "orchestrate_request extractor"
  sv_text :: "string extractor"
  sv_upgrade :: "unit extractor"
  sv_metrics :: "string result"
  sv_rpc :: rpc_codec

type_synonym 're handler =
  "server \<Rightarrow> 're http_env \<Rightarrow> server_request \<Rightarrow> string list \<Rightarrow> 're daemon \<Rightarrow> 're app \<times> sends \<times> served"

type_synonym 're route = "string \<times> (string \<times> 're handler) list"

definition first_param :: "string list \<Rightarrow> string" where
  "first_param ps = (case ps of [] \<Rightarrow> '''' | p # _ \<Rightarrow> p)"

definition answers :: "http_answer \<Rightarrow> 're handler" where
  "answers a sv env req ps dm = (dm_app dm, [], Answer a)"

definition looks :: "('re http_env \<Rightarrow> 're app \<Rightarrow> http_answer) \<Rightarrow> 're handler" where
  "looks f sv env req ps dm = (dm_app dm, [], Answer (f env (dm_app dm)))"

definition looks_at :: "('re http_env \<Rightarrow> 're app \<Rightarrow> string \<Rightarrow> http_answer) \<Rightarrow> 're handler" where
  "looks_at f sv env req ps dm = (dm_app dm, [], Answer (f env (dm_app dm) (first_param ps)))"

definition changes_at :: "('re http_env \<Rightarrow> 're app \<Rightarrow> string \<Rightarrow> 're app \<times> http_answer) \<Rightarrow> 're handler" where
  "changes_at f sv env req ps dm =
     (let (app, a) = f env (dm_app dm) (first_param ps) in (app, [], Answer a))"

definition extracting ::
    "(server \<Rightarrow> 'b extractor) \<Rightarrow> ('re http_env \<Rightarrow> string list \<Rightarrow> 're app \<Rightarrow> 'b \<Rightarrow> 're app \<times> sends \<times> served) \<Rightarrow>
     're handler" where
  "extracting ext f sv env req ps dm =
     (case ext sv req of Inl a \<Rightarrow> (dm_app dm, [], rejected a) | Inr b \<Rightarrow> f env ps (dm_app dm) b)"

definition answering :: "'re app \<times> sends \<times> http_answer \<Rightarrow> 're app \<times> sends \<times> served" where
  "answering r = (case r of (app, outs, a) \<Rightarrow> (app, outs, Answer a))"

definition quietly :: "'re app \<times> http_answer \<Rightarrow> 're app \<times> sends \<times> served" where
  "quietly r = (case r of (app, a) \<Rightarrow> (app, [], Answer a))"

section \<open>The older routes\<close>

definition ws_handler_wrapped :: "'re handler" where
  "ws_handler_wrapped sv env req ps dm =
     (case sv_upgrade sv req of
        Inl a \<Rightarrow> (dm_app dm, [], rejected a)
      | Inr _ \<Rightarrow>
          if \<not> check_agent_token (dm_auth dm) (rq_headers (sq_http req))
          then (dm_app dm, [], PlainText 401 ''Unauthorized'')
          else (dm_app dm, [], Upgraded (first_param ps)))"

definition health_handler :: "'re handler" where
  "health_handler = answers (200, BodyJson (JObject [(''status'', JString ''ok'')]))"

definition metrics_handler :: "'re handler" where
  "metrics_handler sv env req ps dm =
     (dm_app dm, [], case sv_metrics sv of Inr txt \<Rightarrow> PlainText 200 txt | Inl e \<Rightarrow> PlainText 500 e)"

definition fs_read_handler :: "'re handler" where
  "fs_read_handler = looks_at vfs_read"

definition fs_write_handler :: "'re handler" where
  "fs_write_handler = extracting sv_text (\<lambda>env ps app body. quietly (vfs_write app (first_param ps) body))"

definition proxy_chat_handler :: "'re handler" where
  "proxy_chat_handler = extracting sv_chat (\<lambda>env ps app req.
     case ai_completions env app req of
       (app', answer) \<Rightarrow>
         (app', [], Answer (case answer of AnswerJson code j \<Rightarrow> code | AnswerStream code s \<Rightarrow> code, BodyProxy answer)))"

definition proxy_models_handler :: "'re handler" where
  "proxy_models_handler = looks ai_models"

definition agents_handler :: "'re handler" where
  "agents_handler = looks list_agents"

definition endpoints_handler :: "'re handler" where
  "endpoints_handler = looks list_endpoints"

definition mcp_tools_handler :: "'re handler" where
  "mcp_tools_handler = looks list_mcp_tools"

definition conversations_handler :: "'re handler" where
  "conversations_handler = looks list_conversations_handler"

definition conversation_messages_handler :: "'re handler" where
  "conversation_messages_handler = looks_at conversation_messages"

definition conversation_quantum_handler :: "'re handler" where
  "conversation_quantum_handler = changes_at conversation_quantum"

definition rpc_route :: "'re handler" where
  "rpc_route sv env req ps dm =
     (case grpc_handler (sv_rpc sv) env (dm_app dm) (as_bytes (sq_body req)) of
        (app, outs, code, resp) \<Rightarrow> (app, outs, RpcAnswer code (grpc_bytes (sv_rpc sv) resp)))"

definition legacy_routes :: "'re route list" where
  "legacy_routes =
     [(''/health'', [(''GET'', health_handler)]),
      (''/metrics'', [(''GET'', metrics_handler)]),
      (''/fs/*path'', [(''GET'', fs_read_handler), (''POST'', fs_write_handler)]),
      (''/msg'', [(''POST'', extracting sv_message (\<lambda>env ps app msg. answering (msg_handler env app msg)))]),
      (''/v1/models'', [(''GET'', proxy_models_handler)]),
      (''/v1/chat/completions'', [(''POST'', proxy_chat_handler)]),
      (''/quantum/state'', [(''GET'', looks quantum_state_handler)]),
      (''/quantum/feedback'',
        [(''POST'', extracting sv_feedback (\<lambda>env ps app fe. quietly (quantum_feedback_handler env app fe)))]),
      (''/circuit/state'', [(''GET'', looks circuit_state_handler)]),
      (''/grpc'', [(''POST'', rpc_route)]),
      (''/agents'', [(''GET'', agents_handler)]),
      (''/endpoints'', [(''GET'', endpoints_handler)]),
      (''/mcp/tools'', [(''GET'', mcp_tools_handler)]),
      (''/conversations'', [(''GET'', conversations_handler)]),
      (''/conversations/:id/messages'', [(''GET'', conversation_messages_handler)]),
      (''/conversations/:id/quantum-state'', [(''GET'', conversation_quantum_handler)]),
      (''/ws/:agent_id'', [(''GET'', ws_handler_wrapped)])]"

section \<open>The API\<close>

definition quantum_state :: "'re handler" where
  "quantum_state = looks quantum_state_handler"

definition quantum_feedback_route :: "'re handler" where
  "quantum_feedback_route = extracting sv_feedback (\<lambda>env ps app fe. quietly (quantum_feedback_handler env app fe))"

definition circuit_state_route :: "'re handler" where
  "circuit_state_route = looks circuit_state_handler"

definition build_router :: "'re route list" where
  "build_router =
     [(''/api/v1/agents'', [(''GET'', looks list_agents), (''POST'', answers register_agent)]),
      (''/api/v1/agents/:id'', [(''GET'', looks_at get_agent), (''DELETE'', changes_at unregister_agent)]),
      (''/api/v1/agents/:id/messages'', [(''GET'', answers agent_messages)]),
      (''/api/v1/endpoints'', [(''GET'', looks list_endpoints)]),
      (''/api/v1/endpoints/:id'', [(''GET'', looks_at (\<lambda>env. get_endpoint))]),
      (''/api/v1/endpoints/:id/health'', [(''GET'', looks_at (\<lambda>env. endpoint_health_handler))]),
      (''/api/v1/fs/*path'',
        [(''GET'', looks_at vfs_read),
         (''POST'', extracting sv_text (\<lambda>env ps app body. quietly (vfs_write app (first_param ps) body))),
         (''DELETE'', changes_at vfs_delete)]),
      (''/api/v1/messages'',
        [(''POST'', extracting sv_message (\<lambda>env ps app msg. answering (send_message env app msg))),
         (''GET'', answers list_messages)]),
      (''/api/v1/messages/:id'', [(''GET'', answers get_message)]),
      (''/api/v1/conversations'', [(''GET'', looks list_conversations_handler)]),
      (''/api/v1/conversations/:id'', [(''GET'', looks_at get_conversation)]),
      (''/api/v1/conversations/:id/messages'', [(''GET'', looks_at conversation_messages)]),
      (''/api/v1/conversations/:id/quantum-state'', [(''GET'', changes_at conversation_quantum)]),
      (''/api/v1/ai/completions'', [(''POST'', proxy_chat_handler)]),
      (''/api/v1/ai/models'', [(''GET'', looks ai_models)]),
      (''/api/v1/mcp/tools'', [(''GET'', looks list_mcp_tools)]),
      (''/api/v1/mcp/tools/:name/call'',
        [(''POST'', extracting sv_value
            (\<lambda>env ps app body. (app, [], Answer (call_mcp_tool env app (first_param ps) body))))]),
      (''/api/v1/quantum/state'', [(''GET'', quantum_state)]),
      (''/api/v1/quantum/feedback'', [(''POST'', quantum_feedback_route)]),
      (''/api/v1/circuit/state'', [(''GET'', circuit_state_route)]),
      (''/api/v1/orchestrate'',
        [(''POST'', extracting sv_orchestrate (\<lambda>env ps app req. answering (orchestrate env app req)))])]"

section \<open>Serving a request\<close>

definition nest :: "string \<Rightarrow> 're route list \<Rightarrow> 're route list" where
  "nest base routes = map (\<lambda>(pat, methods). (base @ pat, methods)) routes"

definition hub_routes :: "'re route list" where
  "hub_routes = legacy_routes @ nest ''/api/v1'' build_router"

text \<open>A handler for \<open>GET\<close> answers \<open>HEAD\<close> as well.\<close>

definition find_method :: "(string \<times> 're handler) list \<Rightarrow> string \<Rightarrow> 're handler option" where
  "find_method methods m =
     (case map_of methods m of
        Some h \<Rightarrow> Some h
      | None \<Rightarrow> if m = ''HEAD'' then map_of methods ''GET'' else None)"

definition dispatch :: "'re route list \<Rightarrow> 're handler" where
  "dispatch routes sv env req ps dm =
     (case sv_find sv (map fst routes) (rq_path (sq_http req)) of
        None \<Rightarrow> (dm_app dm, [], PlainText 404 '''')
      | Some (pat, params) \<Rightarrow>
          (case map_of routes pat of
             None \<Rightarrow> (dm_app dm, [], PlainText 404 '''')
           | Some methods \<Rightarrow>
               (case find_method methods (rq_method (sq_http req)) of
                  None \<Rightarrow> (dm_app dm, [], PlainText 405 '''')
                | Some h \<Rightarrow> h sv env req params dm)))"

definition serve ::
    "server \<Rightarrow> 're http_env \<Rightarrow> server_request \<Rightarrow> 're daemon \<Rightarrow> 're daemon \<times> sends \<times> served" where
  "serve sv env req dm0 =
     (case pass_layers dm0 (he_instant env) (sq_gated req) of
        (dm, RefusedAuth) \<Rightarrow> (dm, [], PlainText 401 ''Unauthorized'')
      | (dm, RefusedRate) \<Rightarrow> (dm, [], PlainText 429 ''Rate limit exceeded. Try again later.'')
      | (dm, Admitted) \<Rightarrow>
          (case sv_cors sv (sq_http req) of
             Some a \<Rightarrow> (dm, [], rejected a)
           | None \<Rightarrow>
               (let (app, outs, a) = dispatch hub_routes sv env req [] dm in (dm\<lparr>dm_app := app\<rparr>, outs, a))))"

text \<open>The requests of a list one after the other: the daemon they leave and the frames they sent.\<close>

fun serve_all ::
    "server \<Rightarrow> 're daemon \<Rightarrow> ('re http_env \<times> server_request) list \<Rightarrow> 're daemon \<times> sends" where
  "serve_all sv dm [] = (dm, [])"
| "serve_all sv dm ((env, req) # reqs) =
     (let (dm1, outs, a) = serve sv env req dm; (dm2, outs') = serve_all sv dm1 reqs in (dm2, outs @ outs'))"

section \<open>Every handler is an event of the hub\<close>

text \<open>What a handler gives has the effect of one event, or none.\<close>

definition acts :: "'re app \<Rightarrow> 're app \<times> sends \<times> 'a \<Rightarrow> bool" where
  "acts app r \<longleftrightarrow> (fst r, fst (snd r)) = (app, []) \<or> (\<exists>ev. (fst r, fst (snd r)) = hub_act app ev)"

lemma acts_idle [simp]: "acts app (app, [], a)"
  by (simp add: acts_def)

lemma acts_event: "hub_act app ev = (fst r, fst (snd r)) \<Longrightarrow> acts app r"
  unfolding acts_def by metis

lemma acts_events:
  "acts app (send_message env app msg)" "acts app (msg_handler env app msg)" "acts app (grpc_send env app msg)"
  "acts app (fst (ai_completions env app chat), [], a)"
  "acts app (fst (vfs_write app path body), [], a)"
  "acts app (fst (vfs_delete env app path), [], a)"
  "acts app (fst (unregister_agent env app i), [], a)"
  "acts app (fst (quantum_feedback_handler env app fe), [], a)"
  "acts app (fst (conversation_quantum env app i), [], a)"
proof -
  show "acts app (send_message env app msg)"
    by (rule acts_event [of _ "SendRest env msg"]) (simp add: split_beta)
  show "acts app (msg_handler env app msg)"
    by (rule acts_event [of _ "PostRest env msg"]) (simp add: split_beta)
  show "acts app (grpc_send env app msg)"
    by (rule acts_event [of _ "SendRpc env msg"]) (simp add: split_beta)
  show "acts app (fst (ai_completions env app chat), [], a)" "acts app (fst (vfs_write app path body), [], a)"
    "acts app (fst (vfs_delete env app path), [], a)" "acts app (fst (unregister_agent env app i), [], a)"
    "acts app (fst (quantum_feedback_handler env app fe), [], a)"
    "acts app (fst (conversation_quantum env app i), [], a)"
    by (rule acts_event, unfold fst_conv snd_conv, rule hub_act.simps)+
qed

definition handler_ok :: "'re handler \<Rightarrow> bool" where
  "handler_ok h \<longleftrightarrow> (\<forall>sv env req ps dm. acts (dm_app dm) (h sv env req ps dm))"

lemma reading_ok:
  "handler_ok (answers a)" "handler_ok (looks f)" "handler_ok (looks_at g)" "handler_ok metrics_handler"
  by (simp_all add: handler_ok_def answers_def looks_def looks_at_def metrics_handler_def)

lemma changes_at_ok: "(\<And>env app p (a :: served). acts app (fst (f env app p), [], a)) \<Longrightarrow> handler_ok (changes_at f)"
  by (simp add: handler_ok_def changes_at_def split_beta)

lemma extracting_ok:
  "(\<And>env ps app b. acts app (f env ps app b)) \<Longrightarrow> handler_ok (extracting ext f)"
  by (simp add: handler_ok_def extracting_def split: sum.split)

lemma acts_wrapped: "acts app r \<Longrightarrow> acts app (answering r)"
    "(\<And>a. acts app (fst r', [], a)) \<Longrightarrow> acts app (quietly r')"
  by (simp_all add: answering_def quietly_def acts_def split_beta)

lemma orchestrate_acts: "acts app (orchestrate env app req)"
  by (auto simp: orchestrate_def split_beta Let_def acts_events split: sum.split)

lemma grpc_acts: "acts app (grpc_handler codec env app body)"
  using acts_events(3) [of app env]
  by (auto simp: grpc_handler_def split_beta Let_def acts_def split: sum.split)

lemma step_handlers_ok:
  "handler_ok ws_handler_wrapped" "handler_ok rpc_route" "handler_ok proxy_chat_handler"
proof -
  show "handler_ok ws_handler_wrapped"
    by (simp add: handler_ok_def ws_handler_wrapped_def split: sum.split)
  show "handler_ok rpc_route"
    unfolding handler_ok_def rpc_route_def using grpc_acts by (fastforce simp: acts_def split_beta)
  show "handler_ok proxy_chat_handler"
    unfolding proxy_chat_handler_def
    by (intro extracting_ok) (auto simp: split_beta acts_events)
qed

lemma orchestrate_route_ok:
  "handler_ok (extracting sv_orchestrate (\<lambda>env ps app req. answering (orchestrate env app req)))"
  by (intro extracting_ok acts_wrapped orchestrate_acts)

lemmas handlers_ok = reading_ok step_handlers_ok orchestrate_route_ok

lemma routes_ok: "list_all (\<lambda>r. list_all (\<lambda>m. handler_ok (snd m)) (snd r)) hub_routes"
proof -
  have "list_all (\<lambda>r. list_all (\<lambda>m. handler_ok (snd m)) (snd r)) legacy_routes"
    by (auto simp: legacy_routes_def health_handler_def fs_read_handler_def fs_write_handler_def
        proxy_models_handler_def agents_handler_def endpoints_handler_def mcp_tools_handler_def
        conversations_handler_def conversation_messages_handler_def conversation_quantum_handler_def handlers_ok
        intro!: extracting_ok changes_at_ok acts_wrapped acts_events)
  moreover have "list_all (\<lambda>r. list_all (\<lambda>m. handler_ok (snd m)) (snd r)) build_router"
    by (auto simp: build_router_def handlers_ok quantum_state_def quantum_feedback_route_def circuit_state_route_def
        intro!: extracting_ok changes_at_ok acts_wrapped acts_events)
  ultimately show ?thesis by (simp add: hub_routes_def nest_def list.pred_map comp_def split_beta)
qed

lemma map_of_list_all: "list_all P xs \<Longrightarrow> map_of xs k = Some v \<Longrightarrow> P (k, v)"
  by (auto simp: list_all_iff dest: map_of_SomeD)

lemma find_method_ok: "list_all (\<lambda>m. handler_ok (snd m)) ms \<Longrightarrow> find_method ms m = Some h \<Longrightarrow> handler_ok h"
  by (auto simp: find_method_def list_all_iff dest!: map_of_SomeD split: option.splits if_splits)

lemma dispatch_ok: "handler_ok (dispatch hub_routes)"
  unfolding handler_ok_def
proof (intro allI)
  fix sv :: server and env :: "'re http_env" and req ps and dm :: "'re daemon"
  show "acts (dm_app dm) (dispatch hub_routes sv env req ps dm)"
    using map_of_list_all [OF routes_ok] find_method_ok
    by (fastforce simp: dispatch_def handler_ok_def split: option.split)
qed

lemma pass_layers_app [simp]: "dm_app (fst (pass_layers dm now req)) = dm_app dm"
  by (simp add: pass_layers_def split_beta split: auth_outcome.split option.split prod.split limited.split)

lemma serve_acts:
  "acts (dm_app dm) (dm_app (fst (serve sv env req dm)), fst (snd (serve sv env req dm)), a)"
proof (cases "pass_layers dm (he_instant env) (sq_gated req)")
  case (Pair dm1 g)
  then have "dm_app dm1 = dm_app dm" using pass_layers_app [of dm "he_instant env" "sq_gated req"] by simp
  moreover have "acts (dm_app dm1) (dispatch hub_routes sv env req [] dm1)"
    using dispatch_ok unfolding handler_ok_def by blast
  ultimately show ?thesis
    by (simp add: serve_def Pair split_beta Let_def acts_def split: gate.split option.split)
qed

lemma serve_all_runs:
  "\<exists>evs. length evs \<le> length reqs \<and>
     hub_run (dm_app dm) evs = (dm_app (fst (serve_all sv dm reqs)), snd (serve_all sv dm reqs))"
proof (induction sv dm reqs rule: serve_all.induct)
  case (2 sv dm env req reqs)
  let ?r = "serve sv env req dm"
  let ?rest = "serve_all sv (fst ?r) reqs"
  obtain evs where evs: "length evs \<le> length reqs"
    "hub_run (dm_app (fst ?r)) evs = (dm_app (fst ?rest), snd ?rest)"
    using 2 [OF refl prod.collapse prod.collapse] by auto
  from serve_acts [of dm sv env req undefined]
  have "(dm_app (fst ?r), fst (snd ?r)) = (dm_app dm, []) \<or> (\<exists>ev. hub_act (dm_app dm) ev = (dm_app (fst ?r), fst (snd ?r)))"
    unfolding acts_def by force
  then show ?case
  proof
    assume "(dm_app (fst ?r), fst (snd ?r)) = (dm_app dm, [])"
    then show ?thesis using evs by (intro exI [of _ evs]) (simp add: Let_def split_beta)
  next
    assume "\<exists>ev. hub_act (dm_app dm) ev = (dm_app (fst ?r), fst (snd ?r))"
    then obtain ev where "hub_act (dm_app dm) ev = (dm_app (fst ?r), fst (snd ?r))" ..
    then show ?thesis using evs by (intro exI [of _ "ev # evs"]) (simp add: Let_def split_beta)
  qed
qed simp

section \<open>Which pattern a path can match\<close>

text \<open>A part \<open>:name\<close> of a pattern matches one part of a path, a last part \<open>*name\<close> the whole rest.\<close>

fun parts_match :: "string list \<Rightarrow> string list \<Rightarrow> bool" where
  "parts_match [] ss = (ss = [])"
| "parts_match (p # ps) ss =
     (if starts_with p ''*'' then ps = [] \<and> ss \<noteq> []
      else case ss of
             [] \<Rightarrow> False
           | s # ss' \<Rightarrow> (if starts_with p '':'' then s \<noteq> '''' else p = s) \<and> parts_match ps ss')"

definition route_matches :: "string \<Rightarrow> string \<Rightarrow> bool" where
  "route_matches pat path = parts_match (split_slash pat) (split_slash path)"

text \<open>What the properties need of the framework: the pattern found is one of the table and matches.\<close>

definition finds_matching :: "(string list \<Rightarrow> string \<Rightarrow> (string \<times> string list) option) \<Rightarrow> bool" where
  "finds_matching finder \<longleftrightarrow>
     (\<forall>pats path pat ps. finder pats path = Some (pat, ps) \<longrightarrow> pat \<in> set pats \<and> route_matches pat path)"

fun captures :: "string list \<Rightarrow> string list \<Rightarrow> string list" where
  "captures [] ss = []"
| "captures (p # ps) ss =
     (if starts_with p ''*'' then [join ''/'' ss]
      else case ss of
             [] \<Rightarrow> []
           | s # ss' \<Rightarrow> (if starts_with p '':'' then [s] else []) @ captures ps ss')"

definition find_first :: "string list \<Rightarrow> string \<Rightarrow> (string \<times> string list) option" where
  "find_first pats path =
     (case filter (\<lambda>pat. route_matches pat path) pats of [] \<Rightarrow> None | pat # _ \<Rightarrow> Some (pat, captures (split_slash pat) (split_slash path)))"

lemma find_first_matching: "finds_matching find_first"
  unfolding finds_matching_def find_first_def
  by (auto split: list.splits dest!: arg_cong [where f = set])

lemma split_slash_absolute [simp]: "split_slash (CHR ''/'' # t) = '''' # split_slash t"
  by simp

definition legacy_patterns :: "string list" where
  "legacy_patterns =
     [''/health'', ''/metrics'', ''/fs/*path'', ''/msg'', ''/v1/models'', ''/v1/chat/completions'', ''/quantum/state'',
      ''/quantum/feedback'', ''/circuit/state'', ''/grpc'', ''/agents'', ''/endpoints'', ''/mcp/tools'', ''/conversations'',
      ''/conversations/:id/messages'', ''/conversations/:id/quantum-state'', ''/ws/:agent_id'']"

definition api_parts :: "string list list" where
  "api_parts =
     [[''agents''], [''agents'', '':id''], [''agents'', '':id'', ''messages''], [''endpoints''], [''endpoints'', '':id''],
      [''endpoints'', '':id'', ''health''], [''fs'', ''*path''], [''messages''], [''messages'', '':id''],
      [''conversations''], [''conversations'', '':id''], [''conversations'', '':id'', ''messages''],
      [''conversations'', '':id'', ''quantum-state''], [''ai'', ''completions''], [''ai'', ''models''],
      [''mcp'', ''tools''], [''mcp'', ''tools'', '':name'', ''call''], [''quantum'', ''state''],
      [''quantum'', ''feedback''], [''circuit'', ''state''], [''orchestrate'']]"

definition hub_patterns :: "string list" where
  "hub_patterns = legacy_patterns @ map (\<lambda>ps. ''/api/v1/api/v1/'' @ join ''/'' ps) api_parts"

lemma map_fst_hub_routes: "map fst hub_routes = hub_patterns"
  by (simp add: hub_patterns_def hub_routes_def nest_def legacy_routes_def build_router_def legacy_patterns_def api_parts_def)

lemma api_parts_plain: "list_all (\<lambda>ps. ps \<noteq> [] \<and> list_all (\<lambda>p. p \<noteq> '''' \<and> CHR ''/'' \<notin> set p) ps) api_parts"
  by (simp add: api_parts_def)

lemma nested_parts:
  assumes "ps \<in> set api_parts"
  shows "split_slash (''/api/v1/api/v1/'' @ join ''/'' ps) = ['''', ''api'', ''v1'', ''api'', ''v1''] @ ps"
  using assms api_parts_plain by (simp add: split_slash_join list_all_iff)

lemma nested_no_match:
  assumes "ps \<in> set api_parts" and "split_slash path = '''' # p # rest" and "p \<noteq> ''api''"
  shows "\<not> route_matches (''/api/v1/api/v1/'' @ join ''/'' ps) path"
  unfolding route_matches_def nested_parts [OF assms(1)] using assms(2,3) by (simp add: starts_with_def)

lemma found_legacy:
  assumes "q \<in> set hub_patterns" and "route_matches q path" and "split_slash path = '''' # p # rest"
    and "p \<noteq> ''api''"
  shows "q \<in> set legacy_patterns"
proof (rule ccontr)
  assume "q \<notin> set legacy_patterns"
  with assms(1) obtain ps where "ps \<in> set api_parts" "q = ''/api/v1/api/v1/'' @ join ''/'' ps"
    unfolding hub_patterns_def by auto
  with nested_no_match [OF this(1) assms(3,4)] assms(2) show False by simp
qed

lemma public_patterns:
  assumes "q \<in> set hub_patterns"
  shows "route_matches q ''/health'' \<Longrightarrow> q = ''/health''" and "route_matches q ''/metrics'' \<Longrightarrow> q = ''/metrics''"
    and "route_matches q (''/ws/'' @ t) \<Longrightarrow> q = ''/ws/:agent_id''"
proof -
  assume m: "route_matches q ''/health''"
  have "q \<in> set legacy_patterns" by (rule found_legacy [OF assms m]) (simp, simp)
  with m show "q = ''/health''" unfolding legacy_patterns_def by (auto simp: route_matches_def starts_with_def)
next
  assume m: "route_matches q ''/metrics''"
  have "q \<in> set legacy_patterns" by (rule found_legacy [OF assms m]) (simp, simp)
  with m show "q = ''/metrics''" unfolding legacy_patterns_def by (auto simp: route_matches_def starts_with_def)
next
  assume m: "route_matches q (''/ws/'' @ t)"
  have "q \<in> set legacy_patterns" by (rule found_legacy [OF assms m]) (simp, simp)
  with m show "q = ''/ws/:agent_id''" unfolding legacy_patterns_def by (auto simp: route_matches_def starts_with_def)
qed

lemma found_pattern:
  assumes "finds_matching (sv_find sv)" and "sv_find sv pats path = Some (q, params)"
  shows "q \<in> set pats \<and> route_matches q path"
  using assms unfolding finds_matching_def by blast

lemma pattern_methods:
  "map_of hub_routes ''/health'' = Some [(''GET'', health_handler)]"
  "map_of hub_routes ''/metrics'' = Some [(''GET'', metrics_handler)]"
  "map_of hub_routes ''/ws/:agent_id'' = Some [(''GET'', ws_handler_wrapped)]"
  by (simp_all add: hub_routes_def legacy_routes_def)

lemma no_options_handler: "list_all (\<lambda>r. map_of (snd r) ''OPTIONS'' = None) hub_routes"
  by (simp add: hub_routes_def nest_def legacy_routes_def build_router_def)

lemma find_method_single:
  "find_method [(''GET'', h)] m = (if m = ''GET'' \<or> m = ''HEAD'' then Some h else None)"
  by (auto simp: find_method_def)

text \<open>An effect that leaves the hub alone, sends nothing and opens a connection only for a valid token.\<close>

definition harmless :: "'re daemon \<Rightarrow> server_request \<Rightarrow> 're app \<times> sends \<times> served \<Rightarrow> bool" where
  "harmless dm req r =
     (fst r = dm_app dm \<and> fst (snd r) = [] \<and>
      (case snd (snd r) of Upgraded i \<Rightarrow> check_agent_token (dm_auth dm) (rq_headers (sq_http req)) | _ \<Rightarrow> True))"

lemma public_handlers_harmless:
  "harmless dm req (health_handler sv env req ps dm)"
  "harmless dm req (metrics_handler sv env req ps dm)"
  "harmless dm req (ws_handler_wrapped sv env req ps dm)"
  by (simp_all add: harmless_def health_handler_def answers_def metrics_handler_def ws_handler_wrapped_def
      rejected_def split: sum.split)

lemma plain_harmless [simp]: "harmless dm req (dm_app dm, [], PlainText code txt)"
  by (simp add: harmless_def)

lemma public_dispatch_harmless:
  assumes "finds_matching (sv_find sv)" and "public_path (rq_path (sq_http req))"
  shows "harmless dm req (dispatch hub_routes sv env req ps dm)"
proof (cases "sv_find sv hub_patterns (rq_path (sq_http req))")
  case (Some found)
  obtain q params where f: "found = (q, params)" by force
  note q = found_pattern [OF assms(1) Some [unfolded f]]
  have q': "q \<in> set hub_patterns" "route_matches q (rq_path (sq_http req))" using q by blast+
  from assms(2) consider "rq_path (sq_http req) = ''/health''" | "rq_path (sq_http req) = ''/metrics''"
    | t where "rq_path (sq_http req) = ''/ws/'' @ t"
    unfolding public_path_def starts_with_iff by blast
  then have "q \<in> {''/health'', ''/metrics'', ''/ws/:agent_id''}"
  proof cases
    case 1
    from public_patterns(1) [OF q'(1) q'(2) [unfolded 1]] show ?thesis by simp
  next
    case 2
    from public_patterns(2) [OF q'(1) q'(2) [unfolded 2]] show ?thesis by simp
  next
    case (3 t)
    from public_patterns(3) [OF q'(1) q'(2) [unfolded 3]] show ?thesis by simp
  qed
  then show ?thesis using Some
    by (elim insertE emptyE)
      (simp_all add: f dispatch_def map_fst_hub_routes pattern_methods find_method_single public_handlers_harmless)
qed (simp add: dispatch_def map_fst_hub_routes)

lemma options_dispatch_harmless:
  fixes dm :: "'re daemon"
  assumes "rq_method (sq_http req) = ''OPTIONS''"
  shows "harmless dm req (dispatch hub_routes sv env req ps dm)"
proof -
  have "find_method methods ''OPTIONS'' = None"
    if "map_of (hub_routes :: 're route list) pat = Some methods" for pat methods
    using map_of_list_all [OF no_options_handler that] by (simp add: find_method_def)
  then show ?thesis by (auto simp: dispatch_def assms split: option.split)
qed

lemma join_split_slash: "join ''/'' (split_slash s) = s"
proof (induction s)
  case (Cons c s)
  obtain p ps where "split_slash s = p # ps" by (cases "split_slash s") auto
  with Cons show ?case by (cases ps) auto
qed simp

lemma api_path_unmatched:
  assumes "\<not> starts_with t ''api/v1/''" and "q \<in> set hub_patterns"
  shows "\<not> route_matches q (''/api/v1/'' @ t)"
proof (cases "q \<in> set legacy_patterns")
  case True
  then show ?thesis unfolding legacy_patterns_def by (auto simp: route_matches_def starts_with_def)
next
  case False
  with assms(2) obtain ps where ps: "ps \<in> set api_parts" "q = ''/api/v1/api/v1/'' @ join ''/'' ps"
    unfolding hub_patterns_def by auto
  obtain p ps' where cons: "ps = p # ps'" using ps(1) api_parts_plain
    unfolding list_all_iff by (metis list.exhaust)
  have q: "split_slash q = ['''', ''api'', ''v1'', ''api'', ''v1''] @ p # ps'"
    unfolding ps(2) cons [symmetric] by (rule nested_parts [OF ps(1)])
  show ?thesis
  proof
    assume "route_matches q (''/api/v1/'' @ t)"
    then have "parts_match (''api'' # ''v1'' # p # ps') (split_slash t)"
      unfolding route_matches_def q by (simp add: starts_with_def)
    then obtain s rest where "split_slash t = ''api'' # ''v1'' # s # rest"
      by (auto simp: starts_with_def split: list.splits if_splits)
    then have "t = join ''/'' (''api'' # ''v1'' # s # rest)" using join_split_slash [of t] by simp
    then show False using assms(1) by (simp add: starts_with_def)
  qed
qed

lemma pass_layers_auth_same [simp]: "dm_auth (fst (pass_layers dm now req)) = dm_auth dm"
  by (rule pass_layers_auth)

lemma harmless_passed: "harmless (fst (pass_layers dm now r)) req = harmless dm req"
  by (simp add: harmless_def fun_eq_iff split: served.split)

lemma serve_harmless:
  fixes dm :: "'re daemon"
  assumes "rq_method (sq_http req) = ''OPTIONS'' \<or> finds_matching (sv_find sv) \<and> public_path (rq_path (sq_http req))"
  shows "harmless dm req (case serve sv env req dm of (dm', outs, a) \<Rightarrow> (dm_app dm', outs, a))"
proof (cases "pass_layers dm (he_instant env) (sq_gated req)")
  case (Pair dm1 g)
  then have dm1: "dm1 = fst (pass_layers dm (he_instant env) (sq_gated req))" by simp
  have "harmless dm1 req (dispatch hub_routes sv env req [] dm1)"
    using assms options_dispatch_harmless public_dispatch_harmless by blast
  then have "harmless dm req (dispatch hub_routes sv env req [] dm1)" "dm_app dm1 = dm_app dm"
    unfolding dm1 harmless_passed by simp_all
  then show ?thesis
    by (auto simp: serve_def Pair Let_def split_beta rejected_def split: gate.split option.split)
qed

lemma serve_refused:
  assumes "\<not> passes_auth dm (sq_gated req)"
  shows "serve sv env req dm = (dm, [], PlainText 401 ''Unauthorized'')"
  by (simp add: serve_def pass_layers_refused [OF assms])

section \<open>Properties\<close>


text \<open>
  C10. With a key configured, a request that does not carry it, whatever its method and path, changes
  nothing in the hub and sends nothing to any agent; it is refused with \<open>401\<close> unless its path is
  public or it is a preflight; and it opens an agent's connection only with the agents' token.
\<close>

theorem unauthenticated_harmless:
  assumes "finds_matching (sv_find sv)" and "ac_api_key (dm_auth dm) = Some key"
    and "\<not> bearer_valid (get_header_str (rq_headers (sq_http req)) ''authorization'') key"
  shows "dm_app (fst (serve sv env req dm)) = dm_app dm \<and> fst (snd (serve sv env req dm)) = [] \<and>
    (if rq_method (sq_http req) = ''OPTIONS'' \<or> public_path (rq_path (sq_http req))
     then (case snd (snd (serve sv env req dm)) of
             Upgraded i \<Rightarrow> check_agent_token (dm_auth dm) (rq_headers (sq_http req)) | _ \<Rightarrow> True)
     else snd (snd (serve sv env req dm)) = PlainText 401 ''Unauthorized'')"
proof (cases "rq_method (sq_http req) = ''OPTIONS'' \<or> public_path (rq_path (sq_http req))")
  case True
  then have "harmless dm req (case serve sv env req dm of (dm', outs, a) \<Rightarrow> (dm_app dm', outs, a))"
    using serve_harmless assms(1) by blast
  then show ?thesis using True by (simp add: harmless_def split_beta)
next
  case False
  then have "\<not> passes_auth dm (sq_gated req)" using assms(2,3) by (simp add: passes_auth_def api_key_middleware_def)
  then show ?thesis using False by (simp add: serve_refused)
qed

text \<open>
  C30. The routes of the API are declared with the prefix \<open>/api/v1\<close> and nested under it once more: a path
  below \<open>/api/v1/\<close> that does not repeat the prefix is answered \<open>404\<close>, by any method.
\<close>

theorem api_prefix_doubled:
  assumes "finds_matching (sv_find sv)" and "rq_path (sq_http req) = ''/api/v1/'' @ t"
    and "\<not> starts_with t ''api/v1/''" and "sv_cors sv (sq_http req) = None"
    and "snd (pass_layers dm (he_instant env) (sq_gated req)) = Admitted"
  shows "serve sv env req dm =
    (fst (pass_layers dm (he_instant env) (sq_gated req)), [], PlainText 404 '''')"
proof -
  have "sv_find sv hub_patterns (''/api/v1/'' @ t) = None"
  proof (rule ccontr)
    assume "sv_find sv hub_patterns (''/api/v1/'' @ t) \<noteq> None"
    then obtain q params where "sv_find sv hub_patterns (''/api/v1/'' @ t) = Some (q, params)" by auto
    from found_pattern [OF assms(1) this] have "q \<in> set hub_patterns" "route_matches q (''/api/v1/'' @ t)" by simp_all
    with assms(3) show False using api_path_unmatched by blast
  qed
  then show ?thesis using assms(2,4,5)
    by (cases "pass_layers dm (he_instant env) (sq_gated req)")
      (simp add: serve_def dispatch_def map_fst_hub_routes Let_def)
qed

section \<open>Instances\<close>

definition sample_server :: server where
  "sample_server =
     \<lparr>sv_find = find_first, sv_cors = (\<lambda>_. None), sv_message = (\<lambda>_. Inl (422, ''missing field'')),
      sv_chat = (\<lambda>_. Inl (422, ''missing field'')), sv_feedback = (\<lambda>_. Inl (422, ''missing field'')),
      sv_value = (\<lambda>_. Inl (400, ''expected value'')), sv_orchestrate = (\<lambda>_. Inl (422, ''missing field'')),
      sv_text = (\<lambda>r. Inr (sq_body r)), sv_upgrade = (\<lambda>_. Inr ()), sv_metrics = Inr '''',
      sv_rpc = \<lparr>decode_request = (\<lambda>_. Inl ''eof''), decode_message = (\<lambda>_. Inl ''eof''), encode_response = (\<lambda>_. Inr [])\<rparr>\<rparr>"

definition sample_request :: "string \<Rightarrow> string \<Rightarrow> server_request" where
  "sample_request m path =
     \<lparr>sq_gated = \<lparr>gt_http = \<lparr>rq_method = m, rq_path = path, rq_headers = []\<rparr>,
                 gt_limited = \<lparr>lr_connect_info = None, lr_path = path\<rparr>\<rparr>, sq_body = ''hello''\<rparr>"

definition sample_daemon :: "string option \<Rightarrow> string daemon" where
  "sample_daemon key =
     \<lparr>dm_app = sample_app None, dm_auth = \<lparr>ac_api_key = key, ac_agent_token = Some ''t''\<rparr>, dm_limiter = None,
      dm_probing = False, dm_tls = None\<rparr>"


theorem unauthenticated_harmless_witness:
  "snd (snd (serve sample_server sample_http_env (sample_request ''POST'' ''/fs/ctl/status'') (sample_daemon (Some ''k'')))) =
     PlainText 401 ''Unauthorized''"
  using unauthenticated_harmless [of sample_server "sample_daemon (Some ''k'')" "''k''"
      "sample_request ''POST'' ''/fs/ctl/status''" sample_http_env]
  by (simp add: sample_server_def sample_daemon_def sample_request_def find_first_matching get_header_str_def
      bearer_valid_def public_path_def starts_with_def)

theorem api_prefix_doubled_witness:
  "snd (snd (serve sample_server sample_http_env (sample_request ''GET'' ''/api/v1/agents'') (sample_daemon None))) =
     PlainText 404 ''''"
  using api_prefix_doubled [of sample_server "sample_request ''GET'' ''/api/v1/agents''" "''agents''"
      "sample_daemon None" sample_http_env]
  by (simp add: sample_server_def sample_daemon_def sample_request_def find_first_matching starts_with_def
      pass_layers_def api_key_middleware_def)

end
