(* ===== verification/Traffic.thy ===== *)
theory Traffic
  imports Server
begin

text \<open>
  The messages that travel through the whole hub, over any sequence of events: what is sent to agents
  and what waits in the queues (\<open>src/queue.rs\<close>) is compared with the messages the hub was given by
  connections (\<open>src/net/transport.rs\<close>) and by the HTTP and RPC routes (\<open>src/daemon.rs\<close>, \<open>src/api.rs\<close>).
\<close>

section \<open>Messages given and sent\<close>

text \<open>The message an event hands to the hub; a connection's message gets its sender first.\<close>

fun given :: "'re hub_event \<Rightarrow> message list" where
  "given (FrameIn env c k (OpMessage msg)) = [stamp_sender k msg]"
| "given (SendRest env msg) = [msg]"
| "given (PostRest env msg) = [msg]"
| "given (SendRpc env msg) = [msg]"
| "given ev = []"

fun message_in :: "protocol_op \<Rightarrow> message list" where
  "message_in (OpMessage msg) = [msg]"
| "message_in op = []"

definition messages_sent :: "sends \<Rightarrow> message list" where
  "messages_sent outs = concat (map (\<lambda>s. message_in (snd s)) outs)"

section \<open>The messages in the queues\<close>

definition held :: "message_queue \<Rightarrow> string \<Rightarrow> message multiset" where
  "held mq k = mset (map qm_msg (queue_of mq k))"

definition pending :: "message_queue \<Rightarrow> message multiset" where
  "pending mq = (\<Sum>k \<in> dom mq. held mq k)"

lemma held_outside: "k \<notin> dom mq \<Longrightarrow> held mq k = {#}"
  by (simp add: held_def queue_of_def entry_or_def domIff)

lemma pending_over: "finite S \<Longrightarrow> dom mq \<subseteq> S \<Longrightarrow> pending mq = (\<Sum>k \<in> S. held mq k)"
  unfolding pending_def by (rule sum.mono_neutral_left) (auto simp: held_outside)

text \<open>What changes the queue of one agent changes what is pending by as much.\<close>

lemma pending_one_queue:
  assumes "finite (dom mq)" and "\<And>j. j \<noteq> k \<Longrightarrow> mq' j = mq j"
  shows "finite (dom mq') \<and> pending mq' + held mq k = pending mq + held mq' k"
proof -
  let ?S = "insert k (dom mq)"
  have fin: "finite ?S" and sub: "dom mq' \<subseteq> ?S" "dom mq \<subseteq> ?S" using assms by auto
  have "(\<Sum>j \<in> ?S - {k}. held mq' j) = (\<Sum>j \<in> ?S - {k}. held mq j)"
    by (rule sum.cong) (auto simp: held_def queue_of_def entry_or_def assms(2))
  then have "pending mq' + held mq k = pending mq + held mq' k"
    using fin by (simp add: pending_over [OF fin sub(1)] pending_over [OF fin sub(2)] sum.remove [of ?S k] ac_simps)
  then show ?thesis using finite_subset [OF sub(1) fin] by blast
qed

lemma pending_shrinks:
  assumes "finite (dom mq)" and "dom mq' \<subseteq> dom mq" and "\<And>k. held mq' k \<subseteq># held mq k"
  shows "pending mq' \<subseteq># pending mq"
proof -
  have "finite S \<Longrightarrow> (\<Sum>k \<in> S. held mq' k) \<subseteq># (\<Sum>k \<in> S. held mq k)" for S
    by (induction S rule: finite_induct) (auto intro: subset_mset.add_mono assms(3))
  then show ?thesis using assms(1) by (simp only: pending_over [OF assms(1,2)] pending_def [of mq])
qed

lemma pending_enqueue:
  assumes "finite (dom mq)"
  shows "finite (dom (enqueue mq now k msg)) \<and> pending (enqueue mq now k msg) = add_mset msg (pending mq)"
proof -
  have "pending (enqueue mq now k msg) + held mq k = pending mq + held (enqueue mq now k msg) k"
    using pending_one_queue [OF assms, of k "enqueue mq now k msg"] by (simp add: enqueue_def)
  also have "held (enqueue mq now k msg) k = held mq k + {#msg#}"
    by (simp add: held_def queue_of_enqueue queued_now_def)
  finally have "pending (enqueue mq now k msg) = add_mset msg (pending mq)" by simp
  moreover have "finite (dom (enqueue mq now k msg))" using assms by (simp add: enqueue_def)
  ultimately show ?thesis by blast
qed

lemma drain_to_elsewhere: "j \<noteq> k \<Longrightarrow> fst (drain_to mq k ok) j = mq j"
  by (simp add: drain_to_def drain_entry_def remove_if_empty_def split_beta Let_def split: option.split)

lemma drain_loop_messages:
  "map qm_msg q = concat (map message_in (fst (drain_loop ok n q))) @ map qm_msg (fst (snd (drain_loop ok n q)))"
  by (induction ok n q rule: drain_loop.induct) (simp_all add: Let_def split_beta)

lemma pending_drain:
  assumes "finite (dom mq)"
  shows "finite (dom (fst (drain_to mq k ok))) \<and>
    mset (concat (map message_in (fst (snd (drain_to mq k ok))))) + pending (fst (drain_to mq k ok)) = pending mq"
proof -
  let ?out = "mset (concat (map message_in (fst (snd (drain_to mq k ok)))))"
  have fin: "finite (dom (fst (drain_to mq k ok)))"
    and one: "pending (fst (drain_to mq k ok)) + held mq k = pending mq + held (fst (drain_to mq k ok)) k"
    using pending_one_queue [OF assms, of k "fst (drain_to mq k ok)"] by (simp_all add: drain_to_elsewhere)
  have own: "held mq k = ?out + held (fst (drain_to mq k ok)) k"
    using arg_cong [OF drain_loop_messages [of "queue_of mq k" ok 0], of mset]
    by (simp add: held_def queue_of_drain_to sent_drain_to)
  from one have "(?out + pending (fst (drain_to mq k ok))) + held (fst (drain_to mq k ok)) k =
      pending mq + held (fst (drain_to mq k ok)) k"
    unfolding own by (simp only: ac_simps)
  then have "?out + pending (fst (drain_to mq k ok)) = pending mq" by (rule add_right_imp_eq)
  with fin show ?thesis ..
qed

lemma dom_remove_keys: "dom (remove_keys ks m) \<subseteq> dom m"
  by (auto simp: remove_keys_apply split: if_splits)

lemma prune_entry_parts:
  "dom (prune_entry mq age now k) = dom mq" "held (prune_entry mq age now k) j \<subseteq># held mq j"
  by (auto simp: prune_entry_def held_def queue_of_def entry_or_def image_mset_subseteq_mono split: option.split)

lemma prune_entries_parts:
  "dom (prune_entries ks age now mq) = dom mq \<and> held (prune_entries ks age now mq) j \<subseteq># held mq j"
  by (induction ks age now mq rule: prune_entries.induct)
    (auto simp: prune_entry_parts intro: subset_mset.order_trans)

lemma pending_prune:
  assumes "finite (dom mq)"
  shows "finite (dom (prune_old ks age now mq)) \<and> pending (prune_old ks age now mq) \<subseteq># pending mq"
proof -
  have dom: "dom (prune_old ks age now mq) \<subseteq> dom mq"
    using dom_remove_keys [of _ "prune_entries ks age now mq"] by (simp add: prune_old_def Let_def prune_entries_parts)
  have "held (prune_old ks age now mq) k \<subseteq># held (prune_entries ks age now mq) k" for k
    by (simp add: prune_old_def Let_def held_def queue_of_def entry_or_def remove_keys_apply)
  then have "held (prune_old ks age now mq) k \<subseteq># held mq k" for k
    using prune_entries_parts subset_mset.order_trans by blast
  then show ?thesis using pending_shrinks [OF assms dom] finite_subset [OF dom assms] by blast
qed

section \<open>One event\<close>

text \<open>What an event may do to the messages under way.\<close>

definition passes_on :: "message_queue \<Rightarrow> message multiset \<Rightarrow> message_queue \<times> sends \<Rightarrow> bool" where
  "passes_on mq new r \<longleftrightarrow> finite (dom (fst r)) \<and>
     mset (messages_sent (snd r)) + pending (fst r) \<subseteq># pending mq + new"

lemma messages_sent_simps [simp]:
  "messages_sent [] = []"
  "messages_sent (s # outs) = message_in (snd s) @ messages_sent outs"
  "messages_sent (outs @ outs') = messages_sent outs @ messages_sent outs'"
  "messages_sent (map (\<lambda>op. (c, op)) ops) = concat (map message_in ops)"
  by (simp_all add: messages_sent_def comp_def)

lemma passes_nothing: "finite (dom mq) \<Longrightarrow> passes_on mq new (mq, [])"
  by (simp add: passes_on_def)

context delivery
begin

lemma delivers_once:
  assumes "finite (dom mq)"
  shows "passes_on mq {#msg#} (deliver reg mq now ok dest msg)"
proof (cases "target_agent dest")
  case None
  then show ?thesis using assms by (simp add: no_target passes_nothing)
next
  case (Some k)
  show ?thesis
    using for_target [OF Some, of reg mq now ok msg] pending_enqueue [OF assms, of now k msg] assms
    by (auto simp: passes_on_def)
qed

end

lemma deliver_selected_once:
  assumes "delivery d" and "finite (dom (tp_queue (ap_hub app)))"
  shows "passes_on (tp_queue (ap_hub app)) {#msg#}
    (tp_queue (ap_hub (fst (deliver_selected d env app msg sel))), snd (deliver_selected d env app msg sel))"
proof (cases sel)
  case None
  then show ?thesis using assms(2) by (simp add: deliver_selected_def passes_nothing)
next
  case (Some dest)
  show ?thesis
    unfolding Some deliver_selected_queue prod.collapse by (rule delivery.delivers_once [OF assms])
qed

lemma message_frame_once:
  assumes "finite (dom (tp_queue s))"
  shows "passes_on (tp_queue s) {#stamp_sender k msg#}
    (tp_queue (fst (handle_op env c k s (OpMessage msg))), snd (handle_op env c k s (OpMessage msg)))"
  by (rule message_op [where env = env and s = s and k = k and msg = msg and c = c])
    (simp_all del: handle_op.simps add: ignoring.delivers_once [OF assms] passes_nothing [OF assms])

lemma frame_once:
  assumes "finite (dom (tp_queue (ap_hub app)))"
  shows "passes_on (tp_queue (ap_hub app)) (mset (given (FrameIn env c k op)))
    (tp_queue (fst (handle_op env c k (ap_hub app) op)), snd (handle_op env c k (ap_hub app) op))"
proof (cases op)
  case (Hello m)
  then show ?thesis using pending_drain [OF assms, of k "oe_ok env"]
    by (simp add: passes_on_def Let_def split_beta)
next
  case (OpMessage msg)
  then show ?thesis using message_frame_once [OF assms] by (simp del: handle_op.simps)
qed (use assms in \<open>auto simp: passes_on_def reply_def Let_def split_beta split: option.splits\<close>)

text \<open>The events that neither read nor write a queue.\<close>

lemma queue_untouched [simp]:
  "tp_queue (ap_hub (fst (unregister_agent henv app i))) = tp_queue (ap_hub app)"
  "tp_queue (ap_hub (fst (vfs_write app path body))) = tp_queue (ap_hub app)"
  "tp_queue (ap_hub (fst (vfs_delete henv app path))) = tp_queue (ap_hub app)"
  "tp_queue (ap_hub (fst (ai_completions henv app req))) = tp_queue (ap_hub app)"
  "tp_queue (ap_hub (fst (quantum_feedback_handler henv app fe))) = tp_queue (ap_hub app)"
  "tp_queue (ap_hub (fst (conversation_quantum henv app i))) = tp_queue (ap_hub app)"
  by (simp_all add: unregister_agent_def vfs_write_def vfs_delete_def ai_completions_def quantum_feedback_handler_def
      conversation_quantum_def Let_def split_beta split: option.split sum.split)

lemma hub_act_once:
  assumes "finite (dom (tp_queue (ap_hub app)))"
  shows "passes_on (tp_queue (ap_hub app)) (mset (given ev))
    (tp_queue (ap_hub (fst (hub_act app ev))), snd (hub_act app ev))"
proof -
  note deliveries = ignoring.delivery_axioms requeue.delivery_axioms rpc.delivery_axioms
  show ?thesis
  proof (cases ev)
    case (FrameIn env c k op)
    then show ?thesis using frame_once [OF assms, of env c k op]
      by (simp del: handle_op.simps add: split_beta)
  next
    case (SendRest env msg)
    show ?thesis using assms deliver_selected_once [OF deliveries(1), of "fst (route_in_app env (persist_message env msg app) msg)"]
      by (simp add: SendRest handler_parts Let_def split_beta)
  next
    case (PostRest env msg)
    show ?thesis using assms deliver_selected_once [OF deliveries(2), of "fst (route_in_app env (persist_message env msg app) msg)"]
      by (simp add: PostRest handler_parts Let_def split_beta)
  next
    case (SendRpc env msg)
    show ?thesis using assms deliver_selected_once [OF deliveries(3), of "app\<lparr>ap_hub := (ap_hub app)\<lparr>tp_quantum := _\<rparr>\<rparr>"]
      by (simp add: SendRpc grpc_send_def Let_def split_beta)
  next
    case (PruneQueues ks now)
    then show ?thesis using pending_prune [OF assms] by (simp add: passes_on_def with_hub_def)
  qed (use assms in \<open>simp_all add: passes_on_def with_hub_def\<close>)
qed

lemma hub_run_once:
  assumes "finite (dom (tp_queue (ap_hub app)))"
  shows "passes_on (tp_queue (ap_hub app)) (mset (concat (map given evs)))
    (tp_queue (ap_hub (fst (hub_run app evs))), snd (hub_run app evs))"
  using assms
proof (induction evs arbitrary: app)
  case (Cons ev evs)
  let ?app1 = "fst (hub_act app ev)"
  let ?q = "\<lambda>a. pending (tp_queue (ap_hub a))"
  have one: "passes_on (tp_queue (ap_hub app)) (mset (given ev)) (tp_queue (ap_hub ?app1), snd (hub_act app ev))"
    by (rule hub_act_once [OF Cons.prems])
  have rest: "passes_on (tp_queue (ap_hub ?app1)) (mset (concat (map given evs)))
      (tp_queue (ap_hub (fst (hub_run ?app1 evs))), snd (hub_run ?app1 evs))"
    by (rule Cons.IH) (use one in \<open>simp add: passes_on_def\<close>)
  have "mset (messages_sent (snd (hub_act app ev))) + (mset (messages_sent (snd (hub_run ?app1 evs))) + ?q (fst (hub_run ?app1 evs)))
      \<subseteq># mset (messages_sent (snd (hub_act app ev))) + (?q ?app1 + mset (concat (map given evs)))"
    using rest by (simp add: passes_on_def)
  also have "\<dots> \<subseteq># ?q app + mset (given ev) + mset (concat (map given evs))"
    using one by (simp add: passes_on_def add.assoc [symmetric])
  finally show ?case using rest by (simp add: passes_on_def Let_def split_beta ac_simps)
qed (simp add: passes_nothing)

lemma distinct_mset_subset:
  assumes "mset xs \<subseteq># mset ys" and "distinct ys"
  shows "distinct xs"
  unfolding distinct_count_atmost_1
proof
  fix a
  have "count (mset xs) a \<le> count (mset ys) a" using assms(1) by (rule mset_subset_eq_count)
  moreover have "count (mset ys) a \<le> 1"
    using assms(2) by (cases "a \<in> set ys") (simp_all add: distinct_count_atmost_1)
  ultimately have "count (mset xs) a \<le> 1" by (rule order_trans)
  then show "count (mset xs) a = (if a \<in> set xs then 1 else 0)"
    by (cases "a \<in> set xs") (auto simp: le_Suc_eq)
qed

lemma daemon_start_queue: "daemon_start senv cfg = Inr dm \<Longrightarrow> tp_queue (ap_hub (dm_app dm)) = Map.empty"
  by (auto simp: daemon_start_def app_built Let_def queue_new_def split: sum.splits prod.splits)

section \<open>Properties\<close>

text \<open>
  C2. The hub delivers a message at most once. From its start on, over any sequence of frames, requests,
  RPC calls and background work, with channels that fail at any point and connections that come and go,
  what has been sent to agents and what still waits in the queues are together part of the messages the
  hub was given, each as often as it was given. So no message is sent that was not given, and when the
  identifiers of the given messages differ, no identifier is sent twice.
\<close>

theorem message_at_most_once:
  assumes "daemon_start senv cfg = Inr dm" and "hub_run (dm_app dm) evs = (app', outs)"
  shows "mset (messages_sent outs) + pending (tp_queue (ap_hub app')) \<subseteq># mset (concat (map given evs)) \<and>
    (distinct (map m_id (concat (map given evs))) \<longrightarrow> distinct (map m_id (messages_sent outs)))"
proof -
  have start: "tp_queue (ap_hub (dm_app dm)) = Map.empty" using assms(1) by (rule daemon_start_queue)
  have all: "mset (messages_sent outs) + pending (tp_queue (ap_hub app')) \<subseteq># mset (concat (map given evs))"
    using hub_run_once [of "dm_app dm" evs] by (simp add: start assms(2) passes_on_def pending_def)
  then have "mset (messages_sent outs) \<subseteq># mset (concat (map given evs))"
    by (rule subset_mset.order_trans [OF mset_subset_eq_add_left])
  then have "mset (map m_id (messages_sent outs)) \<subseteq># mset (map m_id (concat (map given evs)))"
    unfolding mset_map by (rule image_mset_subseteq_mono)
  with all show ?thesis using distinct_mset_subset by blast
qed

theorem message_at_most_once_witness:
  "\<exists>dm. daemon_start sample_start bare_config = Inr dm \<and>
     distinct (map m_id (messages_sent (snd (hub_run (dm_app dm)
       [FrameIn (he_op sample_http_env) 3 ''a'' (OpMessage (a_note ''x'')),
        SendRest sample_http_env ((a_note ''y'')\<lparr>m_id := 7\<rparr>)]))))"
proof -
  obtain dm where dm: "daemon_start sample_start bare_config = Inr dm" using bare_start by blast
  let ?evs = "[FrameIn (he_op sample_http_env) 3 ''a'' (OpMessage (a_note ''x'')),
      SendRest sample_http_env ((a_note ''y'')\<lparr>m_id := 7\<rparr>)]"
  have "distinct (map m_id (concat (map given ?evs)))" by (simp add: stamp_sender_def a_note_def message_new_def)
  with message_at_most_once [OF dm prod.collapse [symmetric], of ?evs] dm show ?thesis by blast
qed

end
