(* ===== verification/Losses.thy ===== *)
theory Losses
  imports Traffic
begin

text \<open>
  Which messages the hub loses. \<open>Traffic\<close> shows that no message is delivered twice; here every message a
  run was given is accounted for, except for what the pruning of the queues drops: it has been sent, or
  it waits in a queue, or it was lost at its arrival for one of the stated reasons.
\<close>

section \<open>Registered agents have a channel\<close>

definition all_connected :: "agent_registry \<Rightarrow> bool" where
  "all_connected reg \<longleftrightarrow> (\<forall>k a. reg k = Some a \<longrightarrow> ag_tx a \<noteq> None)"

lemma connected_handle_op:
  "all_connected (tp_agents s) \<Longrightarrow> all_connected (tp_agents (fst (handle_op env c k s op)))"
  unfolding handle_op_agents
  by (cases op) (auto simp: all_connected_def agents_register_def agents_heartbeat_def hello_agent_def
      split: option.split)

lemma connected_fewer:
  "all_connected reg \<Longrightarrow> all_connected (agents_cleanup ks thr now reg)"
  "all_connected reg \<Longrightarrow> all_connected (fst (agents_unregister reg i))"
  by (auto simp: all_connected_def agents_cleanup_def unregister_all_eq remove_keys_apply agents_unregister_def)

lemma agents_untouched:
  "tp_agents (ap_hub (fst (send_message henv app msg))) = tp_agents (ap_hub app)"
  "tp_agents (ap_hub (fst (msg_handler henv app msg))) = tp_agents (ap_hub app)"
  "tp_agents (ap_hub (fst (grpc_send henv app msg))) = tp_agents (ap_hub app)"
  "tp_agents (ap_hub (fst (vfs_write app path body))) = tp_agents (ap_hub app)"
  "tp_agents (ap_hub (fst (vfs_delete henv app path))) = tp_agents (ap_hub app)"
  "tp_agents (ap_hub (fst (ai_completions henv app req))) = tp_agents (ap_hub app)"
  "tp_agents (ap_hub (fst (quantum_feedback_handler henv app fe))) = tp_agents (ap_hub app)"
  "tp_agents (ap_hub (fst (conversation_quantum henv app i))) = tp_agents (ap_hub app)"
  by (simp_all add: handler_parts grpc_send_def vfs_write_def vfs_delete_def ai_completions_def
      quantum_feedback_handler_def conversation_quantum_def Let_def split_beta split: option.split sum.split)

lemma connected_act:
  assumes "all_connected (tp_agents (ap_hub app))"
  shows "all_connected (tp_agents (ap_hub (fst (hub_act app ev))))"
proof (cases ev)
  case (FrameIn env c k op)
  then show ?thesis using connected_handle_op [OF assms] by (simp del: handle_op.simps add: split_beta)
next
  case (Unregister env i)
  then show ?thesis using connected_fewer(2) [OF assms] by (simp add: unregister_agent_def Let_def)
qed (use assms in \<open>simp_all add: split_beta agents_untouched with_hub_def connected_fewer\<close>)

section \<open>What is lost\<close>

text \<open>
  A message is lost when it has no destination, when the destination names no agent, and, on a
  route that does not requeue, when its agent is registered but no longer receives.
\<close>

definition dropped :: "bool \<Rightarrow> agent_registry \<Rightarrow> bool \<Rightarrow> string option \<Rightarrow> message \<Rightarrow> message list" where
  "dropped requeues reg ok dest msg =
     (case Option.bind dest target_agent of
        None \<Rightarrow> [msg]
      | Some k \<Rightarrow> if \<not> requeues \<and> reg k \<noteq> None \<and> \<not> ok then [msg] else [])"

definition chosen :: "'re op_env \<Rightarrow> 're app \<Rightarrow> message \<Rightarrow> string option" where
  "chosen env app msg =
     snd (select_destination (oe_rng env) (oe_now env) (tp_quantum (ap_hub app)) msg
       (plumber_route (oe_lib env) (tp_plumber (ap_hub app)) msg))"

fun lost :: "'re app \<Rightarrow> 're hub_event \<Rightarrow> message list" where
  "lost app (FrameIn env c k (OpMessage msg)) =
     dropped False (tp_agents (ap_hub app)) (oe_ok env 0) (chosen env app (stamp_sender k msg)) (stamp_sender k msg)"
| "lost app (SendRest env msg) =
     dropped False (tp_agents (ap_hub app)) (oe_ok (he_op env) 0) (rd_selected (decided env app msg)) msg"
| "lost app (PostRest env msg) =
     dropped True (tp_agents (ap_hub app)) (oe_ok (he_op env) 0) (rd_selected (decided env app msg)) msg"
| "lost app (SendRpc env msg) =
     dropped True (tp_agents (ap_hub app)) (oe_ok (he_op env) 0) (chosen (he_op env) app msg) msg"
| "lost app ev = []"

fun lost_run :: "'re app \<Rightarrow> 're hub_event list \<Rightarrow> message list" where
  "lost_run app [] = []"
| "lost_run app (ev # evs) = lost app ev @ lost_run (fst (hub_act app ev)) evs"

fun prunes :: "'re hub_event \<Rightarrow> bool" where
  "prunes (PruneQueues ks now) = True"
| "prunes ev = False"

section \<open>One event\<close>

definition accounts :: "message_queue \<Rightarrow> message list \<Rightarrow> message list \<Rightarrow> message_queue \<times> sends \<Rightarrow> bool" where
  "accounts mq new gone r \<longleftrightarrow> finite (dom (fst r)) \<and>
     mset (messages_sent (snd r)) + pending (fst r) + mset gone = pending mq + mset new"

lemma accounts_nothing: "finite (dom mq) \<Longrightarrow> accounts mq new new (mq, [])"
  by (simp add: accounts_def)

lemma deliveries_account:
  assumes "finite (dom mq)" and "all_connected reg"
  shows "accounts mq [msg] (dropped False reg ok (Some dest) msg) (deliver_ignoring reg mq now ok dest msg)"
    and "accounts mq [msg] (dropped True reg ok (Some dest) msg) (deliver_requeue reg mq now ok dest msg)"
    and "accounts mq [msg] (dropped True reg ok (Some dest) msg) (deliver_rpc reg mq now ok dest msg)"
proof -
  have enq: "accounts mq [msg] [] (enqueue mq now k msg, [])" for k
    using pending_enqueue [OF assms(1), of now k msg] by (simp add: accounts_def)
  have sent: "accounts mq [msg] [] (mq, [(c, OpMessage msg)])" for c
    using assms(1) by (simp add: accounts_def)
  note each = dropped_def agents_get_def enq sent accounts_nothing [OF assms(1)]
  show "accounts mq [msg] (dropped False reg ok (Some dest) msg) (deliver_ignoring reg mq now ok dest msg)"
    using assms(2) by (auto simp: all_connected_def deliver_ignoring_def each split: option.split)
      (metis option.simps(3))
  show "accounts mq [msg] (dropped True reg ok (Some dest) msg) (deliver_requeue reg mq now ok dest msg)"
    using assms(2) by (auto simp: all_connected_def deliver_requeue_def each split: option.split)
      (metis option.simps(3))
  show "accounts mq [msg] (dropped True reg ok (Some dest) msg) (deliver_rpc reg mq now ok dest msg)"
    using assms(2) by (auto simp: all_connected_def deliver_rpc_def each Let_def split: option.split)
qed

text \<open>The same for the handlers' way of calling a delivery; \<open>d\<close> requeues when \<open>b\<close> holds.\<close>

definition accounting :: "bool \<Rightarrow> deliverer \<Rightarrow> bool" where
  "accounting b d \<longleftrightarrow> (\<forall>mq reg msg ok dest now. finite (dom mq) \<longrightarrow> all_connected reg \<longrightarrow>
     accounts mq [msg] (dropped b reg ok (Some dest) msg) (d reg mq now ok dest msg))"

lemma accounting_deliveries:
  "accounting False deliver_ignoring" "accounting True deliver_requeue" "accounting True deliver_rpc"
  by (simp_all add: accounting_def deliveries_account)

lemma deliver_selected_accounts:
  assumes "accounting b d" and "finite (dom (tp_queue (ap_hub app)))" and "all_connected (tp_agents (ap_hub app))"
  shows "accounts (tp_queue (ap_hub app)) [msg] (dropped b (tp_agents (ap_hub app)) (oe_ok (he_op env) 0) sel msg)
    (tp_queue (ap_hub (fst (deliver_selected d env app msg sel))), snd (deliver_selected d env app msg sel))"
proof (cases sel)
  case None
  then show ?thesis using assms(2) by (simp add: deliver_selected_def dropped_def accounts_nothing)
next
  case (Some dest)
  show ?thesis
    unfolding Some deliver_selected_queue prod.collapse using assms by (simp add: accounting_def)
qed

lemma message_frame_accounts:
  assumes "finite (dom (tp_queue (ap_hub app)))" and "all_connected (tp_agents (ap_hub app))"
  shows "accounts (tp_queue (ap_hub app)) (given (FrameIn env c k (OpMessage msg))) (lost app (FrameIn env c k (OpMessage msg)))
    (tp_queue (fst (handle_op env c k (ap_hub app) (OpMessage msg))), snd (handle_op env c k (ap_hub app) (OpMessage msg)))"
  by (rule message_op [where env = env and s = "ap_hub app" and k = k and msg = msg and c = c])
    (simp_all del: handle_op.simps add: chosen_def deliveries_account [OF assms], simp add: dropped_def accounts_nothing [OF assms(1)])

lemma frame_accounts:
  assumes "finite (dom (tp_queue (ap_hub app)))" and "all_connected (tp_agents (ap_hub app))"
  shows "accounts (tp_queue (ap_hub app)) (given (FrameIn env c k op)) (lost app (FrameIn env c k op))
    (tp_queue (fst (handle_op env c k (ap_hub app) op)), snd (handle_op env c k (ap_hub app) op))"
proof (cases op)
  case (Hello m)
  then show ?thesis using pending_drain [OF assms(1), of k "oe_ok env"]
    by (simp add: accounts_def Let_def split_beta)
next
  case (OpMessage msg)
  then show ?thesis using message_frame_accounts [OF assms] by (simp only:)
qed (use assms in \<open>auto simp: accounts_def reply_def Let_def split_beta split: option.splits\<close>)

lemma hub_act_accounts:
  assumes "finite (dom (tp_queue (ap_hub app)))" and "all_connected (tp_agents (ap_hub app))" and "\<not> prunes ev"
  shows "accounts (tp_queue (ap_hub app)) (given ev) (lost app ev)
    (tp_queue (ap_hub (fst (hub_act app ev))), snd (hub_act app ev))"
proof (cases ev)
  case (FrameIn env c k op)
  show ?thesis using frame_accounts [OF assms(1,2), of env c k op] unfolding FrameIn
    by (simp del: handle_op.simps given.simps lost.simps add: split_beta)
next
  case (SendRest env msg)
  show ?thesis
    using assms deliver_selected_accounts [OF accounting_deliveries(1), of "fst (route_in_app env (persist_message env msg app) msg)"]
    by (simp add: SendRest handler_parts Let_def split_beta)
next
  case (PostRest env msg)
  show ?thesis
    using assms deliver_selected_accounts [OF accounting_deliveries(2), of "fst (route_in_app env (persist_message env msg app) msg)"]
    by (simp add: PostRest handler_parts Let_def split_beta)
next
  case (SendRpc env msg)
  show ?thesis
    using assms deliver_selected_accounts [OF accounting_deliveries(3), of "app\<lparr>ap_hub := (ap_hub app)\<lparr>tp_quantum := _\<rparr>\<rparr>"]
    by (simp add: SendRpc grpc_send_def chosen_def Let_def split_beta)
qed (use assms in \<open>simp_all add: accounts_def with_hub_def\<close>)

lemma hub_run_accounts:
  assumes "finite (dom (tp_queue (ap_hub app)))" and "all_connected (tp_agents (ap_hub app))"
    and "\<forall>ev \<in> set evs. \<not> prunes ev"
  shows "accounts (tp_queue (ap_hub app)) (concat (map given evs)) (lost_run app evs)
    (tp_queue (ap_hub (fst (hub_run app evs))), snd (hub_run app evs))"
  using assms
proof (induction evs arbitrary: app)
  case (Cons ev evs)
  let ?app1 = "fst (hub_act app ev)"
  have one: "accounts (tp_queue (ap_hub app)) (given ev) (lost app ev) (tp_queue (ap_hub ?app1), snd (hub_act app ev))"
    by (rule hub_act_accounts) (use Cons.prems in simp_all)
  have "accounts (tp_queue (ap_hub ?app1)) (concat (map given evs)) (lost_run ?app1 evs)
      (tp_queue (ap_hub (fst (hub_run ?app1 evs))), snd (hub_run ?app1 evs))"
    by (rule Cons.IH) (use one Cons.prems connected_act in \<open>simp_all add: accounts_def\<close>)
  then have rest: "finite (dom (tp_queue (ap_hub (fst (hub_run ?app1 evs)))))"
    "mset (messages_sent (snd (hub_run ?app1 evs))) + pending (tp_queue (ap_hub (fst (hub_run ?app1 evs)))) +
      mset (lost_run ?app1 evs) = pending (tp_queue (ap_hub ?app1)) + mset (concat (map given evs))"
    by (simp_all add: accounts_def)
  have "mset (messages_sent (snd (hub_act app ev))) + (mset (messages_sent (snd (hub_run ?app1 evs))) +
      pending (tp_queue (ap_hub (fst (hub_run ?app1 evs)))) + mset (lost_run ?app1 evs)) + mset (lost app ev) =
    pending (tp_queue (ap_hub app)) + mset (given ev) + mset (concat (map given evs))"
    using one unfolding rest(2) by (simp add: accounts_def ac_simps)
  then show ?case using rest(1) by (simp add: accounts_def Let_def split_beta ac_simps)
qed (simp add: accounts_nothing)

section \<open>Properties\<close>

text \<open>
  C3. Every message is accounted for. From the hub's start, over any sequence of frames, requests, RPC
  calls and background work other than the pruning of the queues, each message the hub was given has
  been sent once, waits once in a queue, or was lost when it arrived, and these three make up exactly
  the given messages. Lost are those without a destination or whose destination names no agent, and, of
  those that come as frames or over the public API, the ones for an agent that is registered although
  its channel has closed.
\<close>

theorem messages_accounted:
  assumes "daemon_start senv cfg = Inr dm" and "\<forall>ev \<in> set evs. \<not> prunes ev"
    and "hub_run (dm_app dm) evs = (app', outs)"
  shows "mset (messages_sent outs) + pending (tp_queue (ap_hub app')) + mset (lost_run (dm_app dm) evs) =
    mset (concat (map given evs))"
proof -
  have q: "tp_queue (ap_hub (dm_app dm)) = Map.empty" using assms(1) by (rule daemon_start_queue)
  have "tp_agents (ap_hub (dm_app dm)) = Map.empty"
    using assms(1) by (auto simp: daemon_start_def app_built Let_def agents_new_def split: sum.splits prod.splits)
  then have "all_connected (tp_agents (ap_hub (dm_app dm)))" by (simp add: all_connected_def)
  from hub_run_accounts [OF _ this assms(2)] show ?thesis
    by (simp add: q assms(3) accounts_def pending_def)
qed

theorem messages_accounted_witness:
  "\<exists>dm. daemon_start sample_start bare_config = Inr dm \<and>
     (let r = hub_run (dm_app dm) [FrameIn (he_op sample_http_env) 3 ''a'' (OpMessage (a_note ''x'')),
          SendRpc sample_http_env (a_note ''y'')]
      in size (mset (messages_sent (snd r)) + pending (tp_queue (ap_hub (fst r))) +
           mset (lost_run (dm_app dm) [FrameIn (he_op sample_http_env) 3 ''a'' (OpMessage (a_note ''x'')),
             SendRpc sample_http_env (a_note ''y'')])) = 2)"
proof -
  obtain dm where dm: "daemon_start sample_start bare_config = Inr dm" using bare_start by blast
  let ?evs = "[FrameIn (he_op sample_http_env) 3 ''a'' (OpMessage (a_note ''x'')), SendRpc sample_http_env (a_note ''y'')]"
  have "\<forall>ev \<in> set ?evs. \<not> prunes ev" by simp
  from messages_accounted [OF dm this prod.collapse [symmetric]]
  have "let r = hub_run (dm_app dm) ?evs in size (mset (messages_sent (snd r)) + pending (tp_queue (ap_hub (fst r))) +
      mset (lost_run (dm_app dm) ?evs)) = 2"
    by (simp only: Let_def) simp
  with dm show ?thesis by blast
qed

end
