(* ===== verification/TaskLoop.thy ===== *)
theory TaskLoop
  imports Prelude
begin

text \<open>
  The shape of the background tasks: a loop around a ticker and the shutdown channel. A loop may never
  end, so it is a partial function: \<open>None\<close> is a task that runs for ever.
\<close>

section \<open>The loops\<close>

text \<open>
  What a task meets, in order: a tick with the inputs of its work, the shutdown channel with the value it
  then has, or, between two polls, what the rest of the hub does to the shared state.
\<close>

datatype ('s, 'e) task_event = Tick 'e | Changed bool | Meanwhile "'s \<Rightarrow> 's"

text \<open>\<open>leaves b\<close>: whether the loop breaks when the channel reports a change and holds \<open>b\<close>.\<close>

partial_function (option) task_loop ::
    "(bool \<Rightarrow> bool) \<Rightarrow> ('e \<Rightarrow> 's \<Rightarrow> 's) \<Rightarrow> (nat \<Rightarrow> ('s, 'e) task_event) \<Rightarrow> nat \<Rightarrow> 's \<Rightarrow> 's option" where
  "task_loop leaves work ev i s =
     (case ev i of
        Tick e \<Rightarrow> task_loop leaves work ev (Suc i) (work e s)
      | Changed b \<Rightarrow> if leaves b then Some s else task_loop leaves work ev (Suc i) s
      | Meanwhile g \<Rightarrow> task_loop leaves work ev (Suc i) (g s))"

text \<open>\<open>tokio::time::interval\<close> panics for a period of zero, which ends the task.\<close>

datatype 's task_end = Panicked 's | Stopped 's

fun end_state :: "'s task_end \<Rightarrow> 's" where
  "end_state (Panicked s) = s"
| "end_state (Stopped s) = s"

definition with_interval :: "u64 \<Rightarrow> ('s \<Rightarrow> 's option) \<Rightarrow> 's \<Rightarrow> 's task_end option" where
  "with_interval period loop s = (if period = 0 then Some (Panicked s) else map_option Stopped (loop s))"

section \<open>When a loop ends\<close>

fun event_effect :: "('e \<Rightarrow> 's \<Rightarrow> 's) \<Rightarrow> 's \<Rightarrow> ('s, 'e) task_event \<Rightarrow> 's" where
  "event_effect work s (Tick e) = work e s"
| "event_effect work s (Changed b) = s"
| "event_effect work s (Meanwhile g) = g s"

definition breaks :: "(bool \<Rightarrow> bool) \<Rightarrow> ('s, 'e) task_event \<Rightarrow> bool" where
  "breaks leaves e = (case e of Changed b \<Rightarrow> leaves b | _ \<Rightarrow> False)"

lemma task_loop_step:
  "task_loop leaves work ev i s =
     (if breaks leaves (ev i) then Some s else task_loop leaves work ev (Suc i) (event_effect work s (ev i)))"
  by (subst task_loop.simps) (simp add: breaks_def split: task_event.split)

lemma task_loop_ends:
  assumes "breaks leaves (ev (i + n))" and "\<forall>m < n. \<not> breaks leaves (ev (i + m))"
  shows "task_loop leaves work ev i s = Some (foldl (event_effect work) s (map ev [i..<i + n]))"
  using assms
proof (induction n arbitrary: i s)
  case 0
  then show ?case by (simp add: task_loop_step [of _ _ _ i])
next
  case (Suc n)
  have "task_loop leaves work ev (Suc i) (event_effect work s (ev i)) =
      Some (foldl (event_effect work) (event_effect work s (ev i)) (map ev [Suc i..<Suc i + n]))"
    by (rule Suc.IH) (use Suc.prems in \<open>auto dest: spec [of _ "Suc m" for m]\<close>)
  moreover have "[i..<i + Suc n] = i # [Suc i..<Suc i + n]" by (simp add: upt_rec)
  moreover have "\<not> breaks leaves (ev i)" using Suc.prems(2) by (metis add.right_neutral zero_less_Suc)
  ultimately show ?case by (simp add: task_loop_step [of _ _ _ i])
qed

lemma task_loop_returned: "task_loop leaves work ev i s = Some r \<Longrightarrow> \<exists>n \<ge> i. breaks leaves (ev n)"
proof (rule task_loop.raw_induct [where P = "\<lambda>leaves work ev i s r. \<exists>n \<ge> i. breaks leaves (ev n)"])
  fix f leaves work ev i s r
  assume IH: "\<And>leaves work ev i s r. f leaves work ev i s = Some r \<Longrightarrow> \<exists>n \<ge> i. breaks leaves (ev n)"
    and eq: "(case ev i of
        Tick e \<Rightarrow> f leaves work ev (Suc i) (work e s)
      | Changed b \<Rightarrow> if leaves b then Some s else f leaves work ev (Suc i) s
      | Meanwhile g \<Rightarrow> f leaves work ev (Suc i) (g s)) = Some r"
  show "\<exists>n \<ge> i. breaks leaves (ev n)"
  proof (cases "breaks leaves (ev i)")
    case False
    with eq obtain s' where "f leaves work ev (Suc i) s' = Some r"
      by (auto simp: breaks_def split: task_event.splits if_splits)
    from IH [OF this] show ?thesis by (meson Suc_leD)
  qed auto
qed

lemma task_loop_runs_on:
  assumes "\<forall>n \<ge> i. \<not> breaks leaves (ev n)"
  shows "task_loop leaves work ev i s = None"
proof (rule ccontr)
  assume "task_loop leaves work ev i s \<noteq> None"
  then obtain r where "task_loop leaves work ev i s = Some r" by auto
  from task_loop_returned [OF this] assms show False by blast
qed

lemma task_loop_value:
  "task_loop leaves work ev i s \<noteq> None \<longleftrightarrow> (\<exists>n \<ge> i. breaks leaves (ev n))"
proof
  assume "task_loop leaves work ev i s \<noteq> None"
  then obtain r where "task_loop leaves work ev i s = Some r" by auto
  then show "\<exists>n \<ge> i. breaks leaves (ev n)" by (rule task_loop_returned)
next
  assume "\<exists>n \<ge> i. breaks leaves (ev n)"
  then have "\<exists>n. breaks leaves (ev (i + n))" by (metis le_iff_add)
  then obtain n where "breaks leaves (ev (i + n))" "\<forall>m < n. \<not> breaks leaves (ev (i + m))"
    unfolding exists_least_iff [of "\<lambda>n. breaks leaves (ev (i + n))"] by blast
  from task_loop_ends [OF this] show "task_loop leaves work ev i s \<noteq> None" by simp
qed

lemma breaks_simps [simp]:
  "breaks (\<lambda>b. b) e \<longleftrightarrow> e = Changed True" "breaks (\<lambda>b. True) e \<longleftrightarrow> (\<exists>b. e = Changed b)"
  by (auto simp: breaks_def split: task_event.split)

lemma with_interval_value [simp]: "with_interval period loop s \<noteq> None \<longleftrightarrow> period = 0 \<or> loop s \<noteq> None"
  by (simp add: with_interval_def)

text \<open>Whatever the work and the rest of the hub preserve, the loop preserves.\<close>

lemma task_loop_invariant:
  assumes "task_loop leaves work ev i s = Some r" and "I s"
    and "\<And>e s. I s \<Longrightarrow> I (work e s)" and "\<And>j g s. ev j = Meanwhile g \<Longrightarrow> I s \<Longrightarrow> I (g s)"
  shows "I r"
proof -
  from task_loop_returned [OF assms(1)] have "\<exists>n. breaks leaves (ev (i + n))" by (metis le_iff_add)
  then obtain n where "breaks leaves (ev (i + n))" "\<forall>m < n. \<not> breaks leaves (ev (i + m))"
    unfolding exists_least_iff [of "\<lambda>n. breaks leaves (ev (i + n))"] by blast
  then have r: "r = foldl (event_effect work) s (map ev [i..<i + n])"
    using task_loop_ends [where leaves = leaves and ev = ev and i = i and n = n and work = work and s = s] assms(1) by simp
  have "I (event_effect work s (ev j))" if "I s" for s j
    using that assms(3) [of s] assms(4) [of j _ s] by (cases "ev j") auto
  then have "I s \<Longrightarrow> I (foldl (event_effect work) s (map ev js))" for js s
    by (induction js arbitrary: s) auto
  then show ?thesis using assms(2) r by blast
qed

lemma with_interval_invariant:
  assumes "with_interval period (task_loop leaves work ev 0) s = Some r" and "I s"
    and "\<And>e s. I s \<Longrightarrow> I (work e s)" and "\<And>j g s. ev j = Meanwhile g \<Longrightarrow> I s \<Longrightarrow> I (g s)"
  shows "I (end_state r)"
proof (cases "period = 0")
  case False
  with assms(1) obtain r' where "r = Stopped r'" "task_loop leaves work ev 0 s = Some r'"
    by (auto simp: with_interval_def)
  with task_loop_invariant [OF this(2), of I] assms(2,3,4) show ?thesis by simp
qed (use assms(1,2) in \<open>auto simp: with_interval_def\<close>)

end
