(* ===== verification/Tasks.thy ===== *)
theory Tasks
  imports Daemon TaskLoop
begin

text \<open>
  The background tasks that \<open>run\<close> of \<open>src/daemon.rs\<close> starts, among them the
  \<open>run\<close> functions of \<open>src/ai/probe.rs\<close>, \<open>src/ai/discovery.rs\<close> and \<open>src/docker.rs\<close>, as instances of the loop.
\<close>

section \<open>The tasks\<close>

type_synonym ('re, 'e) app_events = "nat \<Rightarrow> ('re app, 'e) task_event"

definition with_endpoints :: "(endpoints \<Rightarrow> endpoints) \<Rightarrow> 're app \<Rightarrow> 're app" where
  "with_endpoints f app = app\<lparr>ap_endpoints := f (ap_endpoints app)\<rparr>"

text \<open>\<open>ProbeEngine::run\<close>\<close>

definition probe_run ::
    "u64 \<Rightarrow> ('re, string list \<times> (string \<Rightarrow> probe_reply)) app_events \<Rightarrow> 're app \<Rightarrow> 're app task_end option" where
  "probe_run interval ev =
     with_interval interval
       (task_loop (\<lambda>b. b) (\<lambda>(ks, get). with_endpoints (probe_all ks get)) ev 0)"

text \<open>\<open>DiscoveryEngine::run\<close>: a first scan, then the loop.\<close>

type_synonym port_scan_input = "string list \<times> (string \<Rightarrow> http_result) \<times> (string \<Rightarrow> datetime) \<times> discovery_config"

definition scan_work :: "port_scan_input \<Rightarrow> 're app \<Rightarrow> 're app" where
  "scan_work = (\<lambda>(ks, w). with_endpoints (discovery_scan ks w))"

definition discovery_run ::
    "u64 \<Rightarrow> port_scan_input \<Rightarrow> ('re, port_scan_input) app_events \<Rightarrow> 're app \<Rightarrow> 're app task_end option" where
  "discovery_run interval first ev app =
     with_interval interval (task_loop (\<lambda>b. b) scan_work ev 0) (scan_work first app)"

text \<open>\<open>DockerDiscovery::run\<close>: a failed scan is logged.\<close>

type_synonym container_scan_input = "string list \<times> (string \<Rightarrow> datetime) \<times> container list result"

definition docker_work :: "container_scan_input \<Rightarrow> 're app \<Rightarrow> 're app" where
  "docker_work = (\<lambda>(ks, v). with_endpoints (\<lambda>eps. fst (docker_scan ks v eps)))"

definition docker_run ::
    "u64 \<Rightarrow> container_scan_input \<Rightarrow> ('re, container_scan_input) app_events \<Rightarrow> 're app \<Rightarrow> 're app task_end option" where
  "docker_run interval first ev app =
     with_interval interval (task_loop (\<lambda>b. b) docker_work ev 0) (docker_work first app)"

text \<open>The tasks written out in \<open>run\<close>; these break at any change of the channel.\<close>

definition prune_task ::
    "('re, string list \<times> datetime) app_events \<Rightarrow> 're app \<Rightarrow> 're app task_end option" where
  "prune_task ev =
     with_interval 300 (task_loop (\<lambda>b. True)
       (\<lambda>(ks, now). with_endpoints (\<lambda>eps. fst (prune_offline ks 600 now eps))) ev 0)"

definition quantum_task ::
    "('re, uuid list \<times> uuid list \<times> datetime) app_events \<Rightarrow> 're app \<Rightarrow> 're app task_end option" where
  "quantum_task ev =
     with_interval 60 (task_loop (\<lambda>b. True)
       (\<lambda>(cs, es, now) app. app\<lparr>ap_hub := (ap_hub app)\<lparr>tp_quantum :=
          map_option (\<lambda>q. quantum_tick cs es q now) (tp_quantum (ap_hub app))\<rparr>\<rparr>) ev 0)"

definition cleanup_task ::
    "config \<Rightarrow> ('re, string list \<times> datetime) app_events \<Rightarrow> 're app \<Rightarrow> 're app task_end option" where
  "cleanup_task cfg ev =
     with_interval (hc_heartbeat_interval_secs (cf_hub cfg)) (task_loop (\<lambda>b. True)
       (\<lambda>(ks, now) app. app\<lparr>ap_hub := (ap_hub app)\<lparr>tp_agents :=
          agents_cleanup ks (stale_secs cfg) now (tp_agents (ap_hub app))\<rparr>\<rparr>) ev 0)"

definition queue_task ::
    "('re, string list \<times> datetime) app_events \<Rightarrow> 're app \<Rightarrow> 're app task_end option" where
  "queue_task ev =
     with_interval 60 (task_loop (\<lambda>b. True)
       (\<lambda>(ks, now) app. app\<lparr>ap_hub := (ap_hub app)\<lparr>tp_queue :=
          prune_old ks 3600 now (tp_queue (ap_hub app))\<rparr>\<rparr>) ev 0)"

section \<open>Properties\<close>

lemmas task_defs = probe_run_def discovery_run_def docker_run_def prune_task_def quantum_task_def cleanup_task_def
  queue_task_def

text \<open>
  C27. A background task ends exactly when its shutdown channel reports the change, whatever ticks and
  other activity come before, or at once when its configured interval is zero: the probing and the
  scanning tasks wait for the value \<open>true\<close>, the others for any change.
\<close>

theorem background_tasks_end:
  "(probe_run period ev1 app \<noteq> None \<longleftrightarrow> period = 0 \<or> (\<exists>n. ev1 n = Changed True)) \<and>
   (discovery_run period scan1 ev2 app \<noteq> None \<longleftrightarrow> period = 0 \<or> (\<exists>n. ev2 n = Changed True)) \<and>
   (docker_run period scan2 ev3 app \<noteq> None \<longleftrightarrow> period = 0 \<or> (\<exists>n. ev3 n = Changed True)) \<and>
   (prune_task ev4 app \<noteq> None \<longleftrightarrow> (\<exists>n b. ev4 n = Changed b)) \<and>
   (quantum_task ev5 app \<noteq> None \<longleftrightarrow> (\<exists>n b. ev5 n = Changed b)) \<and>
   (cleanup_task cfg ev6 app \<noteq> None \<longleftrightarrow>
      hc_heartbeat_interval_secs (cf_hub cfg) = 0 \<or> (\<exists>n b. ev6 n = Changed b)) \<and>
   (queue_task ev7 app \<noteq> None \<longleftrightarrow> (\<exists>n b. ev7 n = Changed b))"
  by (simp only: task_defs with_interval_value task_loop_value breaks_simps) simp

text \<open>What else happens in the hub while a task runs is a step of the hub.\<close>

definition meanwhile_steps :: "('re, 'e) app_events \<Rightarrow> bool" where
  "meanwhile_steps ev \<longleftrightarrow> (\<forall>i g app. ev i = Meanwhile g \<longrightarrow> app_step\<^sup>=\<^sup>= app (g app))"

lemma work_steps:
  "app_step app (with_endpoints (probe_all ks get) app)"
  "app_step app (scan_work scan1 app)"
  "app_step app (docker_work scan2 app)"
  "app_step app (with_endpoints (\<lambda>eps. fst (prune_offline ks 600 now eps)) app)"
  by (auto simp: with_endpoints_def scan_work_def docker_work_def split_beta
      intro: app_step.probe app_step.scan app_step.containers app_step.prune_endpoints)

lemma task_reachable:
  assumes "with_interval period (task_loop leaves work ev 0) app = Some r" and "meanwhile_steps ev"
    and "app_reachable app" and "\<And>e app. app_step\<^sup>=\<^sup>= app (work e app)"
  shows "app_reachable (end_state r)"
proof (rule with_interval_invariant [where I = app_reachable, OF assms(1,3)])
  show "app_reachable (work e a)" if "app_reachable a" for e a
    using that assms(4) [of a e] by (auto intro: app_reachable.step)
  show "app_reachable (g a)" if "ev j = Meanwhile g" "app_reachable a" for j g a
    using that assms(2) unfolding meanwhile_steps_def by (metis app_reachable.step sup2E)
qed


definition sample_events :: "(string, string list \<times> datetime) app_events" where
  "sample_events i =
     (if i = 0 then Meanwhile (\<lambda>app. fst (vfs_write app ''/ctl/status'' ''busy''))
      else if i = 1 then Tick ([], 5) else Changed True)"


end
