(* ===== verification/Shutdown.thy ===== *)
theory Shutdown
  imports Tasks
begin

text \<open>
  The end of \<open>run\<close> in \<open>src/daemon.rs\<close>: the channels that tell the background tasks to stop, the task that
  waits for a signal and uses them, and the waiting for the tasks once the server has stopped. When a
  signal comes, how long the server takes and when each task ends are inputs; times are in nanoseconds.
\<close>

section \<open>Channels and signals\<close>

datatype shutdown_channel = MainChannel | ProbeChannel | DiscoveryChannel | DockerChannel

datatype background_task =
    CleanupTask | PruneTask | QueueTask | DiscoveryTask | ProbeTask | DockerTask | QuantumTask

fun listens :: "background_task \<Rightarrow> shutdown_channel" where
  "listens CleanupTask = MainChannel"
| "listens PruneTask = MainChannel"
| "listens QueueTask = MainChannel"
| "listens QuantumTask = MainChannel"
| "listens ProbeTask = ProbeChannel"
| "listens DiscoveryTask = DiscoveryChannel"
| "listens DockerTask = DockerChannel"

text \<open>The channels start with \<open>false\<close>; after either signal \<open>true\<close> is sent on all of them, in this order.\<close>

datatype os_signal = SigInt | SigTerm

definition shutdown_sends :: "os_signal \<Rightarrow> (shutdown_channel \<times> bool) list" where
  "shutdown_sends sig = [(MainChannel, True), (ProbeChannel, True), (DiscoveryChannel, True), (DockerChannel, True)]"

definition told :: "os_signal \<Rightarrow> background_task \<Rightarrow> bool \<Rightarrow> bool" where
  "told sig t b \<longleftrightarrow> (listens t, b) \<in> set (shutdown_sends sig)"

section \<open>Waiting\<close>

text \<open>The tasks that were started, in the order in which \<open>run\<close> waits for them.\<close>

definition started_tasks :: "config \<Rightarrow> bool \<Rightarrow> 're daemon \<Rightarrow> background_task list" where
  "started_tasks cfg docker_ok dm =
     [CleanupTask, PruneTask, QueueTask, DiscoveryTask] @
     (if dm_probing dm then [ProbeTask] else []) @
     (if dc_docker_enabled (cf_discovery cfg) \<and> docker_ok then [DockerTask] else []) @
     (if tp_quantum (ap_hub (dm_app dm)) \<noteq> None then [QuantumTask] else [])"

definition five_secs :: nat where
  "five_secs = 5 * nanos_per_sec"

text \<open>\<open>timeout\<close>: the time when the waiting for a task is over that ends at the given time, or never.\<close>

fun wait_task :: "nat \<Rightarrow> nat option \<Rightarrow> nat" where
  "wait_task now (Some t) = (if t \<le> now + five_secs then max now t else now + five_secs)"
| "wait_task now None = now + five_secs"

fun wait_tasks :: "(background_task \<Rightarrow> nat option) \<Rightarrow> nat \<Rightarrow> background_task list \<Rightarrow> nat" where
  "wait_tasks ends now [] = now"
| "wait_tasks ends now (t # ts) = wait_tasks ends (wait_task now (ends t)) ts"

text \<open>The server's task ends with its result, or with the error of a task that was aborted; only after
  success does \<open>run\<close> wait.\<close>

definition run_end ::
    "config \<Rightarrow> bool \<Rightarrow> 're daemon \<Rightarrow> unit result result \<Rightarrow> nat \<Rightarrow> (background_task \<Rightarrow> nat option) \<Rightarrow> nat \<times> unit result" where
  "run_end cfg docker_ok dm server now ends =
     (case server of
        Inl e \<Rightarrow> (now, Inl e)
      | Inr (Inl e) \<Rightarrow> (now, Inl e)
      | Inr (Inr _) \<Rightarrow> (wait_tasks ends now (started_tasks cfg docker_ok dm), Inr ()))"

section \<open>How long it takes\<close>

lemma wait_task_bounds: "now \<le> wait_task now e \<and> wait_task now e \<le> now + five_secs"
  by (cases e) auto

lemma wait_tasks_bounds: "now \<le> wait_tasks ends now ts \<and> wait_tasks ends now ts \<le> now + length ts * five_secs"
proof (induction ts arbitrary: now)
  case (Cons t ts)
  from Cons.IH [of "wait_task now (ends t)"] wait_task_bounds [of now "ends t"] show ?case
    by (simp add: add.assoc)
qed simp

lemma wait_tasks_prompt:
  "(\<And>t. t \<in> set ts \<Longrightarrow> \<exists>e. ends t = Some e \<and> e \<le> now + five_secs) \<Longrightarrow>
     wait_tasks ends now ts = Max (insert now ((\<lambda>t. the (ends t)) ` set ts))"
proof (induction ts arbitrary: now)
  case (Cons t ts)
  obtain e where e: "ends t = Some e" "e \<le> now + five_secs" using Cons.prems [of t] by auto
  have later: "\<exists>e. ends u = Some e \<and> e \<le> max now (the (ends t)) + five_secs" if "u \<in> set ts" for u
    using Cons.prems [of u] that by (auto simp: max_def intro: order_trans)
  have "wait_tasks ends now (t # ts) = wait_tasks ends (max now e) ts" using e by simp
  also have "\<dots> = Max (insert (max now e) ((\<lambda>t. the (ends t)) ` set ts))"
    using Cons.IH [of "max now e"] later e(1) by simp
  also have "\<dots> = Max (insert now ((\<lambda>t. the (ends t)) ` set (t # ts)))"
    by (cases "ts = []") (simp_all add: e(1) max.assoc)
  finally show ?case .
qed simp

lemma started_count: "length (started_tasks cfg docker_ok dm) \<le> 7"
  by (simp add: started_tasks_def)

lemma all_told: "told sig t True \<and> \<not> told sig t False"
  by (cases t) (simp_all add: told_def shutdown_sends_def)


text \<open>A task whose channel reports what is sent on it at some point of its run.\<close>

definition signalled :: "os_signal \<Rightarrow> background_task \<Rightarrow> (nat \<Rightarrow> ('s, 'e) task_event) \<Rightarrow> bool" where
  "signalled sig t ev \<longleftrightarrow> (\<exists>n b. told sig t b \<and> ev n = Changed b)"

lemma signalled_true: "signalled sig t ev \<Longrightarrow> \<exists>n. ev n = Changed True"
  using all_told by (metis (full_types) signalled_def)

lemma signalled_ends:
  assumes "signalled sig t ev" and "leaves True"
  shows "with_interval period (task_loop leaves work ev 0) s \<noteq> None"
proof -
  obtain n where "ev n = Changed True" using signalled_true [OF assms(1)] ..
  then have "breaks leaves (ev n)" using assms(2) by (simp add: breaks_def)
  then have "\<exists>n \<ge> 0. breaks leaves (ev n)" by blast
  then show ?thesis by (simp only: with_interval_value task_loop_value) simp
qed

section \<open>Properties\<close>

text \<open>
  C28. Shutdown completes. After either signal each background task finds \<open>true\<close> on the channel it listens
  on, and with it comes to its end, whatever its period and the rest of the hub do; once the server has
  stopped, \<open>run\<close> returns within five seconds for each task that was started, so within 35, even if
  tasks never end, and at the moment the last of them ends when all end in time. If the server failed,
  \<open>run\<close> returns its error at once.
\<close>

theorem shutdown_completes:
  "(signalled sig ProbeTask ev1 \<longrightarrow> probe_run period ev1 app \<noteq> None) \<and>
   (signalled sig DiscoveryTask ev2 \<longrightarrow> discovery_run period scan1 ev2 app \<noteq> None) \<and>
   (signalled sig DockerTask ev3 \<longrightarrow> docker_run period scan2 ev3 app \<noteq> None) \<and>
   (signalled sig PruneTask ev4 \<longrightarrow> prune_task ev4 app \<noteq> None) \<and>
   (signalled sig QuantumTask ev5 \<longrightarrow> quantum_task ev5 app \<noteq> None) \<and>
   (signalled sig CleanupTask ev6 \<longrightarrow> cleanup_task cfg ev6 app \<noteq> None) \<and>
   (signalled sig QueueTask ev7 \<longrightarrow> queue_task ev7 app \<noteq> None) \<and>
   (case run_end cfg docker_ok dm server now ends of
      (finished, Inl e) \<Rightarrow> finished = now \<and> (server = Inl e \<or> server = Inr (Inl e))
    | (finished, Inr _) \<Rightarrow> server = Inr (Inr ()) \<and> now \<le> finished \<and>
        finished \<le> now + length (started_tasks cfg docker_ok dm) * five_secs \<and>
        finished \<le> now + 35 * nanos_per_sec \<and>
        ((\<forall>t \<in> set (started_tasks cfg docker_ok dm). \<exists>e. ends t = Some e \<and> e \<le> now + five_secs) \<longrightarrow>
           finished = Max (insert now ((\<lambda>t. the (ends t)) ` set (started_tasks cfg docker_ok dm)))))"
proof -
  have bound: "wait_tasks ends now (started_tasks cfg docker_ok dm) \<le> now + 35 * nanos_per_sec"
  proof -
    have "length (started_tasks cfg docker_ok dm) * five_secs \<le> 7 * five_secs"
      by (rule mult_le_mono1) (rule started_count)
    moreover have "7 * five_secs = 35 * nanos_per_sec" by (simp add: five_secs_def)
    ultimately show ?thesis
      using wait_tasks_bounds [of now ends "started_tasks cfg docker_ok dm"] by linarith
  qed
  have "case run_end cfg docker_ok dm server now ends of
      (finished, Inl e) \<Rightarrow> finished = now \<and> (server = Inl e \<or> server = Inr (Inl e))
    | (finished, Inr _) \<Rightarrow> server = Inr (Inr ()) \<and> now \<le> finished \<and>
        finished \<le> now + length (started_tasks cfg docker_ok dm) * five_secs \<and>
        finished \<le> now + 35 * nanos_per_sec \<and>
        ((\<forall>t \<in> set (started_tasks cfg docker_ok dm). \<exists>e. ends t = Some e \<and> e \<le> now + five_secs) \<longrightarrow>
           finished = Max (insert now ((\<lambda>t. the (ends t)) ` set (started_tasks cfg docker_ok dm))))"
    using bound wait_tasks_bounds [of now ends "started_tasks cfg docker_ok dm"]
      wait_tasks_prompt [of "started_tasks cfg docker_ok dm" ends now]
    by (simp add: run_end_def split: sum.split)
  then show ?thesis by (simp add: task_defs signalled_ends)
qed

theorem shutdown_completes_witness:
  "queue_task (\<lambda>n. if n = 3 then Changed True else Tick ([], 0)) (sample_app None) \<noteq> None \<and>
   (\<exists>dm. daemon_start sample_start bare_config = Inr dm \<and>
      fst (run_end bare_config False dm (Inr (Inr ())) 10 (\<lambda>_. None)) \<le> 10 + 35 * nanos_per_sec)"
proof -
  let ?ev = "(\<lambda>n. if n = 3 then Changed True else Tick ([], 0)) :: (string, string list \<times> datetime) app_events"
  obtain dm where dm: "daemon_start sample_start bare_config = Inr dm" using bare_start by blast
  have sig: "signalled SigTerm QueueTask ?ev" unfolding signalled_def
    by (intro exI [of _ 3] exI [of _ True]) (simp add: all_told)
  note all = shutdown_completes [where sig = SigTerm and ?ev7.0 = ?ev and app = "sample_app None" and cfg = bare_config
      and docker_ok = False and dm = dm and server = "Inr (Inr ())" and now = 10 and ends = "\<lambda>_. None"]
  from all [THEN conjunct2, THEN conjunct2, THEN conjunct2, THEN conjunct2, THEN conjunct2, THEN conjunct2, THEN conjunct1] sig
  have "queue_task ?ev (sample_app None) \<noteq> None" by (rule mp)
  moreover have "fst (run_end bare_config False dm (Inr (Inr ())) 10 (\<lambda>_. None)) \<le> 10 + 35 * nanos_per_sec"
    using all [THEN conjunct2, THEN conjunct2, THEN conjunct2, THEN conjunct2, THEN conjunct2, THEN conjunct2, THEN conjunct2]
    by (auto split: prod.splits sum.splits)
  ultimately show ?thesis using dm by blast
qed

end
