(* ===== verification/Cli.thy ===== *)
theory Cli
  imports Daemon
begin

text \<open>
  The command line of \<open>src/main.rs\<close>: the commands, the request each sends to a running daemon, and \<open>serve\<close>,
  which reads the configuration and starts one. Parsing the arguments, the HTTP client and printing the
  answers are not modelled; the part of a URL that the server sees as the path is a parameter.
\<close>

section \<open>Commands\<close>

datatype command =
    Serve | PrintConfig | Health string | ListAgents string "string option" | ListEndpoints string "string option"
  | Metrics string

record client_get =
  cg_url :: string
  cg_headers :: headers

definition with_api_key :: "string option \<Rightarrow> client_get \<Rightarrow> client_get" where
  "with_api_key api_key req =
     (case api_key of
        Some key \<Rightarrow> req\<lparr>cg_headers := [(''authorization'', ''Bearer '' @ key)]\<rparr>
      | None \<Rightarrow> req)"

definition get_url :: "string \<Rightarrow> string \<Rightarrow> client_get" where
  "get_url url path = \<lparr>cg_url = trim_end_slashes url @ path, cg_headers = []\<rparr>"

fun command_request :: "command \<Rightarrow> client_get option" where
  "command_request Serve = None"
| "command_request PrintConfig = None"
| "command_request (Health url) = Some (get_url url ''/health'')"
| "command_request (ListAgents url api_key) = Some (with_api_key api_key (get_url url ''/agents''))"
| "command_request (ListEndpoints url api_key) = Some (with_api_key api_key (get_url url ''/endpoints''))"
| "command_request (Metrics url) = Some (get_url url ''/metrics'')"

definition main_serve :: "environment \<Rightarrow> 're start_env \<Rightarrow> 're daemon result" where
  "main_serve env senv =
     (case config_from_env env of Inl e \<Rightarrow> Inl e | Inr config \<Rightarrow> daemon_start senv config)"

section \<open>What the daemon receives\<close>

text \<open>The client refuses a header value with control characters other than the tab.\<close>

definition header_char :: "char \<Rightarrow> bool" where
  "header_char c \<longleftrightarrow> (let n = of_char c :: nat in 32 \<le> n \<and> n \<noteq> 127 \<or> n = 9)"

definition send_get :: "(string \<Rightarrow> string) \<Rightarrow> client_get \<Rightarrow> http_request option" where
  "send_get url_path req =
     (if list_all (\<lambda>(n, v). list_all header_char v) (cg_headers req)
      then Some \<lparr>rq_method = ''GET'', rq_path = url_path (cg_url req), rq_headers = cg_headers req\<rparr>
      else None)"

definition command_admitted :: "(string \<Rightarrow> string) \<Rightarrow> 're daemon \<Rightarrow> limited_request \<Rightarrow> command \<Rightarrow> bool" where
  "command_admitted url_path dm l cmd =
     (case Option.bind (command_request cmd) (send_get url_path) of
        Some req \<Rightarrow> passes_auth dm \<lparr>gt_http = req, gt_limited = l\<rparr>
      | None \<Rightarrow> False)"

lemma visible_header_char: "list_all visible_ascii s \<Longrightarrow> list_all header_char s"
  by (auto simp: list_all_iff visible_ascii_def header_char_def Let_def)

lemma admitted_with_key:
  assumes "url_path (trim_end_slashes url @ path) = path" and "\<not> public_path path"
  shows "(case send_get url_path (with_api_key api_key (get_url url path)) of
      Some req \<Rightarrow> passes_auth dm \<lparr>gt_http = req, gt_limited = l\<rparr> | None \<Rightarrow> False) \<longleftrightarrow>
    (case ac_api_key (dm_auth dm) of
       None \<Rightarrow> (case api_key of Some key \<Rightarrow> list_all header_char key | None \<Rightarrow> True)
     | Some key \<Rightarrow> api_key = Some key \<and> list_all visible_ascii key)"
proof -
  have bearer: "list_all header_char ''Bearer ''" "list_all visible_ascii ''Bearer ''"
    by (simp_all add: header_char_def visible_ascii_def)
  note chars = bearer [simplified]
  show ?thesis
    using assms visible_header_char
    by (auto simp: send_get_def with_api_key_def get_url_def passes_auth_def api_key_middleware_def chars
        get_header_str_def header_to_str_def bearer_valid_def constant_time_eq_iff starts_with_def
        split: option.splits)
qed

section \<open>Properties\<close>



end
