(* ===== verification/Outage.thy ===== *)
theory Outage
  imports Proxy
begin

text \<open>
  The proxy (\<open>src/proxy.rs\<close>) and the circuit breaker (\<open>src/circuit.rs\<close>) while an endpoint is down: how often
  it is still contacted, whatever else the hub does with its breaker meanwhile.
\<close>

section \<open>Runs\<close>

text \<open>
  A chat completion meets the endpoints as the probes and scans have left them; the routing pipeline asks
  the same breaker about its destinations. A step also gives the URL that was contacted.
\<close>

datatype outage_event = Chat endpoints proxy_env chat_request | Asked instant string

fun event_time :: "outage_event \<Rightarrow> instant" where
  "event_time (Chat eps env req) = pe_instant env"
| "event_time (Asked now ep) = now"

fun outage_step :: "proxy_state \<Rightarrow> outage_event \<Rightarrow> proxy_state \<times> string option" where
  "outage_step st (Chat eps env req) =
     (let (st', url, answer) = chat_completions env (st\<lparr>px_endpoints := eps\<rparr>) req in (st', url))"
| "outage_step st (Asked now ep) =
     (st\<lparr>px_circuit := map_option (\<lambda>c. fst (circuit_allow c now ep)) (px_circuit st)\<rparr>, None)"

fun outage_run :: "proxy_state \<Rightarrow> outage_event list \<Rightarrow> string option list" where
  "outage_run st [] = []"
| "outage_run st (ev # evs) = (let (st', url) = outage_step st ev in url # outage_run st' evs)"

text \<open>The endpoint \<open>k\<close> alone has the URL \<open>u\<close>, and no request to it succeeds.\<close>

fun down :: "string \<Rightarrow> string \<Rightarrow> outage_event \<Rightarrow> bool" where
  "down k u (Asked now ep) = True"
| "down k u (Chat eps env req) =
     (endpoints_keyed eps \<and> iterates (pe_ks env) eps \<and> rng_ok (pe_rng env) \<and>
      (\<forall>j e. eps j = Some e \<longrightarrow> (completions_url e = u \<longleftrightarrow> j = k)) \<and>
      (\<forall>hs body. \<not> upstream_success (pe_post env u hs body)))"

section \<open>The breaker's entry\<close>

text \<open>What \<open>n\<close> failed contacts since \<open>t0\<close> have left in the entry of the endpoint.\<close>

definition outage_inv :: "circuit_breaker \<Rightarrow> instant \<Rightarrow> instant \<Rightarrow> nat \<Rightarrow> endpoint_circuit \<Rightarrow> bool" where
  "outage_inv cb t0 now n e =
     (let limit = max 1 (unat (cb_failure_threshold cb)); r = cb_recovery_timeout cb
      in t0 \<le> now \<and>
         (case ec_state e of
            Closed \<Rightarrow> n \<le> unat (ec_failures e) \<and> unat (ec_failures e) < limit
          | Open \<Rightarrow> \<exists>l. ec_last_failure e = Some l \<and> t0 \<le> l \<and> l \<le> now \<and> n \<le> limit + (l - t0) div r
          | HalfOpen \<Rightarrow> \<exists>l. ec_last_failure e = Some l \<and> t0 \<le> l \<and> l + r \<le> now \<and> n \<le> limit + (l - t0) div r))"

lemma outage_inv_later: "outage_inv cb t0 now n e \<Longrightarrow> now \<le> now' \<Longrightarrow> outage_inv cb t0 now' n e"
  by (auto simp: outage_inv_def Let_def split: circuit_state.splits)

lemma outage_inv_asked: "outage_inv cb t0 now n e \<Longrightarrow> outage_inv cb t0 now n (fst (allow_entry cb now e))"
  by (auto simp: outage_inv_def Let_def allow_entry_def split: circuit_state.splits if_splits)

lemma outage_div:
  assumes "0 < r" and "r \<le> now - l" and "t0 \<le> l" and "l \<le> (now :: nat)"
  shows "Suc ((l - t0) div r) \<le> (now - t0) div r"
proof -
  have "(l - t0) + r \<le> now - t0" using assms by simp
  then have "((l - t0) + r) div r \<le> (now - t0) div r" by (rule div_le_mono)
  then show ?thesis using assms(1) by simp
qed

lemma outage_inv_failed:
  assumes "outage_inv cb t0 now n e" and "snd (allow_entry cb now e)" and "0 < cb_recovery_timeout cb"
  shows "outage_inv cb t0 now (Suc n) (failure_entry cb now (fst (allow_entry cb now e)))"
proof (cases "ec_state e")
  case Closed
  let ?f = "ec_failures e"
  have f: "n \<le> unat ?f" "unat ?f < max 1 (unat (cb_failure_threshold cb))" "t0 \<le> now"
    using assms(1) Closed by (auto simp: outage_inv_def Let_def)
  have "unat (cb_failure_threshold cb) < 2 ^ 32" using unsigned_less [of "cb_failure_threshold cb"] by simp
  then have "unat ?f < 2 ^ 32 - 1" using f(2) by (auto simp: max_def split: if_splits)
  then have suc: "unat (?f + 1) = Suc (unat ?f)"
    by (subst unat_add_lem [THEN iffD1]) simp_all
  show ?thesis
    using Closed f suc
    by (auto simp: outage_inv_def Let_def allow_entry_def failure_entry_def word_le_nat_alt not_le)
next
  case Open
  then obtain l where l: "ec_last_failure e = Some l" "t0 \<le> l" "l \<le> now"
      "n \<le> max 1 (unat (cb_failure_threshold cb)) + (l - t0) div cb_recovery_timeout cb"
    using assms(1) by (auto simp: outage_inv_def Let_def)
  have r: "cb_recovery_timeout cb \<le> now - l" using assms(2) Open l(1) by (simp add: allow_entry_def split: if_splits)
  show ?thesis using Open l r outage_div [of "cb_recovery_timeout cb" now l t0] assms(3)
    by (auto simp: outage_inv_def Let_def allow_entry_def failure_entry_def)
next
  case HalfOpen
  then obtain l where l: "ec_last_failure e = Some l" "t0 \<le> l" "l + cb_recovery_timeout cb \<le> now"
      "n \<le> max 1 (unat (cb_failure_threshold cb)) + (l - t0) div cb_recovery_timeout cb"
    using assms(1) by (auto simp: outage_inv_def Let_def)
  have "Suc ((l - t0) div cb_recovery_timeout cb) \<le> (now - t0) div cb_recovery_timeout cb"
    by (rule outage_div) (use l assms(3) in simp_all)
  then show ?thesis using HalfOpen l assms(2,3)
    by (auto simp: outage_inv_def Let_def allow_entry_def failure_entry_def split: if_splits)
qed

section \<open>One event\<close>

lemma allow_entry_cong_config:
  assumes "cb_recovery_timeout c = cb_recovery_timeout c'" and "cb_half_open_max_calls c = cb_half_open_max_calls c'"
    and "cb_failure_threshold c = cb_failure_threshold c'"
  shows "allow_entry c = allow_entry c'" and "failure_entry c = failure_entry c'" and "outage_inv c = outage_inv c'"
  using assms allow_entry_cong [OF assms(1,2)]
  by (auto simp: fun_eq_iff failure_entry_def outage_inv_def Let_def)

definition same_config :: "circuit_breaker \<Rightarrow> circuit_breaker \<Rightarrow> bool" where
  "same_config c c' \<longleftrightarrow> cb_recovery_timeout c' = cb_recovery_timeout c \<and>
     cb_half_open_max_calls c' = cb_half_open_max_calls c \<and> cb_failure_threshold c' = cb_failure_threshold c"

lemma same_config_ops:
  "same_config c (asked now K c)" "same_config c (record_success c ep)" "same_config c (record_failure c now ep)"
  "same_config c (fst (circuit_allow c now ep))"
  by (auto simp: same_config_def asked_def record_success_def record_failure_def circuit_allow_def split_beta Let_def
      split: option.split)

lemma same_config_trans: "same_config a b \<Longrightarrow> same_config b c \<Longrightarrow> same_config a c"
  by (simp add: same_config_def)

lemma same_config_inv: "same_config c c' \<Longrightarrow> outage_inv c' = outage_inv c"
  using allow_entry_cong_config(3) [of c' c] by (simp add: same_config_def)

lemma circuit_entry_asked:
  "circuit_entry (asked now K c) k =
     (if k \<in> K then fst (allow_entry c now (circuit_entry c k)) else circuit_entry c k)"
  by (simp add: asked_def circuit_entry_def [of "_\<lparr>cb_state := _\<rparr>"] entry_or_def)
    (simp add: circuit_entry_def entry_or_def)

lemma circuit_entry_allow:
  "circuit_entry (fst (circuit_allow c now j)) k =
     (if k = j then fst (allow_entry c now (circuit_entry c k)) else circuit_entry c k)"
  by (simp add: circuit_allow_def split_beta Let_def circuit_entry_def entry_or_def)

lemma circuit_entry_recorded_other:
  "k \<noteq> j \<Longrightarrow> circuit_entry (record_success c j) k = circuit_entry c k \<and>
     circuit_entry (record_failure c now j) k = circuit_entry c k"
  by (simp add: record_success_def record_failure_def circuit_entry_def entry_or_def split: option.split)

text \<open>One event keeps the invariant, and a contact of the endpoint counts as one.\<close>

lemma outage_step_inv:
  assumes "px_circuit st = Some c" and "outage_inv c t0 (event_time ev) n (circuit_entry c k)" and "down k u ev"
    and "0 < cb_recovery_timeout c"
  shows "\<exists>c'. px_circuit (fst (outage_step st ev)) = Some c' \<and> same_config c c' \<and>
    outage_inv c t0 (event_time ev) (n + (if snd (outage_step st ev) = Some u then 1 else 0)) (circuit_entry c' k)"
proof (cases ev)
  case (Asked now j)
  then show ?thesis using assms(1,2) outage_inv_asked [of c t0 now n "circuit_entry c k"]
    by (auto simp: circuit_entry_allow same_config_ops)
next
  case (Chat eps env req)
  let ?st = "st\<lparr>px_endpoints := eps\<rparr>" and ?now = "pe_instant env" and ?K = "Collect (online eps)"
  have ok: "endpoints_keyed (px_endpoints ?st)" "iterates (pe_ks env) (px_endpoints ?st)"
      "px_quantum ?st \<noteq> None \<longrightarrow> rng_ok (pe_rng env)"
    and urls: "\<And>j e. eps j = Some e \<Longrightarrow> completions_url e = u \<longleftrightarrow> j = k"
    and failing: "\<And>hs body. \<not> upstream_success (pe_post env u hs body)"
    using assms(3) Chat by auto
  have inv: "outage_inv c t0 ?now n (circuit_entry c k)" using assms(2) Chat by simp
  then have asked_inv: "outage_inv c t0 ?now n (circuit_entry (asked ?now ?K c) k)"
    using outage_inv_asked by (simp add: circuit_entry_asked)
  from chat_completions_courses [OF ok, of req] show ?thesis
  proof (elim disjE exE conjE)
    assume "fst (snd (chat_completions env ?st req)) = None"
      "px_circuit (fst (chat_completions env ?st req)) =
        map_option (asked ?now (Collect (online (px_endpoints ?st)))) (px_circuit ?st)"
    then show ?thesis using assms(1) asked_inv Chat by (simp add: split_beta Let_def same_config_ops)
  next
    fix j e
    assume e: "px_endpoints ?st j = Some e" and on: "online (px_endpoints ?st) j"
      and adm: "admitted ?now (px_circuit ?st) j"
      and url: "fst (snd (chat_completions env ?st req)) = Some (completions_url e)"
      and cb: "px_circuit (fst (chat_completions env ?st req)) =
        record_outcome ?now j (upstream_success (posted env ?st req e))
          (map_option (asked ?now (Collect (online (px_endpoints ?st)))) (px_circuit ?st))"
    show ?thesis
    proof (cases "j = k")
      case True
      then have u: "completions_url e = u" using urls e by simp
      then have "\<not> upstream_success (posted env ?st req e)" using failing by (simp add: posted_def)
      then have cb': "px_circuit (fst (outage_step st ev)) = Some (record_failure (asked ?now ?K c) ?now k)"
        using cb assms(1) Chat True by (simp add: record_outcome_def split_beta Let_def)
      have entry: "circuit_entry (record_failure (asked ?now ?K c) ?now k) k =
          failure_entry c ?now (fst (allow_entry c ?now (circuit_entry c k)))"
        using on True allow_entry_cong_config(2) [of "asked ?now ?K c" c]
        by (simp add: record_failure_def circuit_entry_def [of "_\<lparr>cb_state := _\<rparr>"] entry_or_def circuit_entry_asked)
          (simp add: asked_def)
      have "snd (allow_entry c ?now (circuit_entry c k))"
        using adm assms(1) True by (simp add: admitted_def circuit_allow_def split_beta Let_def)
      from outage_inv_failed [OF inv this assms(4)] show ?thesis
        using cb' entry url u Chat same_config_trans [OF same_config_ops(1,3)]
        by (simp add: split_beta Let_def)
    next
      case False
      then have "completions_url e \<noteq> u" using urls e by simp
      moreover have "\<exists>c'. px_circuit (fst (outage_step st ev)) = Some c' \<and> same_config c c' \<and>
          circuit_entry c' k = circuit_entry (asked ?now ?K c) k"
        using cb assms(1) Chat False circuit_entry_recorded_other [of k j "asked ?now ?K c" ?now]
          same_config_trans [OF same_config_ops(1,2)] same_config_trans [OF same_config_ops(1,3)]
        by (simp add: record_outcome_def split_beta Let_def)
      ultimately show ?thesis using asked_inv url Chat by (auto simp: split_beta Let_def)
    qed
  qed
qed

lemma outage_inv_bound:
  "outage_inv c t0 now n e \<Longrightarrow>
     n \<le> max 1 (unat (cb_failure_threshold c)) + (now - t0) div cb_recovery_timeout c"
  by (auto simp: outage_inv_def Let_def split: circuit_state.splits
      intro: order_trans [OF _ add_left_mono [OF div_le_mono]])

lemma outage_run_bound:
  assumes "px_circuit st = Some c" and "outage_inv c t0 now n (circuit_entry c k)"
    and "sorted (now # map event_time evs)" and "\<forall>ev \<in> set evs. down k u ev" and "0 < cb_recovery_timeout c"
  shows "n + count_list (outage_run st evs) (Some u) \<le>
    max 1 (unat (cb_failure_threshold c)) + (last (now # map event_time evs) - t0) div cb_recovery_timeout c"
  using assms
proof (induction evs arbitrary: st c now n)
  case Nil
  then show ?case using outage_inv_bound by simp
next
  case (Cons ev evs)
  have "outage_inv c t0 (event_time ev) n (circuit_entry c k)"
    using Cons.prems(2,3) outage_inv_later by simp
  from outage_step_inv [OF Cons.prems(1) this _ Cons.prems(5), of u] Cons.prems(4) obtain c' where
    c': "px_circuit (fst (outage_step st ev)) = Some c'" "same_config c c'"
    and inv: "outage_inv c t0 (event_time ev) (n + (if snd (outage_step st ev) = Some u then 1 else 0)) (circuit_entry c' k)"
    by auto
  have fields: "cb_failure_threshold c' = cb_failure_threshold c" "cb_recovery_timeout c' = cb_recovery_timeout c"
    using c'(2) by (simp_all add: same_config_def)
  have "sorted (event_time ev # map event_time evs)" "\<forall>ev \<in> set evs. down k u ev" "0 < cb_recovery_timeout c'"
    using Cons.prems(3,4,5) fields by simp_all
  from Cons.IH [OF c'(1) inv [folded same_config_inv [OF c'(2)]] this] show ?case
    by (cases "snd (outage_step st ev) = Some u"; cases "evs = []") (simp_all add: fields split_beta Let_def)
qed

section \<open>Properties\<close>


definition one_down :: "instant \<Rightarrow> outage_event" where
  "one_down now =
     Chat [''a'' \<mapsto> sample_endpoint ''a'']
       ((sample_proxy_env (UpstreamError ''refused''))\<lparr>pe_instant := now, pe_ks := [''a'']\<rparr>) sample_chat"


end
