(* ===== verification/StoreLife.thy ===== *)
theory StoreLife
  imports Daemon
begin

text \<open>
  What the hub writes to its store (\<open>src/store.rs\<close>) over its whole life: which tables of it stay empty,
  and which messages are never stored.
\<close>

definition audit_empty :: "store \<Rightarrow> bool" where
  "audit_empty st \<longleftrightarrow> so_attempts st = [] \<and> so_history st = [] \<and> so_events st = [] \<and>
     (\<forall>row \<in> set (so_messages st). mw_delivery_status row = ''pending'' \<and> mw_delivered_at row = None)"

lemma audit_insert_message: "audit_empty st \<Longrightarrow> audit_empty (fst (insert_message cd st m))"
  by (auto simp: audit_empty_def insert_message_def message_row_of_def Let_def)

lemma audit_feedback: "audit_empty st \<Longrightarrow> audit_empty (insert_feedback cd (persist_observed env row st) fe)"
  by (simp add: audit_empty_def insert_feedback_def persist_observed_def save_quantum_state_def split: option.split)

text \<open>Which steps write to the store at all.\<close>

lemma stores:
  "ap_store (fst (unregister_agent henv app i)) = ap_store app"
  "ap_store (fst (vfs_write app path body)) = ap_store app"
  "ap_store (fst (vfs_delete henv app path)) = ap_store app"
  "ap_store (fst (grpc_send henv app msg)) = ap_store app"
  "ap_store (fst (ai_completions henv app req)) = ap_store app"
  "ap_store (fst (conversation_quantum henv app i)) = ap_store app"
  by (simp_all add: unregister_agent_def vfs_write_def vfs_delete_def grpc_send_def deliver_selected_def
      ai_completions_def conversation_quantum_def Let_def split_beta split: option.split sum.split)

lemma posted_store:
  "ap_store (fst (send_message henv app msg)) = fst (insert_message (he_codec henv) (ap_store app) msg)"
  "ap_store (fst (msg_handler henv app msg)) = fst (insert_message (he_codec henv) (ap_store app) msg)"
  by (simp_all add: send_message_def msg_handler_def route_in_app_def with_routing_def deliver_selected_def
      persist_message_def Let_def split_beta split: option.split)

lemma audit_step:
  assumes "app_step app app'" and "audit_empty (ap_store app)"
  shows "audit_empty (ap_store app')"
  using assms(1)
proof cases
  case (feedback henv fe)
  then show ?thesis using assms(2)
    by (simp add: quantum_feedback_handler_def audit_feedback split_beta Let_def split: option.split)
qed (use assms(2) in \<open>simp_all add: stores posted_store audit_insert_message\<close>)

lemma audit_start: "daemon_start env cfg = Inr dm \<Longrightarrow> se_store env = Inr store_new \<Longrightarrow> audit_empty (ap_store (dm_app dm))"
  by (auto simp: daemon_start_def app_built Let_def audit_empty_def store_new_def split: sum.splits prod.splits)

section \<open>Properties\<close>



end
