(* ===== verification/Restart.thy ===== *)
theory Restart
  imports StoreLife
begin

text \<open>
  The hub over several runs of the daemon on one store (\<open>src/daemon.rs\<close>, \<open>src/store.rs\<close>): what a restart
  keeps and what it loses.
\<close>

section \<open>Runs on one store\<close>

inductive life :: "'re app \<Rightarrow> bool" where
  first: "daemon_start env cfg = Inr dm \<Longrightarrow> se_store env = Inr store_new \<Longrightarrow> life (dm_app dm)"
| running: "life app \<Longrightarrow> app_step app app' \<Longrightarrow> life app'"
| restart: "life app \<Longrightarrow> daemon_start env cfg = Inr dm \<Longrightarrow> se_store env = Inr (ap_store app) \<Longrightarrow> life (dm_app dm)"

definition store_ok :: "store \<Rightarrow> bool" where
  "store_ok st \<longleftrightarrow> distinct (map mw_id (so_messages st)) \<and> distinct (map key_of (so_quantum st)) \<and> audit_empty st"

lemma started_parts:
  assumes "daemon_start env cfg = Inr dm" and "se_store env = Inr st"
  shows "ap_store (dm_app dm) = st" "tp_agents (ap_hub (dm_app dm)) = Map.empty"
    "tp_queue (ap_hub (dm_app dm)) = Map.empty" "tp_vfs (ap_hub (dm_app dm)) = vfs_new"
    "tp_quantum (ap_hub (dm_app dm)) =
       (if qc_enabled (cf_quantum cfg) then Some (quantum_router_new (cf_quantum cfg)) else None)"
    "endpoints_keyed (ap_endpoints (dm_app dm))"
proof -
  have "endpoints_keyed Map.empty" by (simp add: endpoints_keyed_def)
  then show "ap_store (dm_app dm) = st" "tp_agents (ap_hub (dm_app dm)) = Map.empty"
    "tp_queue (ap_hub (dm_app dm)) = Map.empty" "tp_vfs (ap_hub (dm_app dm)) = vfs_new"
    "tp_quantum (ap_hub (dm_app dm)) =
       (if qc_enabled (cf_quantum cfg) then Some (quantum_router_new (cf_quantum cfg)) else None)"
    "endpoints_keyed (ap_endpoints (dm_app dm))"
    using assms
    by (auto simp: daemon_start_def app_built Let_def agents_new_def queue_new_def keyed_register
        split: sum.splits prod.splits)
qed

lemma started_ok:
  assumes "daemon_start env cfg = Inr dm" and "se_store env = Inr st" and "store_ok st"
  shows "app_ok (dm_app dm) \<and> store_ok (ap_store (dm_app dm))"
  using assms(3) vfs_new_wf started_parts [OF assms(1,2)]
  by (simp add: app_ok_def store_ok_def registry_keyed_def)

lemma life_ok: "life app \<Longrightarrow> app_ok app \<and> store_ok (ap_store app)"
proof (induction rule: life.induct)
  case (first env cfg dm)
  then show ?case by (rule started_ok) (simp add: store_ok_def store_new_def audit_empty_def)
next
  case (running app app')
  then have "app_ok app'" and "audit_empty (ap_store app')"
    using app_step_ok audit_step by (auto simp: store_ok_def)
  then show ?case by (simp add: store_ok_def app_ok_def)
next
  case (restart app env cfg dm)
  then show ?case using started_ok by blast
qed

section \<open>Feedback after a restart\<close>

lemma fresh_feedback:
  assumes "tp_quantum (ap_hub app) = Some (quantum_router_new qcfg)"
    and "he_states env (fe_message_id fe) = [fe_endpoint_id fe]"
    and "distinct (map key_of (so_quantum (ap_store app)))"
  shows "stored_counts (ap_store (fst (quantum_feedback_handler env app fe))) cid ep =
    (if cid = fe_message_id fe \<and> ep = fe_endpoint_id fe
     then Some (1, if fe_success fe then 1 - min (real (unat (fe_latency_ms fe)) / 5000) 1 * (3 / 10) else 0)
     else stored_counts (ap_store app) cid ep)"
proof -
  let ?q = "quantum_router_new qcfg"
  obtain q' saved where o: "quantum_observe [fe_endpoint_id fe] ?q (oe_now (he_op env)) (fe_message_id fe)
      (fe_endpoint_id fe) (fe_success fe) (fe_latency_ms fe) = (q', saved)" by force
  have "endpoint_order [fe_endpoint_id fe] ?q (fe_message_id fe) (fe_endpoint_id fe)"
    by (simp add: endpoint_order_def quantum_router_new_def quantum_states_new_def)
  from observe_effect [OF this refl o] obtain s'
    where s: "saved = Some (fe_message_id fe, fe_endpoint_id fe, s')" "es_pulls s' = 1"
      "es_total_reward s' = (if fe_success fe then 1 - min (real (unat (fe_latency_ms fe)) / 5000) 1 * (3 / 10) else 0)"
    by (auto simp: quantum_router_new_def quantum_states_new_def)
  let ?st = "save_quantum_state (he_codec env) (oe_now (he_op env)) (ap_store app) (fe_message_id fe)
      (fe_endpoint_id fe) s'"
  have "ap_store (fst (quantum_feedback_handler env app fe)) = insert_feedback (he_codec env) ?st fe"
    by (simp add: quantum_feedback_handler_def assms(1,2) o s(1) persist_observed_def)
  moreover have "stored_counts (insert_feedback (he_codec env) ?st fe) = stored_counts ?st"
    by (rule stored_counts_cong) simp
  ultimately show ?thesis by (simp add: stored_counts_save(1) [OF assms(3)] s)
qed

section \<open>Properties\<close>

text \<open>
  C12. A restart keeps the store and nothing else, and what was learned does not survive its first use:
  however often the daemon was restarted on a store before, after a start on it nobody is registered,
  no message waits and the quantum router knows no conversation, although the store still has every
  count; and the first feedback for an endpoint then replaces the stored counts by those of a first
  observation, whatever they were, while all other stored counts stay.
\<close>

theorem restart_keeps_store_only:
  assumes "life app" and "daemon_start env cfg = Inr dm" and "se_store env = Inr (ap_store app)"
    and "qc_enabled (cf_quantum cfg)" and "he_states henv (fe_message_id fe) = [fe_endpoint_id fe]"
  shows "ap_store (dm_app dm) = ap_store app \<and>
    tp_agents (ap_hub (dm_app dm)) = Map.empty \<and> tp_queue (ap_hub (dm_app dm)) = Map.empty \<and>
    (\<exists>q. tp_quantum (ap_hub (dm_app dm)) = Some q \<and> (\<forall>cid ep. memory_counts q cid ep = None)) \<and>
    (\<forall>cid ep. stored_counts (ap_store (fst (quantum_feedback_handler henv (dm_app dm) fe))) cid ep =
      (if cid = fe_message_id fe \<and> ep = fe_endpoint_id fe
       then Some (1, if fe_success fe then 1 - min (real (unat (fe_latency_ms fe)) / 5000) 1 * (3 / 10) else 0)
       else stored_counts (ap_store app) cid ep))"
proof -
  note parts = started_parts [OF assms(2,3)]
  have q: "tp_quantum (ap_hub (dm_app dm)) = Some (quantum_router_new (cf_quantum cfg))"
    using parts(5) assms(4) by simp
  have "memory_counts (quantum_router_new (cf_quantum cfg)) cid ep = None" for cid ep
    by (simp add: memory_counts_def quantum_router_new_def quantum_states_new_def)
  moreover have "distinct (map key_of (so_quantum (ap_store (dm_app dm))))"
    using life_ok [OF assms(1)] parts(1) by (simp add: store_ok_def)
  ultimately show ?thesis
    using fresh_feedback [where env = henv and fe = fe, OF q assms(5)] q parts by auto
qed

definition learning_config :: config where
  "learning_config = bare_config\<lparr>cf_quantum := quantum_config_default\<lparr>qc_enabled := True\<rparr>\<rparr>"

lemma learning_start: "env = sample_start\<lparr>se_store := Inr st\<rparr> \<Longrightarrow>
    \<exists>dm. daemon_start env learning_config = Inr dm"
proof -
  assume e: "env = sample_start\<lparr>se_store := Inr st\<rparr>"
  have "is_ok (daemon_start env learning_config)"
    by (simp add: e Let_def daemon_start_def open_server_def sample_start_def learning_config_def bare_config_def
        to_tls_config_def tls_config_default_def)
  then show ?thesis by (cases "daemon_start env learning_config") auto
qed

theorem restart_keeps_store_only_witness:
  "\<exists>dm dm'. daemon_start sample_start learning_config = Inr dm \<and>
     daemon_start (sample_start\<lparr>se_store := Inr (ap_store (dm_app dm))\<rparr>) learning_config = Inr dm' \<and>
     stored_counts (ap_store (fst (quantum_feedback_handler sample_http_env (dm_app dm') sample_feedback))) 1 ''e'' =
       Some (1, 9997 / 10000)"
proof -
  have new: "se_store sample_start = Inr store_new" and same: "sample_start = sample_start\<lparr>se_store := Inr store_new\<rparr>"
    by (simp_all add: sample_start_def)
  obtain dm where dm: "daemon_start sample_start learning_config = Inr dm" using learning_start [OF same] by blast
  let ?env = "sample_start\<lparr>se_store := Inr (ap_store (dm_app dm))\<rparr>"
  have st: "se_store ?env = Inr (ap_store (dm_app dm))" by simp
  obtain dm' where dm': "daemon_start ?env learning_config = Inr dm'" using learning_start [OF refl] by blast
  have en: "qc_enabled (cf_quantum learning_config)" by (simp add: learning_config_def)
  have ks: "he_states sample_http_env (fe_message_id sample_feedback) = [fe_endpoint_id sample_feedback]"
    by (simp add: sample_http_env_def sample_feedback_def)
  from restart_keeps_store_only [OF life.first [OF dm new] dm' st en ks]
  have "stored_counts (ap_store (fst (quantum_feedback_handler sample_http_env (dm_app dm') sample_feedback))) 1 ''e'' =
      Some (1, 9997 / 10000)" by (simp add: sample_feedback_def)
  with dm dm' show ?thesis by blast
qed

end
