(* ===== verification/Telemetry.thy ===== *)
theory Telemetry
  imports Prelude "HOL-Library.Word"
begin

text \<open>
  Trace contexts in message headers, \<open>src/telemetry.rs\<close>, and when tracing is exported. The exporter and the
  hexadecimal forms of the identifiers belong to the telemetry library; they are parameters, with the law
  that a printed identifier reads back.
\<close>

record span_context =
  sp_trace_id :: "128 word"
  sp_span_id :: "64 word"
  sp_sampled :: bool
  sp_is_remote :: bool

record hex_lib =
  show_trace_id :: "128 word \<Rightarrow> string"
  show_span_id :: "64 word \<Rightarrow> string"
  trace_id_from_hex :: "string \<Rightarrow> (128 word) option"
  span_id_from_hex :: "string \<Rightarrow> (64 word) option"

text \<open>A context is valid when both identifiers are; zero is the invalid one.\<close>

definition span_valid :: "span_context \<Rightarrow> bool" where
  "span_valid sp \<longleftrightarrow> sp_trace_id sp \<noteq> 0 \<and> sp_span_id sp \<noteq> 0"

text \<open>\<open>Some ()\<close> when an endpoint is configured and the pipeline could be installed.\<close>

definition init_telemetry :: "(string \<Rightarrow> string option) \<Rightarrow> (string \<Rightarrow> unit result) \<Rightarrow> unit option" where
  "init_telemetry env install =
     (case env ''OTEL_EXPORTER_OTLP_ENDPOINT'' of
        None \<Rightarrow> None
      | Some otlp_endpoint \<Rightarrow> (case install otlp_endpoint of Inr _ \<Rightarrow> Some () | Inl err \<Rightarrow> None))"

definition trace_context_from_headers :: "hex_lib \<Rightarrow> (string \<rightharpoonup> string) \<Rightarrow> span_context option" where
  "trace_context_from_headers lib headers =
     (case headers ''x-trace-id'' of
        None \<Rightarrow> None
      | Some trace_id \<Rightarrow>
          (case headers ''x-span-id'' of
             None \<Rightarrow> None
           | Some span_id \<Rightarrow>
               (case trace_id_from_hex lib trace_id of
                  None \<Rightarrow> None
                | Some t \<Rightarrow>
                    (case span_id_from_hex lib span_id of
                       None \<Rightarrow> None
                     | Some s \<Rightarrow>
                         Some \<lparr>sp_trace_id = t, sp_span_id = s, sp_sampled = True, sp_is_remote = False\<rparr>))))"

definition inject_trace_context :: "hex_lib \<Rightarrow> span_context \<Rightarrow> (string \<rightharpoonup> string) \<Rightarrow> (string \<rightharpoonup> string)" where
  "inject_trace_context lib sp headers =
     (if span_valid sp
      then headers(''x-trace-id'' \<mapsto> show_trace_id lib (sp_trace_id sp), ''x-span-id'' \<mapsto> show_span_id lib (sp_span_id sp))
      else headers)"

definition hex_reads_back :: "hex_lib \<Rightarrow> bool" where
  "hex_reads_back lib \<longleftrightarrow>
     (\<forall>t. trace_id_from_hex lib (show_trace_id lib t) = Some t) \<and>
     (\<forall>s. span_id_from_hex lib (show_span_id lib s) = Some s)"

text \<open>
  An injected context is extracted with its identifiers, but always as sampled and local; an invalid one
  leaves the headers, and with them an older context, as they were.
\<close>

theorem trace_context_roundtrip:
  assumes "hex_reads_back lib"
  shows "trace_context_from_headers lib (inject_trace_context lib sp headers) =
    (if span_valid sp then Some (sp\<lparr>sp_sampled := True, sp_is_remote := False\<rparr>)
     else trace_context_from_headers lib headers)"
  using assms by (cases sp) (simp add: hex_reads_back_def trace_context_from_headers_def inject_trace_context_def)

end
