(* ===== verification/Namespace.thy ===== *)
theory Namespace
  imports Vfs
begin

text \<open>
  The namespace manager of \<open>src/namespace.rs\<close>: which agent is bound to which directory, and the nodes
  that are made for an agent's manifest. \<open>caps_bytes\<close> is \<open>serde_json::to_vec\<close> of the capabilities,
  \<open>lk\<close> says whether a parent directory's lock is free, \<open>ks\<close> is an iteration order of the node map.
\<close>

record namespaces =
  ns_vfs :: vfs
  ns_bindings :: "(string, string) dashmap"

definition namespaces_new :: "vfs \<Rightarrow> namespaces" where
  "namespaces_new v = \<lparr>ns_vfs = v, ns_bindings = Map.empty\<rparr>"

definition trim_start_slashes :: "string \<Rightarrow> string" where
  "trim_start_slashes s = dropWhile (\<lambda>c. c = CHR ''/'') s"

fun bind_paths :: "bool \<Rightarrow> string \<Rightarrow> string list \<Rightarrow> vfs \<Rightarrow> vfs" where
  "bind_paths lk cap_dir [] v = v"
| "bind_paths lk cap_dir (path # paths) v =
     bind_paths lk cap_dir paths
       (add_node lk (cap_dir @ ''/'' @ trim_start_slashes path) (new_file path [] v))"

definition bind_capability :: "bool \<Rightarrow> string \<Rightarrow> capability \<Rightarrow> vfs \<Rightarrow> vfs" where
  "bind_capability lk ns cap v =
     (let cap_dir = ns @ ''/cap/'' @ cap_name cap;
          v1 = mkdir lk cap_dir v;
          v2 = add_node lk (cap_dir @ ''/version'') (new_file ''version'' (as_bytes (cap_version cap)) v1)
      in bind_paths lk cap_dir (cap_paths cap) v2)"

definition create_namespace ::
    "bool \<Rightarrow> (capability list \<Rightarrow> u8 list option) \<Rightarrow> capability_manifest \<Rightarrow> namespaces \<Rightarrow> namespaces \<times> string" where
  "create_namespace lk caps_bytes manifest n =
     (let ns = ''/net/'' @ man_agent_id manifest;
          v1 = mkdir lk (ns @ ''/ctl'') (mkdir lk ns (ns_vfs n));
          v2 = add_node lk (ns @ ''/hostname'') (new_file ''hostname'' (as_bytes (man_hostname manifest)) v1);
          v3 = add_node lk (ns @ ''/ctl/status'') (new_ctl ''status'' ''connected'' v2);
          v4 = add_node lk (ns @ ''/ctl/capabilities'')
                 (new_file ''capabilities'' (case caps_bytes (man_capabilities manifest) of Some b \<Rightarrow> b | None \<Rightarrow> []) v3);
          v5 = mkdir lk (ns @ ''/msg'') v4;
          v6 = add_node lk (ns @ ''/msg/inbox'') (new_file ''inbox'' [] v5);
          v7 = add_node lk (ns @ ''/msg/outbox'') (new_file ''outbox'' [] v6);
          v8 = foldl (\<lambda>v cap. bind_capability lk ns cap v) v7 (man_capabilities manifest)
      in (\<lparr>ns_vfs = v8, ns_bindings = (ns_bindings n)(man_agent_id manifest \<mapsto> ns)\<rparr>, ns))"

definition remove_namespace :: "(string \<Rightarrow> bool) \<Rightarrow> string list \<Rightarrow> string \<Rightarrow> namespaces \<Rightarrow> namespaces" where
  "remove_namespace lk ks agent_id n =
     \<lparr>ns_vfs = unmount_agent_ns lk ks agent_id (ns_vfs n), ns_bindings = (ns_bindings n)(agent_id := None)\<rparr>"

definition resolve_namespace :: "namespaces \<Rightarrow> string \<Rightarrow> string option" where
  "resolve_namespace n agent_id = ns_bindings n agent_id"

definition list_namespaces :: "string list \<Rightarrow> namespaces \<Rightarrow> (string \<times> string) list" where
  "list_namespaces ks n = collect ks (\<lambda>k v. (k, v)) (ns_bindings n)"

section \<open>The paths of a namespace\<close>

definition capability_paths :: "string \<Rightarrow> capability \<Rightarrow> string list" where
  "capability_paths ns cap =
     (let cap_dir = ns @ ''/cap/'' @ cap_name cap
      in cap_dir # (cap_dir @ ''/version'') # map (\<lambda>p. cap_dir @ ''/'' @ trim_start_slashes p) (cap_paths cap))"

definition namespace_paths :: "capability_manifest \<Rightarrow> string list" where
  "namespace_paths manifest =
     (let ns = ''/net/'' @ man_agent_id manifest
      in [ns, ns @ ''/ctl'', ns @ ''/hostname'', ns @ ''/ctl/status'', ns @ ''/ctl/capabilities'', ns @ ''/msg'',
          ns @ ''/msg/inbox'', ns @ ''/msg/outbox''] @ concat (map (capability_paths ns) (man_capabilities manifest)))"

lemma dom_bind_paths:
  "dom (vf_nodes (bind_paths lk cap_dir paths v)) =
     (\<lambda>p. normalize (cap_dir @ ''/'' @ trim_start_slashes p)) ` set paths \<union> dom (vf_nodes v)"
  by (induction paths arbitrary: v) simp_all

lemma dom_bind_capability:
  "dom (vf_nodes (bind_capability lk ns cap v)) =
     normalize ` set (capability_paths ns cap) \<union> dom (vf_nodes v)"
  by (auto simp: bind_capability_def Let_def dom_bind_paths capability_paths_def image_image)

lemma dom_bind_capabilities:
  "dom (vf_nodes (foldl (\<lambda>v cap. bind_capability lk ns cap v) v caps)) =
     normalize ` set (concat (map (capability_paths ns) caps)) \<union> dom (vf_nodes v)"
proof (induction caps arbitrary: v)
  case (Cons cap caps)
  have "dom (vf_nodes (foldl (\<lambda>v cap. bind_capability lk ns cap v) v (cap # caps))) =
      normalize ` set (concat (map (capability_paths ns) caps)) \<union> dom (vf_nodes (bind_capability lk ns cap v))"
    unfolding foldl_Cons by (rule Cons.IH)
  also have "\<dots> = normalize ` set (concat (map (capability_paths ns) (cap # caps))) \<union> dom (vf_nodes v)"
    unfolding dom_bind_capability by (simp only: list.map concat.simps set_append image_Un) blast
  finally show ?case .
qed simp

lemma dom_create_namespace:
  "dom (vf_nodes (ns_vfs (fst (create_namespace lk cb manifest n)))) =
     normalize ` set (namespace_paths manifest) \<union> dom (vf_nodes (ns_vfs n))"
  unfolding create_namespace_def Let_def fst_conv namespaces.simps dom_bind_capabilities
    namespace_paths_def set_append image_Un dom_mkdir dom_add_node new_node_nodes
  by (simp only: list.set image_insert image_empty) blast

section \<open>Properties\<close>

text \<open>
  C40. Creating a namespace makes nodes at exactly the paths of the manifest and binds the agent; removing
  it unbinds the agent and removes exactly what lies at or below \<open>/net/<agent>\<close>. So a node made for a
  capability survives its namespace exactly when its path, normalised, leads elsewhere.
\<close>

theorem namespace_lifecycle:
  assumes "iterates ks (vf_nodes (ns_vfs (fst (create_namespace lk cb manifest n))))"
    and "i = man_agent_id manifest"
  shows "resolve_namespace (fst (create_namespace lk cb manifest n)) i = Some (''/net/'' @ i) \<and>
    resolve_namespace (remove_namespace lks ks i (fst (create_namespace lk cb manifest n))) i = None \<and>
    dom (vf_nodes (ns_vfs (remove_namespace lks ks i (fst (create_namespace lk cb manifest n))))) =
      {k \<in> normalize ` set (namespace_paths manifest) \<union> dom (vf_nodes (ns_vfs n)).
         k \<noteq> ''/net/'' @ i \<and> \<not> starts_with k (''/net/'' @ i @ ''/'')}"
proof -
  let ?v = "ns_vfs (fst (create_namespace lk cb manifest n))"
  have "dom (vf_nodes (unmount_agent_ns lks ks i ?v)) =
      {k \<in> dom (vf_nodes ?v). k \<noteq> ''/net/'' @ i \<and> \<not> starts_with k (''/net/'' @ i @ ''/'')}"
    unfolding unmount_nodes [OF assms(1)] by auto
  then show ?thesis unfolding dom_create_namespace
    by (simp add: remove_namespace_def resolve_namespace_def)
      (simp add: create_namespace_def Let_def assms(2))
qed

definition escaping_manifest :: capability_manifest where
  "escaping_manifest =
     \<lparr>man_agent_id = ''a'', man_hostname = ''box'',
      man_capabilities = [\<lparr>cap_name = ''c'', cap_version = ''1'', cap_paths = [''../../../../ctl/x''],
        cap_metadata = Map.empty\<rparr>],
      man_preferred_namespace = None\<rparr>"

lemma escaping_path: "normalize ''/net/a/cap/c/../../../../ctl/x'' = ''/ctl/x''"
proof -
  let ?p = "''/net/a/cap/c/../../../../ctl/x''"
  have "trim ?p = ?p"
    unfolding trim_def strip_all_slash by (rule trim_end_visible) simp_all
  moreover have "split_slash ?p =
      ['''', ''net'', ''a'', ''cap'', ''c'', ''..'', ''..'', ''..'', ''..'', ''ctl'', ''x'']"
    by simp
  ultimately have "parts_of ?p = [''ctl'', ''x'']"
    by (simp add: parts_of_def push_part.simps)
  then show ?thesis by (simp add: normalize_path_of path_of_def)
qed

theorem namespace_lifecycle_witness:
  "\<exists>ks. ''/ctl/x'' \<in> dom (vf_nodes (ns_vfs (remove_namespace (\<lambda>_. True) ks ''a''
     (fst (create_namespace True (\<lambda>_. None) escaping_manifest (namespaces_new vfs_new))))))"
proof -
  let ?n = "fst (create_namespace True (\<lambda>_. None) escaping_manifest (namespaces_new vfs_new))"
  have "finite (dom (vf_nodes (ns_vfs ?n)))"
    unfolding dom_create_namespace by (simp add: namespaces_new_def dom_vfs_new)
  then obtain ks where ks: "iterates ks (vf_nodes (ns_vfs ?n))"
    using iterates_exists by blast
  have i: "''a'' = man_agent_id escaping_manifest" by (simp add: escaping_manifest_def)
  have "''/net/a/cap/c/../../../../ctl/x'' \<in> set (namespace_paths escaping_manifest)"
    by (simp add: namespace_paths_def escaping_manifest_def capability_paths_def trim_start_slashes_def)
  then have "''/ctl/x'' \<in> normalize ` set (namespace_paths escaping_manifest)"
    using escaping_path by (metis imageI)
  moreover have "\<not> starts_with ''/ctl/x'' (''/net/'' @ ''a'' @ ''/'')" by (simp add: starts_with_def)
  ultimately have "''/ctl/x'' \<in> dom (vf_nodes (ns_vfs (remove_namespace (\<lambda>_. True) ks ''a'' ?n)))"
    unfolding conjunct2 [OF conjunct2 [OF namespace_lifecycle [OF ks i, of "\<lambda>_. True"]]] by simp
  then show ?thesis by blast
qed

end
