(* ===== verification/Codec.thy ===== *)
theory Codec
  imports Message
begin

text \<open>
  Reading and writing data as JSON, as the derived \<open>Serialize\<close> and \<open>Deserialize\<close> of the types in
  \<open>src/message.rs\<close> and \<open>src/net/protocol.rs\<close> do: the codecs of basic types, and of options, vectors,
  maps and structures over others. A JSON text is a tree whose objects keep their members in the
  order of the text; a decoder that rejects a tree gives \<open>None\<close>. The interface of an encoder with its
  decoder is the locale \<open>json_codec\<close>.
\<close>

section \<open>Basic types\<close>

definition d_string :: "json \<Rightarrow> string option" where
  "d_string j = (case j of JString s \<Rightarrow> Some s | _ \<Rightarrow> None)"

definition d_bool :: "json \<Rightarrow> bool option" where
  "d_bool j = (case j of JBool b \<Rightarrow> Some b | _ \<Rightarrow> None)"

text \<open>An unsigned integer: a whole number in its range. A floating-point field takes any number.\<close>

definition d_word :: "json \<Rightarrow> 'w :: len word option" where
  "d_word j = (case j of
     JNumber (NInt i) \<Rightarrow> if 0 \<le> i \<and> i < 2 ^ LENGTH('w) then Some (word_of_int i) else None
   | _ \<Rightarrow> None)"

definition e_word :: "'w :: len word \<Rightarrow> json" where
  "e_word w = JNumber (NInt (uint w))"

definition d_float :: "json \<Rightarrow> real option" where
  "d_float j = (case j of JNumber (NInt i) \<Rightarrow> Some (of_int i) | JNumber (NFloat r) \<Rightarrow> Some r | _ \<Rightarrow> None)"

definition e_float :: "real \<Rightarrow> json" where
  "e_float r = JNumber (NFloat r)"

text \<open>\<open>serde_json::Value\<close>: an object is a \<open>BTreeMap\<close>; of several members with one name the last counts.\<close>

fun last_members :: "(string \<times> json) list \<Rightarrow> (string \<times> json) list" where
  "last_members [] = []"
| "last_members (kv # kvs) =
     (if fst kv \<in> fst ` set kvs then last_members kvs else kv # last_members kvs)"

fun value_of :: "json \<Rightarrow> json" where
  "value_of (JArray js) = JArray (map value_of js)"
| "value_of (JObject kvs) =
     JObject (sort_key fst (last_members (map (\<lambda>kv. (fst kv, value_of (snd kv))) kvs)))"
| "value_of j = j"

definition d_value :: "json \<Rightarrow> json option" where
  "d_value j = Some (value_of j)"

definition tidy :: "json \<Rightarrow> bool" where
  "tidy j \<longleftrightarrow> value_of j = j"

section \<open>Options, vectors and maps\<close>

definition d_opt :: "(json \<Rightarrow> 'a option) \<Rightarrow> json \<Rightarrow> 'a option option" where
  "d_opt d j = (if j = JNull then Some None else map_option Some (d j))"

definition e_opt :: "('a \<Rightarrow> json) \<Rightarrow> 'a option \<Rightarrow> json" where
  "e_opt e x = (case x of None \<Rightarrow> JNull | Some y \<Rightarrow> e y)"

fun decode_list :: "(json \<Rightarrow> 'a option) \<Rightarrow> json list \<Rightarrow> 'a list option" where
  "decode_list d [] = Some []"
| "decode_list d (j # js) =
     (case d j of
        None \<Rightarrow> None
      | Some x \<Rightarrow> (case decode_list d js of None \<Rightarrow> None | Some xs \<Rightarrow> Some (x # xs)))"

definition d_list :: "(json \<Rightarrow> 'a option) \<Rightarrow> json \<Rightarrow> 'a list option" where
  "d_list d j = (case j of JArray js \<Rightarrow> decode_list d js | _ \<Rightarrow> None)"

text \<open>The members of an object go into the hash map one after the other.\<close>

fun decode_members :: "(json \<Rightarrow> 'a option) \<Rightarrow> (string \<times> json) list \<Rightarrow> (string \<rightharpoonup> 'a) \<Rightarrow> (string \<rightharpoonup> 'a) option" where
  "decode_members d [] m = Some m"
| "decode_members d (kv # kvs) m =
     (case d (snd kv) of None \<Rightarrow> None | Some x \<Rightarrow> decode_members d kvs (m(fst kv \<mapsto> x)))"

definition d_map :: "(json \<Rightarrow> 'a option) \<Rightarrow> json \<Rightarrow> (string \<rightharpoonup> 'a) option" where
  "d_map d j = (case j of JObject kvs \<Rightarrow> decode_members d kvs Map.empty | _ \<Rightarrow> None)"

text \<open>\<open>ks\<close> is the order in which the hash map is visited.\<close>

definition e_map :: "string list \<Rightarrow> ('a \<Rightarrow> json) \<Rightarrow> (string \<rightharpoonup> 'a) \<Rightarrow> json" where
  "e_map ks e m = JObject (collect ks (\<lambda>k x. (k, e x)) m)"

section \<open>Structures\<close>

text \<open>
  A structure is read from an object by the names of its fields, unknown members being skipped and
  repeated ones an error, or from an array by their positions. An absent field is an error, unless the
  field has a default, or it is an option and the fields are named.
\<close>

datatype fields = Named "(string \<times> json) list" | Placed "string list" "json list"

definition once :: "string list \<Rightarrow> (string \<times> json) list \<Rightarrow> bool" where
  "once names kvs \<longleftrightarrow> list_all (\<lambda>n. length (filter (\<lambda>kv. fst kv = n) kvs) \<le> 1) names"

definition named_fields :: "string list \<Rightarrow> (string \<times> json) list \<Rightarrow> fields option" where
  "named_fields names kvs = (if once names kvs then Some (Named kvs) else None)"

definition struct_fields :: "string list \<Rightarrow> json \<Rightarrow> fields option" where
  "struct_fields names j = (case j of
     JObject kvs \<Rightarrow> named_fields names kvs
   | JArray js \<Rightarrow> if length js \<le> length names then Some (Placed names js) else None
   | _ \<Rightarrow> None)"

fun field_at :: "fields \<Rightarrow> string \<Rightarrow> json option" where
  "field_at (Named kvs) n = map_of kvs n"
| "field_at (Placed names js) n = map_of (zip names js) n"

definition need :: "fields \<Rightarrow> string \<Rightarrow> (json \<Rightarrow> 'a option) \<Rightarrow> 'a option" where
  "need fs n d = Option.bind (field_at fs n) d"

definition need_opt :: "fields \<Rightarrow> string \<Rightarrow> (json \<Rightarrow> 'a option) \<Rightarrow> 'a option option" where
  "need_opt fs n d =
     (case field_at fs n of
        Some j \<Rightarrow> d_opt d j
      | None \<Rightarrow> (case fs of Named kvs \<Rightarrow> Some None | Placed names js \<Rightarrow> None))"

definition need_or :: "'a \<Rightarrow> fields \<Rightarrow> string \<Rightarrow> (json \<Rightarrow> 'a option) \<Rightarrow> 'a option" where
  "need_or x fs n d = (case field_at fs n of Some j \<Rightarrow> d j | None \<Rightarrow> Some x)"

section \<open>Codecs\<close>

locale json_codec =
  fixes enc :: "'a \<Rightarrow> json" and dec :: "json \<Rightarrow> 'a option" and ok :: "'a \<Rightarrow> bool"
  assumes dec_enc: "ok x \<Longrightarrow> dec (enc x) = Some x"
begin

lemma enc_inj: "ok x \<Longrightarrow> ok y \<Longrightarrow> enc x = enc y \<Longrightarrow> x = y"
  by (metis dec_enc option.inject)

lemma dec_opt:
  "(\<And>y. x = Some y \<Longrightarrow> ok y \<and> enc y \<noteq> JNull) \<Longrightarrow> d_opt dec (e_opt enc x) = Some x"
  by (cases x) (simp_all add: d_opt_def e_opt_def dec_enc)

lemma dec_list: "list_all ok xs \<Longrightarrow> d_list dec (JArray (map enc xs)) = Some xs"
proof -
  have "list_all ok xs \<Longrightarrow> decode_list dec (map enc xs) = Some xs" by (induction xs) (simp_all add: dec_enc)
  then show "list_all ok xs \<Longrightarrow> d_list dec (JArray (map enc xs)) = Some xs" by (simp add: d_list_def)
qed

lemma dec_members:
  "distinct ks \<Longrightarrow> (\<And>k x. k \<in> set ks \<Longrightarrow> m k = Some x \<Longrightarrow> ok x) \<Longrightarrow>
     decode_members dec (collect ks (\<lambda>k x. (k, enc x)) m) m0 =
       Some (m0 ++ (m |` set ks))"
proof (induction ks arbitrary: m0)
  case (Cons k ks)
  have rest: "decode_members dec (collect ks (\<lambda>k x. (k, enc x)) m) m1 = Some (m1 ++ (m |` set ks))" for m1
    by (rule Cons.IH) (use Cons.prems in auto)
  show ?case
  proof (cases "m k")
    case None
    then have "m |` set (k # ks) = m |` set ks" by (auto simp: restrict_map_def fun_eq_iff)
    with rest None show ?thesis by simp
  next
    case (Some x)
    then have "dec (enc x) = Some x" using Cons.prems(2) [of k x] dec_enc by simp
    moreover have "m0(k \<mapsto> x) ++ (m |` set ks) = m0 ++ (m |` set (k # ks))"
      using Some Cons.prems(1) by (auto simp: restrict_map_def map_add_def fun_eq_iff split: option.split)
    ultimately show ?thesis using rest Some by simp
  qed
qed simp

lemma dec_map:
  assumes "iterates ks m" and "\<And>k x. m k = Some x \<Longrightarrow> ok x"
  shows "d_map dec (e_map ks enc m) = Some m"
proof -
  have "decode_members dec (collect ks (\<lambda>k x. (k, enc x)) m) Map.empty = Some (Map.empty ++ (m |` set ks))"
    by (rule dec_members) (use assms in \<open>auto simp: iterates_def\<close>)
  moreover have "m |` set ks = m"
    using assms(1) by (auto simp: fun_eq_iff iterates_def restrict_map_def dom_def)
  ultimately show ?thesis by (simp add: d_map_def e_map_def)
qed

end

interpretation text_codec: json_codec JString d_string "\<lambda>_. True"
  by unfold_locales (simp add: d_string_def)

interpretation bool_codec: json_codec JBool d_bool "\<lambda>_. True"
  by unfold_locales (simp add: d_bool_def)

lemma d_word_e_word: "d_word (e_word w) = Some w"
  using uint_lt2p [of w] by (simp add: d_word_def e_word_def)

interpretation word_codec: json_codec e_word d_word "\<lambda>_. True"
  by unfold_locales (simp add: d_word_e_word)

interpretation float_codec: json_codec e_float d_float "\<lambda>_. True"
  by unfold_locales (simp add: d_float_def e_float_def)

interpretation value_codec: json_codec "\<lambda>j. j" d_value tidy
  by unfold_locales (simp add: d_value_def tidy_def)

lemma codecs_not_null [simp]: "JString s \<noteq> JNull" "e_word w \<noteq> JNull" "e_float r \<noteq> JNull"
  by (simp_all add: e_word_def e_float_def)

lemmas field_simps_json = need_def need_opt_def need_or_def

end
