(* ===== verification/Wire.thy ===== *)
theory Wire
  imports Codec
begin

text \<open>
  The frames of a connection as JSON: \<open>parse_frame\<close> and \<open>encode_frame\<close> of \<open>src/net/protocol.rs\<close> with the
  derived readers and writers of \<open>ProtocolOp\<close> and of the types of \<open>src/message.rs\<close> it contains. An
  operation is an object with its name in the member \<open>op\<close>; messages, responses and feedback events are
  flattened into it. Parameters (\<open>frame_lib\<close>) are the JSON text format, the texts of identifiers and
  times, the text of an error and the order in which a hash map is visited.
\<close>

section \<open>Parameters\<close>

record frame_lib =
  fl_read :: "string \<Rightarrow> json result"
  fl_show :: "json \<Rightarrow> string"
  fl_uuid :: "string \<Rightarrow> uuid option"
  fl_time :: "string \<Rightarrow> datetime option"
  fl_show_time :: "datetime \<Rightarrow> string"
  fl_reason :: "string \<Rightarrow> string"
  fl_order :: "string set \<Rightarrow> string list"

definition in_order :: "frame_lib \<Rightarrow> (string \<rightharpoonup> 'a) \<Rightarrow> bool" where
  "in_order lib m \<longleftrightarrow> iterates (fl_order lib (dom m)) m"

definition e_hash :: "frame_lib \<Rightarrow> ('a \<Rightarrow> json) \<Rightarrow> (string \<rightharpoonup> 'a) \<Rightarrow> json" where
  "e_hash lib e m = e_map (fl_order lib (dom m)) e m"

definition d_uuid :: "frame_lib \<Rightarrow> json \<Rightarrow> uuid option" where
  "d_uuid lib j = Option.bind (d_string j) (fl_uuid lib)"

definition e_uuid :: "uuid \<Rightarrow> json" where
  "e_uuid u = JString (show_uuid u)"

definition d_time :: "frame_lib \<Rightarrow> json \<Rightarrow> datetime option" where
  "d_time lib j = Option.bind (d_string j) (fl_time lib)"

definition e_time :: "frame_lib \<Rightarrow> datetime \<Rightarrow> json" where
  "e_time lib t = JString (fl_show_time lib t)"

section \<open>The types of a message\<close>

definition quantum_names :: "string list" where
  "quantum_names = [''amplitudes'', ''collapsed_to'', ''entangled'', ''entanglement_id'']"

definition d_quantum :: "frame_lib \<Rightarrow> json \<Rightarrow> quantum_metadata option" where
  "d_quantum lib j = Option.bind (struct_fields quantum_names j) (\<lambda>fs.
     Option.bind (need fs ''amplitudes'' (d_map d_float)) (\<lambda>amplitudes.
     Option.bind (need_opt fs ''collapsed_to'' d_string) (\<lambda>collapsed_to.
     Option.bind (need fs ''entangled'' d_bool) (\<lambda>entangled.
     Option.bind (need_opt fs ''entanglement_id'' (d_uuid lib)) (\<lambda>entanglement_id.
       Some \<lparr>qd_amplitudes = amplitudes, qd_collapsed_to = collapsed_to, qd_entangled = entangled,
             qd_entanglement_id = entanglement_id\<rparr>)))))"

definition e_quantum :: "frame_lib \<Rightarrow> quantum_metadata \<Rightarrow> json" where
  "e_quantum lib q = JObject
     [(''amplitudes'', e_hash lib e_float (qd_amplitudes q)),
      (''collapsed_to'', e_opt JString (qd_collapsed_to q)),
      (''entangled'', JBool (qd_entangled q)),
      (''entanglement_id'', e_opt e_uuid (qd_entanglement_id q))]"

definition message_names :: "string list" where
  "message_names = [''id'', ''parent_id'', ''conversation_id'', ''timestamp'', ''sender'', ''sender_ns'', ''path'',
     ''msg_type'', ''data'', ''headers'', ''quantum'']"

definition message_of_fields :: "frame_lib \<Rightarrow> fields \<Rightarrow> message option" where
  "message_of_fields lib fs =
     Option.bind (need fs ''id'' (d_uuid lib)) (\<lambda>i.
     Option.bind (need_opt fs ''parent_id'' (d_uuid lib)) (\<lambda>parent.
     Option.bind (need fs ''conversation_id'' (d_uuid lib)) (\<lambda>conversation.
     Option.bind (need fs ''timestamp'' (d_time lib)) (\<lambda>timestamp.
     Option.bind (need fs ''sender'' d_string) (\<lambda>sender.
     Option.bind (need fs ''sender_ns'' d_string) (\<lambda>sender_ns.
     Option.bind (need fs ''path'' d_string) (\<lambda>path.
     Option.bind (need fs ''msg_type'' d_string) (\<lambda>msg_type.
     Option.bind (need fs ''data'' d_value) (\<lambda>data.
     Option.bind (need_or Map.empty fs ''headers'' (d_map d_string)) (\<lambda>headers.
     Option.bind (need_or None fs ''quantum'' (d_opt (d_quantum lib))) (\<lambda>quantum.
       Some \<lparr>m_id = i, m_parent_id = parent, m_conversation_id = conversation, m_timestamp = timestamp,
             m_sender = sender, m_sender_ns = sender_ns, m_path = path, m_msg_type = msg_type, m_data = data,
             m_headers = headers, m_quantum = quantum\<rparr>)))))))))))"

definition decode_message_value :: "frame_lib \<Rightarrow> json \<Rightarrow> message option" where
  "decode_message_value lib j = Option.bind (struct_fields message_names j) (message_of_fields lib)"

definition message_members :: "frame_lib \<Rightarrow> message \<Rightarrow> (string \<times> json) list" where
  "message_members lib m =
     [(''id'', e_uuid (m_id m)), (''parent_id'', e_opt e_uuid (m_parent_id m)),
      (''conversation_id'', e_uuid (m_conversation_id m)), (''timestamp'', e_time lib (m_timestamp m)),
      (''sender'', JString (m_sender m)), (''sender_ns'', JString (m_sender_ns m)),
      (''path'', JString (m_path m)), (''msg_type'', JString (m_msg_type m)), (''data'', m_data m),
      (''headers'', e_hash lib JString (m_headers m)), (''quantum'', e_opt (e_quantum lib) (m_quantum m))]"

text \<open>\<open>DispatchStatus\<close>: a name, or an object with the name as its one member and nothing in it.\<close>

definition status_named :: "string \<Rightarrow> dispatch_status option" where
  "status_named s =
     (if s = ''routed'' then Some Routed else if s = ''queued'' then Some Queued
      else if s = ''dropped'' then Some Dropped else if s = ''error'' then Some DispatchError else None)"

definition d_status :: "json \<Rightarrow> dispatch_status option" where
  "d_status j = (case j of
     JString s \<Rightarrow> status_named s
   | JObject [kv] \<Rightarrow> if snd kv = JNull \<or> snd kv = JObject [] then status_named (fst kv) else None
   | _ \<Rightarrow> None)"

fun e_status :: "dispatch_status \<Rightarrow> json" where
  "e_status Routed = JString ''routed''"
| "e_status Queued = JString ''queued''"
| "e_status Dropped = JString ''dropped''"
| "e_status DispatchError = JString ''error''"

definition response_names :: "string list" where
  "response_names = [''message_id'', ''status'', ''routed_to'', ''explanation'', ''latency_ms'']"

definition response_of_fields :: "frame_lib \<Rightarrow> fields \<Rightarrow> message_response option" where
  "response_of_fields lib fs =
     Option.bind (need fs ''message_id'' (d_uuid lib)) (\<lambda>i.
     Option.bind (need fs ''status'' d_status) (\<lambda>status.
     Option.bind (need fs ''routed_to'' (d_list d_string)) (\<lambda>routed_to.
     Option.bind (need_opt fs ''explanation'' d_string) (\<lambda>explanation.
     Option.bind (need fs ''latency_ms'' d_word) (\<lambda>latency.
       Some \<lparr>mr_message_id = i, mr_status = status, mr_routed_to = routed_to, mr_explanation = explanation,
             mr_latency_ms = latency\<rparr>)))))"

definition response_members :: "message_response \<Rightarrow> (string \<times> json) list" where
  "response_members r =
     [(''message_id'', e_uuid (mr_message_id r)), (''status'', e_status (mr_status r)),
      (''routed_to'', JArray (map JString (mr_routed_to r))), (''explanation'', e_opt JString (mr_explanation r)),
      (''latency_ms'', e_word (mr_latency_ms r))]"

definition feedback_names :: "string list" where
  "feedback_names = [''message_id'', ''endpoint_id'', ''success'', ''latency_ms'', ''quality_score'', ''error_kind'',
     ''metadata'']"

definition feedback_of_fields :: "frame_lib \<Rightarrow> fields \<Rightarrow> feedback_event option" where
  "feedback_of_fields lib fs =
     Option.bind (need fs ''message_id'' (d_uuid lib)) (\<lambda>i.
     Option.bind (need fs ''endpoint_id'' d_string) (\<lambda>endpoint.
     Option.bind (need fs ''success'' d_bool) (\<lambda>success.
     Option.bind (need fs ''latency_ms'' d_word) (\<lambda>latency.
     Option.bind (need_opt fs ''quality_score'' d_float) (\<lambda>quality.
     Option.bind (need_opt fs ''error_kind'' d_string) (\<lambda>kind.
     Option.bind (need_opt fs ''metadata'' d_value) (\<lambda>metadata.
       Some \<lparr>fe_message_id = i, fe_endpoint_id = endpoint, fe_success = success, fe_latency_ms = latency,
             fe_quality_score = quality, fe_error_kind = kind, fe_metadata = metadata\<rparr>)))))))"

definition feedback_members :: "feedback_event \<Rightarrow> (string \<times> json) list" where
  "feedback_members e =
     [(''message_id'', e_uuid (fe_message_id e)), (''endpoint_id'', JString (fe_endpoint_id e)),
      (''success'', JBool (fe_success e)), (''latency_ms'', e_word (fe_latency_ms e)),
      (''quality_score'', e_opt e_float (fe_quality_score e)), (''error_kind'', e_opt JString (fe_error_kind e)),
      (''metadata'', e_opt (\<lambda>j. j) (fe_metadata e))]"

section \<open>Manifests\<close>

definition capability_names :: "string list" where
  "capability_names = [''name'', ''version'', ''paths'', ''metadata'']"

definition d_capability :: "json \<Rightarrow> capability option" where
  "d_capability j = Option.bind (struct_fields capability_names j) (\<lambda>fs.
     Option.bind (need fs ''name'' d_string) (\<lambda>name.
     Option.bind (need fs ''version'' d_string) (\<lambda>version.
     Option.bind (need fs ''paths'' (d_list d_string)) (\<lambda>paths.
     Option.bind (need_or Map.empty fs ''metadata'' (d_map d_value)) (\<lambda>metadata.
       Some \<lparr>cap_name = name, cap_version = version, cap_paths = paths, cap_metadata = metadata\<rparr>)))))"

definition e_capability :: "frame_lib \<Rightarrow> capability \<Rightarrow> json" where
  "e_capability lib c = JObject
     [(''name'', JString (cap_name c)), (''version'', JString (cap_version c)),
      (''paths'', JArray (map JString (cap_paths c))), (''metadata'', e_hash lib (\<lambda>j. j) (cap_metadata c))]"

definition manifest_names :: "string list" where
  "manifest_names = [''agent_id'', ''hostname'', ''capabilities'', ''preferred_namespace'']"

definition d_manifest :: "json \<Rightarrow> capability_manifest option" where
  "d_manifest j = Option.bind (struct_fields manifest_names j) (\<lambda>fs.
     Option.bind (need fs ''agent_id'' d_string) (\<lambda>agent.
     Option.bind (need fs ''hostname'' d_string) (\<lambda>hostname.
     Option.bind (need fs ''capabilities'' (d_list d_capability)) (\<lambda>capabilities.
     Option.bind (need_opt fs ''preferred_namespace'' d_string) (\<lambda>namespace.
       Some \<lparr>man_agent_id = agent, man_hostname = hostname, man_capabilities = capabilities,
             man_preferred_namespace = namespace\<rparr>)))))"

definition e_manifest :: "frame_lib \<Rightarrow> capability_manifest \<Rightarrow> json" where
  "e_manifest lib m = JObject
     [(''agent_id'', JString (man_agent_id m)), (''hostname'', JString (man_hostname m)),
      (''capabilities'', JArray (map (e_capability lib) (man_capabilities m))),
      (''preferred_namespace'', e_opt JString (man_preferred_namespace m))]"

section \<open>Operations\<close>

text \<open>The rest of the operation, without its name: members, or elements of an array.\<close>

datatype content = Members "(string \<times> json) list" | Elements "json list"

fun is_members :: "content \<Rightarrow> bool" where
  "is_members (Members kvs) = True"
| "is_members (Elements js) = False"

definition content_fields :: "string list \<Rightarrow> content \<Rightarrow> fields option" where
  "content_fields names c = struct_fields names (case c of Members kvs \<Rightarrow> JObject kvs | Elements js \<Rightarrow> JArray js)"

definition flat_fields :: "string list \<Rightarrow> content \<Rightarrow> fields option" where
  "flat_fields names c = (case c of Members kvs \<Rightarrow> named_fields names kvs | Elements js \<Rightarrow> None)"

definition decode_variant :: "frame_lib \<Rightarrow> string \<Rightarrow> content \<Rightarrow> protocol_op option" where
  "decode_variant lib tag c =
     (if tag = ''hello'' then
        Option.bind (content_fields [''manifest''] c) (\<lambda>fs. map_option Hello (need fs ''manifest'' d_manifest))
      else if tag = ''heartbeat'' then (if c = Elements [] \<or> is_members c then Some Heartbeat else None)
      else if tag = ''message'' then
        Option.bind (flat_fields message_names c) (\<lambda>fs. map_option OpMessage (message_of_fields lib fs))
      else if tag = ''response'' then
        Option.bind (flat_fields response_names c) (\<lambda>fs. map_option OpResponse (response_of_fields lib fs))
      else if tag = ''feedback'' then
        Option.bind (flat_fields feedback_names c) (\<lambda>fs. map_option OpFeedback (feedback_of_fields lib fs))
      else if tag = ''fs_read'' then
        Option.bind (content_fields [''path''] c) (\<lambda>fs. map_option FsRead (need fs ''path'' d_string))
      else if tag = ''fs_write'' then
        Option.bind (content_fields [''path'', ''data''] c) (\<lambda>fs.
          Option.bind (need fs ''path'' d_string) (\<lambda>path.
            map_option (FsWrite path) (need fs ''data'' (d_list d_word))))
      else if tag = ''fs_result'' then
        Option.bind (content_fields [''path'', ''data'', ''error''] c) (\<lambda>fs.
          Option.bind (need fs ''path'' d_string) (\<lambda>path.
          Option.bind (need_opt fs ''data'' (d_list d_word)) (\<lambda>data.
            map_option (FsResult path data) (need_opt fs ''error'' d_string))))
      else if tag = ''ack'' then
        Option.bind (content_fields [''message_id''] c) (\<lambda>fs. map_option Ack (need fs ''message_id'' (d_uuid lib)))
      else if tag = ''nak'' then
        Option.bind (content_fields [''message_id'', ''reason''] c) (\<lambda>fs.
          Option.bind (need fs ''message_id'' (d_uuid lib)) (\<lambda>i.
            map_option (Nak i) (need_opt fs ''reason'' d_string)))
      else if tag = ''error'' then
        Option.bind (content_fields [''code'', ''message''] c) (\<lambda>fs.
          Option.bind (need fs ''code'' d_string) (\<lambda>code.
            map_option (OpError code) (need fs ''message'' d_string)))
      else None)"

definition decode_op :: "frame_lib \<Rightarrow> json \<Rightarrow> protocol_op option" where
  "decode_op lib j = (case j of
     JObject kvs \<Rightarrow>
       (case map snd (filter (\<lambda>kv. fst kv = ''op'') kvs) of
          [JString tag] \<Rightarrow> decode_variant lib tag (Members (filter (\<lambda>kv. fst kv \<noteq> ''op'') kvs))
        | _ \<Rightarrow> None)
   | JArray (JString tag # js) \<Rightarrow> decode_variant lib tag (Elements js)
   | _ \<Rightarrow> None)"

fun op_members :: "frame_lib \<Rightarrow> protocol_op \<Rightarrow> string \<times> (string \<times> json) list" where
  "op_members lib (Hello man) = (''hello'', [(''manifest'', e_manifest lib man)])"
| "op_members lib Heartbeat = (''heartbeat'', [])"
| "op_members lib (OpMessage msg) = (''message'', message_members lib msg)"
| "op_members lib (OpResponse resp) = (''response'', response_members resp)"
| "op_members lib (OpFeedback event) = (''feedback'', feedback_members event)"
| "op_members lib (FsRead path) = (''fs_read'', [(''path'', JString path)])"
| "op_members lib (FsWrite path data) = (''fs_write'', [(''path'', JString path), (''data'', JArray (map e_word data))])"
| "op_members lib (FsResult path data err) =
     (''fs_result'', [(''path'', JString path), (''data'', e_opt (\<lambda>bs. JArray (map e_word bs)) data),
       (''error'', e_opt JString err)])"
| "op_members lib (Ack i) = (''ack'', [(''message_id'', e_uuid i)])"
| "op_members lib (Nak i reason) = (''nak'', [(''message_id'', e_uuid i), (''reason'', e_opt JString reason)])"
| "op_members lib (OpError code txt) = (''error'', [(''code'', JString code), (''message'', JString txt)])"

definition encode_op :: "frame_lib \<Rightarrow> protocol_op \<Rightarrow> json" where
  "encode_op lib op = (let (tag, kvs) = op_members lib op in JObject ((''op'', JString tag) # kvs))"

definition parse_frame :: "frame_lib \<Rightarrow> string \<Rightarrow> protocol_op result" where
  "parse_frame lib txt =
     (case fl_read lib txt of
        Inl e \<Rightarrow> Inl e
      | Inr j \<Rightarrow> (case decode_op lib j of None \<Rightarrow> Inl (fl_reason lib txt) | Some op \<Rightarrow> Inr op))"

definition encode_frame :: "frame_lib \<Rightarrow> protocol_op \<Rightarrow> string result" where
  "encode_frame lib op = Inr (fl_show lib (encode_op lib op))"


section \<open>What is written is read back\<close>

text \<open>
  What a written value needs to be read back: its times must have texts that read back, its free JSON
  values must be as \<open>serde_json\<close> holds them, and \<open>Some\<close> of a null, which is written like \<open>None\<close>, must not
  occur.
\<close>

definition uuid_ok :: "frame_lib \<Rightarrow> uuid \<Rightarrow> bool" where
  "uuid_ok lib u \<longleftrightarrow> fl_uuid lib (show_uuid u) = Some u"

definition quantum_ok :: "frame_lib \<Rightarrow> quantum_metadata \<Rightarrow> bool" where
  "quantum_ok lib q \<longleftrightarrow> in_order lib (qd_amplitudes q) \<and> pred_option (uuid_ok lib) (qd_entanglement_id q)"

definition message_ok :: "frame_lib \<Rightarrow> message \<Rightarrow> bool" where
  "message_ok lib m \<longleftrightarrow> uuid_ok lib (m_id m) \<and> pred_option (uuid_ok lib) (m_parent_id m) \<and>
     uuid_ok lib (m_conversation_id m) \<and> fl_time lib (fl_show_time lib (m_timestamp m)) = Some (m_timestamp m) \<and> tidy (m_data m) \<and>
     in_order lib (m_headers m) \<and> pred_option (quantum_ok lib) (m_quantum m)"

definition feedback_ok :: "frame_lib \<Rightarrow> feedback_event \<Rightarrow> bool" where
  "feedback_ok lib e \<longleftrightarrow> uuid_ok lib (fe_message_id e) \<and> pred_option (\<lambda>j. tidy j \<and> j \<noteq> JNull) (fe_metadata e)"

definition capability_ok :: "frame_lib \<Rightarrow> capability \<Rightarrow> bool" where
  "capability_ok lib c \<longleftrightarrow> in_order lib (cap_metadata c) \<and> (\<forall>k j. cap_metadata c k = Some j \<longrightarrow> tidy j)"

definition manifest_ok :: "frame_lib \<Rightarrow> capability_manifest \<Rightarrow> bool" where
  "manifest_ok lib m \<longleftrightarrow> list_all (capability_ok lib) (man_capabilities m)"

fun op_ok :: "frame_lib \<Rightarrow> protocol_op \<Rightarrow> bool" where
  "op_ok lib (Hello man) = manifest_ok lib man"
| "op_ok lib (OpMessage msg) = message_ok lib msg"
| "op_ok lib (OpResponse resp) = uuid_ok lib (mr_message_id resp)"
| "op_ok lib (OpFeedback event) = feedback_ok lib event"
| "op_ok lib (Ack i) = uuid_ok lib i"
| "op_ok lib (Nak i reason) = uuid_ok lib i"
| "op_ok lib op = True"

interpretation uuid_codec: json_codec e_uuid "d_uuid lib" "uuid_ok lib" for lib
  by unfold_locales (simp add: uuid_ok_def e_uuid_def d_uuid_def d_string_def)

context json_codec
begin

lemma dec_hash:
  "in_order lib m \<Longrightarrow> (\<And>k x. m k = Some x \<Longrightarrow> ok x) \<Longrightarrow> d_map dec (e_hash lib enc m) = Some m"
  unfolding in_order_def e_hash_def by (rule dec_map)

end


lemma options_back [simp]:
  "d_opt d_string (e_opt JString s) = Some s"
  "d_opt d_float (e_opt e_float r) = Some r"
  "pred_option (uuid_ok lib) u \<Longrightarrow> d_opt (d_uuid lib) (e_opt e_uuid u) = Some u"
  "pred_option (\<lambda>j. tidy j \<and> j \<noteq> JNull) v \<Longrightarrow> d_opt d_value (e_opt (\<lambda>j. j) v) = Some v"
proof -
  show "pred_option (uuid_ok lib) u \<Longrightarrow> d_opt (d_uuid lib) (e_opt e_uuid u) = Some u"
    by (rule uuid_codec.dec_opt) (simp_all add: e_uuid_def)
  show "pred_option (\<lambda>j. tidy j \<and> j \<noteq> JNull) v \<Longrightarrow> d_opt d_value (e_opt (\<lambda>j. j) v) = Some v"
    by (rule value_codec.dec_opt) simp
qed (simp_all add: text_codec.dec_opt float_codec.dec_opt)

lemma values_back [simp]:
  "uuid_ok lib u \<Longrightarrow> d_uuid lib (e_uuid u) = Some u"
  "d_string (JString s) = Some s" "d_bool (JBool b) = Some b" "d_word (e_word w) = Some w"
  "fl_time lib (fl_show_time lib t) = Some t \<Longrightarrow> d_time lib (e_time lib t) = Some t"
  "tidy j \<Longrightarrow> d_value j = Some j"
  "d_list d_string (JArray (map JString ss)) = Some ss"
  "d_list d_word (JArray (map e_word bs)) = Some bs"
  "d_status (e_status st) = Some st"
  by (simp_all add: uuid_codec.dec_enc text_codec.dec_enc bool_codec.dec_enc word_codec.dec_enc
      value_codec.dec_enc text_codec.dec_list word_codec.dec_list list_all_iff)
    (simp add: d_time_def e_time_def d_string_def, cases st, simp_all add: d_status_def status_named_def)

lemma named_back [simp]: "struct_fields names (JObject kvs) = named_fields names kvs"
  by (simp add: struct_fields_def)

lemmas read_defs = Let_def named_fields_def once_def need_def need_opt_def need_or_def

lemma quantum_back:
  assumes "quantum_ok lib q"
  shows "d_quantum lib (e_quantum lib q) = Some q"
proof -
  have "d_map d_float (e_hash lib e_float (qd_amplitudes q)) = Some (qd_amplitudes q)"
    by (rule float_codec.dec_hash) (use assms in \<open>simp_all add: quantum_ok_def\<close>)
  then show ?thesis using assms by (simp add: quantum_ok_def d_quantum_def e_quantum_def quantum_names_def read_defs)
qed

interpretation quantum_codec: json_codec "e_quantum lib" "d_quantum lib" "quantum_ok lib" for lib
  by unfold_locales (rule quantum_back)

lemma message_back:
  assumes "message_ok lib m"
  shows "Option.bind (named_fields message_names (message_members lib m)) (message_of_fields lib) = Some m"
proof -
  have "d_map d_string (e_hash lib JString (m_headers m)) = Some (m_headers m)"
    by (rule text_codec.dec_hash) (use assms in \<open>simp_all add: message_ok_def\<close>)
  moreover have "d_opt (d_quantum lib) (e_opt (e_quantum lib) (m_quantum m)) = Some (m_quantum m)"
    by (rule quantum_codec.dec_opt) (use assms in \<open>auto simp: message_ok_def e_quantum_def\<close>)
  ultimately show ?thesis using assms
    by (simp add: message_ok_def message_members_def message_of_fields_def message_names_def read_defs)
qed

text \<open>A message by itself, as the REST routes read it, without the name of an operation.\<close>

lemma message_value_back: "message_ok lib m \<Longrightarrow> decode_message_value lib (JObject (message_members lib m)) = Some m"
  using message_back [of lib m] by (simp add: decode_message_value_def)

lemma response_back:
  "uuid_ok lib (mr_message_id r) \<Longrightarrow>
     Option.bind (named_fields response_names (response_members r)) (response_of_fields lib) = Some r"
  by (simp add: response_members_def response_of_fields_def response_names_def read_defs)

lemma feedback_back:
  "feedback_ok lib e \<Longrightarrow>
     Option.bind (named_fields feedback_names (feedback_members e)) (feedback_of_fields lib) = Some e"
  by (simp add: feedback_ok_def feedback_members_def feedback_of_fields_def feedback_names_def read_defs)

interpretation capability_codec: json_codec "e_capability lib" d_capability "capability_ok lib" for lib
proof
  fix c assume c: "capability_ok lib c"
  have "d_map d_value (e_hash lib (\<lambda>j. j) (cap_metadata c)) = Some (cap_metadata c)"
    by (rule value_codec.dec_hash) (use c in \<open>auto simp: capability_ok_def\<close>)
  then show "d_capability (e_capability lib c) = Some c"
    by (simp add: d_capability_def e_capability_def capability_names_def read_defs)
qed

lemma manifest_back: "manifest_ok lib m \<Longrightarrow> d_manifest (e_manifest lib m) = Some m"
  using capability_codec.dec_list [of lib "man_capabilities m"]
  by (simp add: manifest_ok_def d_manifest_def e_manifest_def manifest_names_def read_defs)


lemma bytes_option_back [simp]:
  "d_opt (d_list d_word) (e_opt (\<lambda>bs. JArray (map e_word bs)) x) = Some x"
  by (cases x) (simp_all add: d_opt_def e_opt_def)

lemma op_members_named: "\<forall>kv \<in> set (snd (op_members lib op)). fst kv \<noteq> ''op''"
  by (cases op) (simp_all add: message_members_def response_members_def feedback_members_def)

lemma variant_back:
  assumes "op_ok lib op"
  shows "decode_variant lib (fst (op_members lib op)) (Members (snd (op_members lib op))) = Some op"
proof (cases op)
  case (Hello man)
  then show ?thesis using assms manifest_back [of lib man]
    by (simp add: decode_variant_def content_fields_def read_defs)
next
  case (OpMessage msg)
  then show ?thesis using message_back [of lib msg] assms
    by (simp add: decode_variant_def flat_fields_def bind_map_option bind_eq_Some_conv)
next
  case (OpResponse resp)
  then show ?thesis using response_back [of lib resp] assms
    by (simp add: decode_variant_def flat_fields_def bind_eq_Some_conv)
next
  case (OpFeedback event)
  then show ?thesis using feedback_back [of lib event] assms
    by (simp add: decode_variant_def flat_fields_def bind_eq_Some_conv)
qed (use assms in \<open>simp_all add: decode_variant_def content_fields_def read_defs\<close>)

lemma op_back:
  assumes "op_ok lib op"
  shows "decode_op lib (encode_op lib op) = Some op"
proof -
  have "filter (\<lambda>kv. fst kv = ''op'') (snd (op_members lib op)) = []"
    and "filter (\<lambda>kv. fst kv \<noteq> ''op'') (snd (op_members lib op)) = snd (op_members lib op)"
    using op_members_named by (auto simp: filter_empty_conv filter_id_conv)
  with variant_back [OF assms] show ?thesis
    by (simp add: decode_op_def encode_op_def split_beta)
qed

section \<open>Properties\<close>

text \<open>
  C4. A frame that the hub or an agent writes is read back as the same operation, for every operation:
  messages with their headers and amplitudes, responses, feedback, manifests with their capabilities,
  file contents byte for byte. It is enough that its identifiers and its time read back, that
  hash maps are visited completely, that free JSON values are in the form \<open>serde_json\<close> keeps them and
  that no optional value is an explicit null, and that the text of this frame reads back as its tree.
\<close>

theorem frame_roundtrip:
  assumes "op_ok lib op" and "fl_read lib (fl_show lib (encode_op lib op)) = Inr (encode_op lib op)"
  shows "\<exists>txt. encode_frame lib op = Inr txt \<and> parse_frame lib txt = Inr op"
  using op_back [OF assms(1)] assms(2) by (simp add: encode_frame_def parse_frame_def)

text \<open>
  Every required field is required: without it, or with the name repeated, the message is refused,
  whatever else it contains.
\<close>

lemma message_needs:
  assumes "n \<in> {''id'', ''conversation_id'', ''timestamp'', ''sender'', ''sender_ns'', ''path'', ''msg_type'', ''data''}"
    and "map_of kvs n = None"
  shows "decode_variant lib ''message'' (Members kvs) = None"
  using assms
  by (auto simp: decode_variant_def flat_fields_def named_fields_def message_of_fields_def need_def
      bind_eq_None_conv split: option.split)

definition noted :: message where
  "noted = with_header (message_new 1 2 0 ''bob'' ''/inbox'' ''note'') ''a'' ''b''"

definition blank_frames :: frame_lib where
  "blank_frames =
     \<lparr>fl_read = (\<lambda>_. Inl ''eof''), fl_show = (\<lambda>_. ''{}''), fl_uuid = (\<lambda>s. if s = show_uuid 1 then Some 1 else Some 2),
      fl_time = (\<lambda>_. Some 0), fl_show_time = (\<lambda>_. ''1970''), fl_reason = (\<lambda>_. ''missing field''),
      fl_order = (\<lambda>S. if ''a'' \<in> S then [''a''] else [])\<rparr>"

definition sample_frames :: frame_lib where
  "sample_frames = blank_frames\<lparr>fl_read := (\<lambda>txt. Inr (encode_op blank_frames (OpMessage noted)))\<rparr>"

lemma last_show_hex: "0 < k \<Longrightarrow> show_hex k n \<noteq> [] \<and> last (show_hex k n) = hex_digit (n mod 16)"
  by (cases k) simp_all

lemma last_show_uuid: "last (show_uuid u) = hex_digit (unat u mod 16)"
  using last_show_hex [of 12 "unat u"] by (simp add: show_uuid_def Let_def last_append)

theorem frame_roundtrip_witness: "parse_frame sample_frames ''{}'' = Inr (OpMessage noted)"
proof -
  have "last (show_uuid 2) \<noteq> last (show_uuid 1)" by (simp add: last_show_uuid hex_digit_def)
  then have u: "show_uuid 2 \<noteq> show_uuid 1" by auto
  have ok: "op_ok sample_frames (OpMessage noted)"
    using u by (auto simp: message_ok_def uuid_ok_def noted_def with_header_def message_new_def sample_frames_def
        blank_frames_def tidy_def in_order_def iterates_def)
  have "encode_op sample_frames (OpMessage noted) = encode_op blank_frames (OpMessage noted)"
    by (simp add: encode_op_def message_members_def e_time_def e_hash_def sample_frames_def noted_def with_header_def
        message_new_def e_opt_def)
  then have "fl_read sample_frames (fl_show sample_frames (encode_op sample_frames (OpMessage noted))) =
      Inr (encode_op sample_frames (OpMessage noted))"
    by (simp add: sample_frames_def)
  from frame_roundtrip [OF ok this] show ?thesis
    by (simp add: encode_frame_def sample_frames_def blank_frames_def)
qed

end
