(* ===== verification/ExampleClient.thy ===== *)
theory ExampleClient
  imports Wire HubEvents
begin

text \<open>
  The example client that comes with the hub (\<open>examples/ws_client.rs\<close>) and what a running hub makes of
  it: the frames the client writes go through \<open>parse_frame\<close> of \<open>src/net/protocol.rs\<close> and the transport of
  \<open>src/net/transport.rs\<close>.
\<close>

section \<open>The client\<close>

record client_args =
  ca_url :: string
  ca_agent_id :: string

definition client_defaults :: client_args where
  "client_defaults = \<lparr>ca_url = ''ws://localhost:9999/ws/example-agent'', ca_agent_id = ''example-agent''\<rparr>"

text \<open>What the client reads from its environment: the variable \<open>HOSTNAME\<close>, two fresh identifiers, the
  time as text.\<close>

record client_env =
  ce_hostname :: "string option"
  ce_id :: uuid
  ce_conversation :: uuid
  ce_time :: string

text \<open>The \<open>json!\<close> macro builds a \<open>Value\<close>.\<close>

definition json_macro :: "(string \<times> json) list \<Rightarrow> json" where
  "json_macro kvs = value_of (JObject kvs)"

definition client_hello :: "client_args \<Rightarrow> client_env \<Rightarrow> json" where
  "client_hello args env = json_macro
     [(''op'', JString ''hello''),
      (''manifest'', JObject
        [(''agent_id'', JString (ca_agent_id args)),
         (''hostname'', JString (case ce_hostname env of Some h \<Rightarrow> h | None \<Rightarrow> ''unknown'')),
         (''capabilities'', JArray [JObject
            [(''name'', JString ''chat''), (''version'', JString ''1.0''),
             (''paths'', JArray [JString ''/send'', JString ''/recv''])]])])]"

definition client_message :: "client_args \<Rightarrow> client_env \<Rightarrow> json" where
  "client_message args env = json_macro
     [(''op'', JString ''message''), (''id'', JString (show_uuid (ce_id env))),
      (''conversation_id'', JString (show_uuid (ce_conversation env))), (''timestamp'', JString (ce_time env)),
      (''sender'', JString (ca_agent_id args)), (''sender_ns'', JString (''/net/'' @ ca_agent_id args)),
      (''path'', JString ''/ai/inference''), (''type'', JString ''llm_request''),
      (''data'', JObject [(''prompt'', JString ''Explain quantum computing in one sentence.'')]),
      (''headers'', JObject [])]"

definition client_path :: "client_args \<Rightarrow> string" where
  "client_path args = ''/net/'' @ ca_agent_id args @ ''/ctl/status''"

definition client_read :: "client_args \<Rightarrow> json" where
  "client_read args = json_macro [(''op'', JString ''fs_read''), (''path'', JString (client_path args))]"

definition client_heartbeat :: json where
  "client_heartbeat = json_macro [(''op'', JString ''heartbeat'')]"

text \<open>The frames in the order they are written; a heartbeat follows every ten seconds until a write
  fails. The first three writes end the client when they fail.\<close>

definition client_frame :: "client_args \<Rightarrow> client_env \<Rightarrow> nat \<Rightarrow> json" where
  "client_frame args env i =
     (if i = 0 then client_hello args env else if i = 1 then client_message args env
      else if i = 2 then client_read args else client_heartbeat)"

fun client_writes :: "frame_lib \<Rightarrow> client_args \<Rightarrow> client_env \<Rightarrow> (nat \<Rightarrow> bool) \<Rightarrow> nat \<Rightarrow> nat \<Rightarrow> string list" where
  "client_writes lib args env ok i 0 = []"
| "client_writes lib args env ok i (Suc n) =
     (if ok i then fl_show lib (client_frame args env i) # client_writes lib args env ok (Suc i) n else [])"

text \<open>The task that reads: the texts it prints.\<close>

fun client_prints :: "ws_frame list \<Rightarrow> string list" where
  "client_prints [] = []"
| "client_prints (WsText txt # frames) = (''<<< Received: '' @ txt) # client_prints frames"
| "client_prints (WsClose # frames) = [''<<< Connection closed'']"
| "client_prints (WsOther # frames) = client_prints frames"
| "client_prints (WsError e # frames) = []"
| "client_prints (WsEnd # frames) = []"

section \<open>What the hub reads\<close>

definition client_manifest :: "client_args \<Rightarrow> client_env \<Rightarrow> capability_manifest" where
  "client_manifest args env =
     \<lparr>man_agent_id = ca_agent_id args, man_hostname = (case ce_hostname env of Some h \<Rightarrow> h | None \<Rightarrow> ''unknown''),
      man_capabilities = [\<lparr>cap_name = ''chat'', cap_version = ''1.0'', cap_paths = [''/send'', ''/recv''],
        cap_metadata = Map.empty\<rparr>], man_preferred_namespace = None\<rparr>"

lemma macro_values:
  "client_hello args env = JObject
     [(''manifest'', JObject
        [(''agent_id'', JString (ca_agent_id args)),
         (''capabilities'', JArray [JObject
            [(''name'', JString ''chat''), (''paths'', JArray [JString ''/send'', JString ''/recv'']),
             (''version'', JString ''1.0'')]]),
         (''hostname'', JString (case ce_hostname env of Some h \<Rightarrow> h | None \<Rightarrow> ''unknown''))]),
      (''op'', JString ''hello'')]"
  "client_read args = JObject [(''op'', JString ''fs_read''), (''path'', JString (client_path args))]"
  "client_heartbeat = JObject [(''op'', JString ''heartbeat'')]"
  "client_message args env = JObject
     [(''conversation_id'', JString (show_uuid (ce_conversation env))),
      (''data'', JObject [(''prompt'', JString ''Explain quantum computing in one sentence.'')]),
      (''headers'', JObject []), (''id'', JString (show_uuid (ce_id env))), (''op'', JString ''message''),
      (''path'', JString ''/ai/inference''), (''sender'', JString (ca_agent_id args)),
      (''sender_ns'', JString (''/net/'' @ ca_agent_id args)), (''timestamp'', JString (ce_time env)),
      (''type'', JString ''llm_request'')]"
  by (simp_all add: client_hello_def client_read_def client_heartbeat_def client_message_def json_macro_def)

lemma client_frames_read:
  "decode_op lib (client_hello args env) = Some (Hello (client_manifest args env))"
  "decode_op lib (client_message args env) = None"
  "decode_op lib (client_read args) = Some (FsRead (client_path args))"
  "decode_op lib client_heartbeat = Some Heartbeat"
proof -
  show "decode_op lib (client_hello args env) = Some (Hello (client_manifest args env))"
    by (simp add: macro_values decode_op_def decode_variant_def content_fields_def read_defs d_manifest_def
        d_capability_def manifest_names_def capability_names_def client_manifest_def d_list_def d_string_def)
  show "decode_op lib (client_message args env) = None"
    by (simp add: macro_values decode_op_def message_needs [of "''msg_type''"])
qed (simp_all add: macro_values decode_op_def decode_variant_def content_fields_def read_defs d_string_def)

section \<open>No agent has files\<close>

lemma handle_op_nodes: "vf_nodes (tp_vfs (fst (handle_op env c k s op))) = vf_nodes (tp_vfs s)"
  by (cases op) (auto simp: Let_def split_beta split: option.splits)

lemma vfs_remove_nodes: "dom (vf_nodes (fst (vfs_remove lk path v))) \<subseteq> dom (vf_nodes v)"
  by (auto simp: vfs_remove_def Let_def split: option.splits if_splits)

lemma unmount_dom: "dom (vf_nodes (unmount_agent_ns lk ks i v)) \<subseteq> dom (vf_nodes v)"
  by (auto simp: unmount_agent_ns_def Let_def unmount_keys_nodes remove_keys_apply split: if_splits)

lemma vfs_untouched:
  "tp_vfs (ap_hub (fst (send_message henv app msg))) = tp_vfs (ap_hub app)"
  "tp_vfs (ap_hub (fst (msg_handler henv app msg))) = tp_vfs (ap_hub app)"
  "tp_vfs (ap_hub (fst (grpc_send henv app msg))) = tp_vfs (ap_hub app)"
  "tp_vfs (ap_hub (fst (ai_completions henv app req))) = tp_vfs (ap_hub app)"
  "tp_vfs (ap_hub (fst (quantum_feedback_handler henv app fe))) = tp_vfs (ap_hub app)"
  "tp_vfs (ap_hub (fst (conversation_quantum henv app i))) = tp_vfs (ap_hub app)"
  by (simp_all add: handler_parts grpc_send_def ai_completions_def quantum_feedback_handler_def
      conversation_quantum_def Let_def split_beta split: option.split sum.split)

lemma vfs_write_nodes: "vf_nodes (tp_vfs (ap_hub (fst (vfs_write app path body)))) = vf_nodes (tp_vfs (ap_hub app))"
  by (auto simp: vfs_write_def Let_def split_beta split: option.split sum.split)

lemma app_step_nodes:
  assumes "app_step app app'"
  shows "dom (vf_nodes (tp_vfs (ap_hub app'))) \<subseteq> dom (vf_nodes (tp_vfs (ap_hub app)))"
  using assms
proof cases
  case (frame env c k op)
  then show ?thesis by (simp del: handle_op.simps add: handle_op_nodes)
next
  case (unregister henv i)
  then show ?thesis by (simp add: unregister_agent_def Let_def unmount_dom)
next
  case (file_delete henv path)
  then show ?thesis by (simp add: vfs_delete_def Let_def split_beta vfs_remove_nodes split: option.split)
qed (simp_all add: vfs_untouched vfs_write_nodes)

lemma hub_paths:
  assumes "app_reachable app"
  shows "dom (vf_nodes (tp_vfs (ap_hub app))) \<subseteq> dom (vf_nodes vfs_new)"
  using assms
proof (induction rule: app_reachable.induct)
  case (start env cfg dm)
  then show ?case by (auto simp: daemon_start_def app_built Let_def split: sum.splits prod.splits)
next
  case (step app app')
  then show ?case using app_step_nodes by blast
qed

lemma client_path_normal:
  assumes "plain_part (ca_agent_id args)"
  shows "normalize (client_path args) = client_path args"
proof -
  have "client_path args = path_of [''net'', ca_agent_id args, ''ctl'', ''status'']"
    by (simp add: client_path_def path_of_def)
  moreover have "last (path_of [''net'', ca_agent_id args, ''ctl'', ''status'']) = CHR ''s''"
    by (simp add: path_of_def last_append)
  moreover have "\<forall>p \<in> set [''net'', ca_agent_id args, ''ctl'', ''status'']. plain_part p"
    using assms by (simp add: plain_part_def)
  ultimately show ?thesis using normalize_plain [of "[''net'', ca_agent_id args, ''ctl'', ''status'']"] by simp
qed

lemma client_path_missing:
  assumes "app_reachable app" and "plain_part (ca_agent_id args)"
  shows "vfs_get (tp_vfs (ap_hub app)) (client_path args) = None"
proof -
  have "client_path args \<notin> dom (vf_nodes vfs_new)"
    unfolding dom_vfs_new by (simp add: client_path_def)
  then show ?thesis
    using hub_paths [OF assms(1)] by (auto simp: vfs_get_def client_path_normal [OF assms(2)])
qed


section \<open>The exchange\<close>

definition registered_as :: "agent_registry \<Rightarrow> string \<Rightarrow> chan_id \<Rightarrow> capability_manifest \<Rightarrow> bool" where
  "registered_as reg k c man \<longleftrightarrow> (\<exists>a. reg k = Some a \<and> ag_tx a = Some c \<and> ag_manifest a = man)"

definition texts_read :: "frame_lib \<Rightarrow> client_args \<Rightarrow> client_env \<Rightarrow> bool" where
  "texts_read lib args env \<longleftrightarrow> (\<forall>i. fl_read lib (fl_show lib (client_frame args env i)) = Inr (client_frame args env i))"

lemma client_frame_handled:
  assumes "texts_read lib args env"
  shows "handle_text (parse_frame lib) e c k s (fl_show lib (client_frame args env i)) =
    (case decode_op lib (client_frame args env i) of
       None \<Rightarrow> (s, reply e c (OpError ''parse_error'' (fl_reason lib (fl_show lib (client_frame args env i)))))
     | Some op \<Rightarrow> handle_op e c k s op)"
  using assms by (simp add: texts_read_def handle_text_def parse_frame_def split: option.split)

lemma heartbeats_keep:
  assumes "texts_read lib args env" and "length es = n" and "3 \<le> i" and "registered_as (tp_agents s) k c man"
  shows "\<exists>s'. socket_loop (parse_frame lib) c k (zip es (map WsText (client_writes lib args env (\<lambda>_. True) i n))) s = (s', []) \<and>
    tp_queue s' = tp_queue s \<and> registered_as (tp_agents s') k c man"
  using assms(2,3,4)
proof (induction n arbitrary: es i s)
  case (Suc n)
  obtain e es' where es: "es = e # es'" "length es' = n" using Suc.prems(1) by (cases es) auto
  let ?s = "s\<lparr>tp_agents := agents_heartbeat (tp_agents s) (oe_now e) k\<rparr>"
  have reg: "registered_as (tp_agents ?s) k c man"
    using Suc.prems(3) by (auto simp: registered_as_def agents_heartbeat_def)
  have hb: "client_frame args env i = client_heartbeat" using Suc.prems(2) by (simp add: client_frame_def)
  have "handle_text (parse_frame lib) e c k s (fl_show lib client_heartbeat) = (?s, [])"
    using client_frame_handled [OF assms(1), of e c k s i] by (simp add: hb client_frames_read)
  then show ?case
    using Suc.IH [OF es(2) _ reg, of "Suc i"] Suc.prems(2) by (auto simp: es hb)
qed simp

lemma drained_queue:
  "(\<And>n. ok n) \<Longrightarrow> fst (snd (drain_to mq k ok)) = queued_ops (queue_of mq k) \<and>
     queue_of (fst (drain_to mq k ok)) j = (if j = k then [] else queue_of mq j)"
  by (simp add: sent_drain_to queue_of_drain_to drain_loop_all)

section \<open>Properties\<close>

text \<open>
  C13. The example client does not get its message through. Whatever state a running hub is in, and however
  many heartbeats follow, the hub registers the client under the name in the URL it connected to,
  whatever its \<open>--agent-id\<close>, and sends it what was queued under that name; it refuses the test message,
  which calls its type \<open>type\<close> where the hub requires \<open>msg_type\<close>, with \<open>parse_error\<close>; and it
  answers that the status file of the agent does not exist, since the hub never creates files for agents.
\<close>

theorem example_client_exchange:
  assumes "app_reachable app" and "plain_part (ca_agent_id args)" and "texts_read lib args env"
    and "\<forall>e \<in> set es. \<forall>j. oe_ok e j" and "length es = n + 3"
    and "socket_loop (parse_frame lib) c k
      (zip es (map WsText (client_writes lib args env (\<lambda>_. True) 0 (n + 3)))) (ap_hub app) = (s, outs)"
  shows "registered_as (tp_agents s) k c (client_manifest args env) \<and>
    outs = map (\<lambda>op. (c, op)) (queued_ops (queue_of (tp_queue (ap_hub app)) k)) @
      [(c, OpError ''parse_error'' (fl_reason lib (fl_show lib (client_message args env)))),
       (c, FsResult (client_path args) None (Some ''not found''))] \<and>
    (\<forall>j. queue_of (tp_queue s) j = (if j = k then [] else queue_of (tp_queue (ap_hub app)) j))"
proof -
  obtain e0 e1 e2 hbs where es: "es = e0 # e1 # e2 # hbs" "length hbs = n"
    using assms(5) by (auto simp: numeral_eq_Suc length_Suc_conv)
  have ok: "oe_ok e0 j" "oe_ok e1 j" "oe_ok e2 j" for j using assms(4) by (simp_all add: es)
  let ?hub = "ap_hub app"
  let ?d = "drain_to (tp_queue ?hub) k (oe_ok e0)"
  let ?s0 = "?hub\<lparr>tp_agents := agents_register (tp_agents ?hub) (hello_agent e0 c k (client_manifest args env)),
      tp_queue := fst ?d\<rparr>"
  have frames: "client_frame args env 0 = client_hello args env" "client_frame args env (Suc 0) = client_message args env"
    "client_frame args env 2 = client_read args" by (simp_all add: client_frame_def)
  note handled = client_frame_handled [OF assms(3), of _ c k]
  have first: "handle_text (parse_frame lib) e0 c k ?hub (fl_show lib (client_hello args env)) =
      (?s0, map (\<lambda>op. (c, op)) (fst (snd ?d)))"
    using handled [of e0 ?hub 0] by (simp add: frames client_frames_read Let_def split_beta)
  have second: "handle_text (parse_frame lib) e1 c k ?s0 (fl_show lib (client_message args env)) =
      (?s0, [(c, OpError ''parse_error'' (fl_reason lib (fl_show lib (client_message args env))))])"
    using handled [of e1 ?s0 "Suc 0"] ok by (simp add: frames client_frames_read reply_def)
  have third: "handle_text (parse_frame lib) e2 c k ?s0 (fl_show lib (client_read args)) =
      (?s0, [(c, FsResult (client_path args) None (Some ''not found''))])"
    using handled [of e2 ?s0 2] ok client_path_missing [OF assms(1,2)]
    by (simp add: frames client_frames_read reply_def)
  have "registered_as (tp_agents ?s0) k c (client_manifest args env)"
    by (simp add: registered_as_def agents_register_def hello_agent_def)
  from heartbeats_keep [OF assms(3) es(2) order_refl this]
  obtain s' where rest: "socket_loop (parse_frame lib) c k
      (zip hbs (map WsText (client_writes lib args env (\<lambda>_. True) 3 n))) ?s0 = (s', [])"
    and s': "tp_queue s' = fst ?d" "registered_as (tp_agents s') k c (client_manifest args env)"
    by auto
  have writes: "client_writes lib args env (\<lambda>_. True) 0 (n + 3) =
      fl_show lib (client_hello args env) # fl_show lib (client_message args env) #
      fl_show lib (client_read args) # client_writes lib args env (\<lambda>_. True) 3 n"
    using frames by (simp add: numeral_eq_Suc)
  have "s = s'" "outs = map (\<lambda>op. (c, op)) (fst (snd ?d)) @
      [(c, OpError ''parse_error'' (fl_reason lib (fl_show lib (client_message args env)))),
       (c, FsResult (client_path args) None (Some ''not found''))]"
    using assms(6) rest by (simp_all add: es writes first second third)
  then show ?thesis using s' drained_queue [of "oe_ok e0" "tp_queue ?hub" k] ok by simp
qed


definition sample_client_env :: client_env where
  "sample_client_env = \<lparr>ce_hostname = None, ce_id = 1, ce_conversation = 2, ce_time = ''1970''\<rparr>"

definition client_lib :: frame_lib where
  "client_lib = blank_frames
     \<lparr>fl_show := (\<lambda>j. if j = client_hello client_defaults sample_client_env then ''h''
        else if j = client_message client_defaults sample_client_env then ''m''
        else if j = client_read client_defaults then ''r'' else ''b''),
      fl_read := (\<lambda>txt. Inr (if txt = ''h'' then client_hello client_defaults sample_client_env
        else if txt = ''m'' then client_message client_defaults sample_client_env
        else if txt = ''r'' then client_read client_defaults else client_heartbeat))\<rparr>"

theorem example_client_exchange_witness:
  "\<exists>dm. daemon_start sample_start bare_config = Inr dm \<and>
     registered_as (tp_agents (fst (socket_loop (parse_frame client_lib) 7 ''example-agent''
       (zip (replicate 4 (op_sample_env prefix_lib))
         (map WsText (client_writes client_lib client_defaults sample_client_env (\<lambda>_. True) 0 4))) (ap_hub (dm_app dm)))))
       ''example-agent'' 7 (client_manifest client_defaults sample_client_env)"
proof -
  obtain dm where dm: "daemon_start sample_start bare_config = Inr dm" using bare_start by blast
  have "se_store sample_start = Inr store_new" by (simp add: sample_start_def)
  note start = app_reachable.start [OF dm this]
  have plain: "plain_part (ca_agent_id client_defaults)" by (simp add: client_defaults_def plain_part_def)
  have texts: "texts_read client_lib client_defaults sample_client_env"
    by (auto simp: texts_read_def client_lib_def client_frame_def)
  have envs: "\<forall>e \<in> set (replicate 4 (op_sample_env prefix_lib)). \<forall>j. oe_ok e j"
    by (simp add: op_sample_env_def)
  have "length (replicate 4 (op_sample_env prefix_lib)) = 1 + 3" by simp
  from example_client_exchange [OF start plain texts envs this prod.collapse [symmetric], of 7 "''example-agent''"] dm
  show ?thesis by auto
qed

end
