(* ===== verification/Rpc.thy ===== *)
theory Rpc
  imports Handlers
begin

text \<open>
  The envelope of RPC calls (\<open>src/grpc.rs\<close>): its codec over MessagePack, whose library is a parameter, and
  a whole call through \<open>grpc_handler\<close> of \<open>src/daemon.rs\<close>, from the caller's message to the answer the
  caller reads.
\<close>

section \<open>The codec\<close>

text \<open>\<open>rmp_serde\<close>: writing with field names and reading, at the three types of the envelope.\<close>

record rmp_lib =
  rmp_write_message :: "message \<Rightarrow> u8 list result"
  rmp_read_message :: "u8 list \<Rightarrow> message result"
  rmp_write_request :: "grpc_request \<Rightarrow> u8 list result"
  rmp_read_request :: "u8 list \<Rightarrow> grpc_request result"
  rmp_write_response :: "grpc_response \<Rightarrow> u8 list result"
  rmp_read_response :: "u8 list \<Rightarrow> grpc_response result"

definition grpc_encode_message :: "rmp_lib \<Rightarrow> message \<Rightarrow> u8 list result" where
  "grpc_encode_message lib msg = (case rmp_write_message lib msg of Inl e \<Rightarrow> Inl e | Inr bytes \<Rightarrow> Inr bytes)"

definition grpc_decode_message :: "rmp_lib \<Rightarrow> u8 list \<Rightarrow> message result" where
  "grpc_decode_message lib bytes = (case rmp_read_message lib bytes of Inl e \<Rightarrow> Inl e | Inr msg \<Rightarrow> Inr msg)"

definition grpc_encode_request :: "rmp_lib \<Rightarrow> grpc_request \<Rightarrow> u8 list result" where
  "grpc_encode_request lib req = (case rmp_write_request lib req of Inl e \<Rightarrow> Inl e | Inr bytes \<Rightarrow> Inr bytes)"

definition grpc_decode_request :: "rmp_lib \<Rightarrow> u8 list \<Rightarrow> grpc_request result" where
  "grpc_decode_request lib bytes = (case rmp_read_request lib bytes of Inl e \<Rightarrow> Inl e | Inr req \<Rightarrow> Inr req)"

definition grpc_encode_response :: "rmp_lib \<Rightarrow> grpc_response \<Rightarrow> u8 list result" where
  "grpc_encode_response lib resp = (case rmp_write_response lib resp of Inl e \<Rightarrow> Inl e | Inr bytes \<Rightarrow> Inr bytes)"

definition grpc_decode_response :: "rmp_lib \<Rightarrow> u8 list \<Rightarrow> grpc_response result" where
  "grpc_decode_response lib bytes = (case rmp_read_response lib bytes of Inl e \<Rightarrow> Inl e | Inr resp \<Rightarrow> Inr resp)"

definition grpc_codec :: "rmp_lib \<Rightarrow> rpc_codec" where
  "grpc_codec lib =
     \<lparr>decode_request = grpc_decode_request lib, decode_message = grpc_decode_message lib,
      encode_response = grpc_encode_response lib\<rparr>"

section \<open>A call\<close>

text \<open>What a caller sends for a message, and the answer it reads from a call of the hub.\<close>

definition send_call :: "(string \<times> string) list \<Rightarrow> u8 list \<Rightarrow> grpc_request" where
  "send_call headers body = \<lparr>gq_method = ''xfiles.Message/Send'', gq_headers = headers, gq_body = body\<rparr>"

definition rpc_answer :: "rmp_lib \<Rightarrow> 're http_env \<Rightarrow> 're app \<Rightarrow> u8 list \<Rightarrow> grpc_response result" where
  "rpc_answer lib env app bytes =
     (case grpc_handler (grpc_codec lib) env app bytes of
        (app', outs, code, resp) \<Rightarrow> grpc_decode_response lib (grpc_bytes (grpc_codec lib) resp))"

text \<open>A caller's bytes carry a message when MessagePack reads back what it wrote.\<close>

definition carries :: "rmp_lib \<Rightarrow> u8 list \<Rightarrow> message \<Rightarrow> bool" where
  "carries lib bytes msg \<longleftrightarrow>
     (\<exists>headers body. grpc_encode_message lib msg = Inr body \<and> rmp_read_message lib body = Inr msg \<and>
        grpc_encode_request lib (send_call headers body) = Inr bytes \<and>
        rmp_read_request lib bytes = Inr (send_call headers body))"

definition answers_read :: "rmp_lib \<Rightarrow> grpc_response \<Rightarrow> bool" where
  "answers_read lib resp \<longleftrightarrow>
     (\<exists>bytes. rmp_write_response lib resp = Inr bytes \<and> rmp_read_response lib bytes = Inr resp)"

lemmas codec_defs = grpc_codec_def grpc_encode_message_def grpc_decode_message_def grpc_encode_request_def
  grpc_decode_request_def grpc_encode_response_def grpc_decode_response_def

lemma answer_back: "answers_read lib resp \<Longrightarrow> grpc_decode_response lib (grpc_bytes (grpc_codec lib) resp) = Inr resp"
  by (auto simp: answers_read_def grpc_bytes_def codec_defs)

lemma call_handled:
  assumes "carries lib bytes msg"
  shows "grpc_handler (grpc_codec lib) env app bytes =
    (let (app', outs, resp) = grpc_send env app msg in (app', outs, 200, resp))"
proof -
  obtain headers body where "rmp_read_message lib body = Inr msg"
    and "rmp_read_request lib bytes = Inr (send_call headers body)"
    using assms by (auto simp: carries_def)
  then show ?thesis by (simp add: grpc_handler_def codec_defs send_call_def)
qed

lemma send_selects:
  assumes "tp_quantum (ap_hub app) \<noteq> None \<Longrightarrow> rng_ok (oe_rng (he_op env))"
  obtains dest where "dest \<in> set (plumber_route (oe_lib (he_op env)) (tp_plumber (ap_hub app)) msg)"
    and "snd (snd (grpc_send env app msg)) = grpc_reply GrpcOk ''ok''"
    and "fst (snd (grpc_send env app msg)) = snd (deliver_rpc (tp_agents (ap_hub app)) (tp_queue (ap_hub app))
      (oe_now (he_op env)) (oe_ok (he_op env) 0) dest msg)"
    and "tp_queue (ap_hub (fst (grpc_send env app msg))) = fst (deliver_rpc (tp_agents (ap_hub app))
      (tp_queue (ap_hub app)) (oe_now (he_op env)) (oe_ok (he_op env) 0) dest msg)"
proof -
  let ?dests = "plumber_route (oe_lib (he_op env)) (tp_plumber (ap_hub app)) msg"
  have "\<forall>q. tp_quantum (ap_hub app) = Some q \<longrightarrow> rng_ok (oe_rng (he_op env))" using assms by auto
  from select_destination_member [OF this plumber_route_nonempty]
  obtain dest where d: "dest \<in> set ?dests" and sel: "snd (select_destination (oe_rng (he_op env)) (oe_now (he_op env))
      (tp_quantum (ap_hub app)) msg ?dests) = Some dest" by blast
  show thesis
    by (rule that [OF d]) (simp_all add: grpc_send_def Let_def split_beta sel deliver_selected_queue)
qed

section \<open>Properties\<close>

text \<open>
  C39. Every well-formed call to send a message is answered \<open>Ok\<close>, and the caller reads that answer: the
  plumber always has a destination, so \<open>NotFound\<close> is never given. The message then is sent on an
  agent's channel, or queued for the agent named by the destination, or, when the destination names
  no agent, neither: the caller learns \<open>Ok\<close> all the same and nothing of the message is left.
\<close>

theorem rpc_call_answered:
  assumes "carries lib bytes msg" and "answers_read lib (grpc_reply GrpcOk ''ok'')"
    and "tp_quantum (ap_hub app) \<noteq> None \<Longrightarrow> rng_ok (oe_rng (he_op env))"
    and "grpc_handler (grpc_codec lib) env app bytes = (app', outs, code, resp)"
  shows "code = 200 \<and> rpc_answer lib env app bytes = Inr (grpc_reply GrpcOk ''ok'') \<and>
    (\<exists>dest \<in> set (plumber_route (oe_lib (he_op env)) (tp_plumber (ap_hub app)) msg).
      case target_agent dest of
        None \<Rightarrow> outs = [] \<and> tp_queue (ap_hub app') = tp_queue (ap_hub app) \<and> ap_store app' = ap_store app
      | Some k \<Rightarrow>
          (\<exists>a c. tp_agents (ap_hub app) k = Some a \<and> ag_tx a = Some c \<and> outs = [(c, OpMessage msg)] \<and>
             tp_queue (ap_hub app') = tp_queue (ap_hub app)) \<or>
          (outs = [] \<and> tp_queue (ap_hub app') =
             enqueue (tp_queue (ap_hub app)) (oe_now (he_op env)) k msg))"
proof -
  have parts: "app' = fst (grpc_send env app msg)" "outs = fst (snd (grpc_send env app msg))" "code = 200"
    "resp = snd (snd (grpc_send env app msg))"
    using assms(4) by (simp_all add: call_handled [OF assms(1)] split_beta Let_def)
  obtain dest where d: "dest \<in> set (plumber_route (oe_lib (he_op env)) (tp_plumber (ap_hub app)) msg)"
    and ok: "snd (snd (grpc_send env app msg)) = grpc_reply GrpcOk ''ok''"
    and outs: "fst (snd (grpc_send env app msg)) = snd (deliver_rpc (tp_agents (ap_hub app)) (tp_queue (ap_hub app))
      (oe_now (he_op env)) (oe_ok (he_op env) 0) dest msg)"
    and q: "tp_queue (ap_hub (fst (grpc_send env app msg))) = fst (deliver_rpc (tp_agents (ap_hub app))
      (tp_queue (ap_hub app)) (oe_now (he_op env)) (oe_ok (he_op env) 0) dest msg)"
    by (rule send_selects [where env = env and app = app and msg = msg, OF assms(3)])
  have "ap_store app' = ap_store app"
    by (simp add: parts grpc_send_def deliver_selected_def Let_def split_beta split: option.split)
  then have "case target_agent dest of
        None \<Rightarrow> outs = [] \<and> tp_queue (ap_hub app') = tp_queue (ap_hub app) \<and> ap_store app' = ap_store app
      | Some k \<Rightarrow>
          (\<exists>a c. tp_agents (ap_hub app) k = Some a \<and> ag_tx a = Some c \<and> outs = [(c, OpMessage msg)] \<and>
             tp_queue (ap_hub app') = tp_queue (ap_hub app)) \<or>
          (outs = [] \<and> tp_queue (ap_hub app') = enqueue (tp_queue (ap_hub app)) (oe_now (he_op env)) k msg)"
    using outs q
    by (auto simp: parts deliver_rpc_def agents_get_def Let_def bind_eq_Some_conv split: option.splits if_splits)
  moreover have "rpc_answer lib env app bytes = Inr (grpc_reply GrpcOk ''ok'')"
    using assms(4) answer_back [OF assms(2)] by (simp add: rpc_answer_def parts(4) ok)
  ultimately show ?thesis using d parts(3) by blast
qed

definition sample_rmp :: rmp_lib where
  "sample_rmp =
     \<lparr>rmp_write_message = (\<lambda>_. Inr [1]), rmp_read_message = (\<lambda>_. Inr (a_note ''x'')),
      rmp_write_request = (\<lambda>_. Inr [2]), rmp_read_request = (\<lambda>_. Inr (send_call [] [1])),
      rmp_write_response = (\<lambda>_. Inr [3]), rmp_read_response = (\<lambda>_. Inr (grpc_reply GrpcOk ''ok''))\<rparr>"

theorem rpc_call_answered_witness:
  "rpc_answer sample_rmp sample_http_env (sample_app None) [2] = Inr (grpc_reply GrpcOk ''ok'')"
proof -
  have c: "carries sample_rmp [2] (a_note ''x'')"
    by (auto simp: carries_def sample_rmp_def grpc_encode_message_def grpc_encode_request_def)
  have a: "answers_read sample_rmp (grpc_reply GrpcOk ''ok'')" by (simp add: answers_read_def sample_rmp_def)
  have q: "tp_quantum (ap_hub (sample_app None)) \<noteq> None \<Longrightarrow> rng_ok (oe_rng (he_op sample_http_env))"
    by (simp add: sample_app_def transport_new_def)
  obtain app' outs code resp where "grpc_handler (grpc_codec sample_rmp) sample_http_env (sample_app None) [2] =
      (app', outs, code, resp)" by (metis prod_cases4)
  from rpc_call_answered [OF c a q this] show ?thesis by blast
qed

end
