(* ===== verification/Spec2Isabelle.thy ===== *)
theory Spec2Isabelle
  imports Losses Shutdown Cli Outage Restart Telemetry Namespace ExampleClient Rpc
begin

text \<open>
  \<^bold>\<open>A verification development for the Xfiles hub\<close>

  Xfiles is a daemon that connects agents with each other and with AI endpoints. Agents hold a
  WebSocket connection; messages are routed by rules (the plumber), a circuit breaker, the health of
  endpoints and a learning router that treats choices as amplitudes (the quantum router); a proxy
  forwards chat completions; a small file system, an index of tools, discovery of endpoints, rate
  limiting, authentication and a persistent store surround this. The theories follow the files under
  \<open>src/src/\<close>; a definition has the name of the function it translates unless that name clashes.

  \<^bold>\<open>The theories\<close>

  \<^item> \<open>Prelude\<close>: results with error texts, finite maps visited in a given order, sorting by a key, strings,
    and the two interfaces most components share: \<open>swept_map\<close> (a map from which a sweep removes exactly
    the stale entries) and \<open>keyed_machine\<close> (a map of independent machines, one per key). \<open>F64\<close>: rounding
    of 64-bit floating point, an interface \<open>rounding\<close> with the rounding to 53 bits as its instance.
  \<^item> \<open>Message\<close> (\<open>message.rs\<close>, \<open>net/protocol.rs\<close>): messages, responses, feedback events, the operations of
    a connection. \<open>Event\<close> (\<open>event.rs\<close>): events and what the store keeps of them. \<open>Codec\<close>, \<open>Wire\<close>
    (\<open>message.rs\<close>, \<open>net/protocol.rs\<close>): the derived JSON codec of all of these, over the interface
    \<open>json_codec\<close> with an interpretation for each type of field and each structure in another; \<open>Codec\<close> holds
    the documented rules of the derivation, \<open>Wire\<close> the fields and attributes the sources declare.
  \<^item> \<open>Agents\<close> (\<open>agent.rs\<close>), \<open>MsgQueue\<close> (\<open>queue.rs\<close>), \<open>Delivery\<close>: registry, queue, and the three ways the
    program delivers a message to an agent, which differ when a channel is closed. The interfaces
    \<open>delivery\<close> and \<open>lossless_delivery\<close> are interpreted on all three and on two of them.
  \<^item> \<open>Plumber\<close> (\<open>plumber.rs\<close>), \<open>Circuit\<close> (\<open>circuit.rs\<close>), \<open>Endpoints\<close> (\<open>ai/endpoints.rs\<close>, \<open>ai/probe.rs\<close>),
    \<open>Discovery\<close> (\<open>ai/discovery.rs\<close>, \<open>docker.rs\<close>), \<open>Mcp\<close> (\<open>mcp.rs\<close>), \<open>Router\<close> (\<open>router.rs\<close>): rules, breaker,
    endpoints and their health, the two sources of endpoints (interface \<open>endpoint_source\<close>), tools, and
    the pipeline of stages over all of these (interface \<open>router_stage\<close>).
  \<^item> \<open>QState\<close>, \<open>Entangle\<close>, \<open>QRouter\<close> (\<open>quantum/\<close>): amplitudes and rewards of a conversation,
    correlations, routing and learning.
  \<^item> \<open>RateLimit\<close> (\<open>ratelimit.rs\<close>), \<open>Auth\<close> (\<open>auth.rs\<close>), \<open>Tls\<close> (\<open>tls.rs\<close>), \<open>Config\<close> (\<open>config.rs\<close>).
  \<^item> \<open>Vfs\<close> (\<open>fs/vnode.rs\<close>, \<open>fs/registry.rs\<close>), \<open>Namespace\<close> (\<open>namespace.rs\<close>): nodes over a heap of shared
    cells, so that a handle to a node sees later writes; paths and their normal form.
  \<^item> \<open>Transport\<close> (\<open>net/transport.rs\<close>): each operation of a connection, its life from upgrade to teardown,
    and a step relation for interleaved connections. \<open>Proxy\<close> (\<open>proxy.rs\<close>): candidates, forwarding,
    outcomes, the stream that reports its outcome; \<open>Outage\<close>: proxy and breaker while an endpoint is down. \<open>Store\<close> (\<open>store.rs\<close>): the queries on lists of rows.
  \<^item> \<open>Handlers\<close> (\<open>api.rs\<close>, \<open>daemon.rs\<close>, \<open>grpc.rs\<close>, \<open>state.rs\<close>): the shared state as one record \<open>app\<close> and
    every HTTP handler as a function of it. \<open>Daemon\<close> (\<open>daemon.rs\<close>): start-up with its errors, the layers
    in front of the routes, the step relation \<open>app_step\<close> of the whole hub and what is reachable by it.
    \<open>HubEvents\<close>: the same steps as events with the frames they send. \<open>Server\<close>: the route tables, their
    nesting and the way of a request through layers, table and handler; each request has the effect of an
    event. \<open>Traffic\<close>, \<open>Losses\<close>: the messages under way over a run of events, and those that are lost.
    \<open>Rpc\<close> (\<open>grpc.rs\<close>): the codec of the RPC envelope and a whole call.
    \<open>TaskLoop\<close>, \<open>Tasks\<close>, \<open>Shutdown\<close>: the background tasks, and the end of the daemon. \<open>StoreLife\<close>,
    \<open>Restart\<close>: what the hub writes to its store over its life, and several runs of the daemon on one store.
    \<open>Cli\<close> (\<open>main.rs\<close>), \<open>Telemetry\<close> (\<open>telemetry.rs\<close>). \<open>ExampleClient\<close> (\<open>examples/ws_client.rs\<close>): the example
    client against the running hub.

  \<^bold>\<open>What the lemmas show\<close>

  Components: the breaker refines an abstract three-state breaker and wedges half open without outcomes;
  the limiter admits at most its budget in any period, rounding included; queues keep order and lose
  nothing except in the stated race; scans and prunings remove exactly what is stale; the pipeline and
  the proxy select only what is admitted and not offline; probabilities and rewards stay in bounds;
  paths normalise, writes are read back; rows are read back as stored. Compositions: deliveries
  conserve messages or lose exactly the stated ones; the two message routes agree except on a closed
  channel; registrations belong to live connections; feedback is in the store as in memory; every
  reachable state of the hub is well formed; a client gets at most its budget past the layers, and a
  dead endpoint is contacted a bounded number of times; a message is delivered at most once however
  requests, connections and tasks interleave, and what is not delivered waits or is lost for a stated
  reason; a restart keeps the store only; frames are read back as written; the example client's message is
  refused; the server only takes steps of the hub; without the key a request changes nothing; background
  tasks end exactly at shutdown, and the daemon within a bounded time.

  \<^bold>\<open>Conventions\<close>

  \<^item> Machine integers keep their width and wrap, as in a release build; \<open>i64\<close> times are integers.
    Errors are \<open>Inl\<close> with the text of the error.
  \<^item> Maps have no order of their own: an operation that visits a map takes the visited keys as an
    argument. An operation reads the clock once and takes that reading, fresh identifiers and random
    numbers as arguments. Theorems hold for all of these.
  \<^item> The quantum router computes over real numbers; the limiter, whose rounding decides who is admitted,
    over numbers rounded as \<open>f64\<close> are.
  \<^item> Writes that a handler spawns to the store are part of its effect, in the order of the program text.
    Operations of different requests interleave at the granularity of handlers and frames, and in
    \<open>MsgQueue\<close> and \<open>Transport\<close> at that of the locks, where the program is exposed to it.
  \<^item> \<open>drain_loop\<close>, \<open>socket_loop\<close> and the like recur on what is left to process. Only the background
    tasks may run for ever; they are partial functions, and no definition uses fuel. \<open>client_writes\<close> gives
    the first frames of a client that writes for ever, as many as one asks for.

  \<^bold>\<open>Parameters\<close>

  The regular expressions, the text formats of JSON, TOML, MessagePack, identifiers and times, SQLite's storage, the HTTP
  client with the servers it reaches, the Docker client, PEM and TLS, the WebSocket, and of the web
  framework the matching of paths, the extraction of bodies and the cross-origin layer. What a property
  needs of them is one of its hypotheses: that texts of identifiers, times and JSON read back and texts
  of times sort like times, that the pattern found for a path matches it, that a URL's path is what was
  appended to it.

  \<^bold>\<open>Not modelled\<close>

  The exporter of traces, argument parsing and printing in \<open>main.rs\<close>, module declarations, \<open>Debug\<close>
  instances and accessors of \<open>state.rs\<close>, logging and metrics, the limit on bodies and the timeout of
  requests, the arrival of signals, the SQL schema and its migrations, and the fields of \<open>ChatCompletionResponse\<close>, \<open>ReadRequest\<close> and \<open>WriteRequest\<close>, which nothing
  constructs. The JSON codecs of the store's columns and of the REST bodies are parameters; that of the frames
  is modelled by the rules serde documents for its derivation, not from generated code.
\<close>

end
